theory Spec2Isabelle
  imports Complex_Main
begin

section \<open>Sliding-window rate limiter\<close>

text \<open>
  Each edge function keeps a module-level \<open>Map<string, number[]>\<close> from client IP to the
  timestamps of its accepted requests. The model passes that map explicitly and returns
  the updated one. \<open>Date.now()\<close> is an integral number of milliseconds; it is a
  \<open>nat\<close> here and the subtraction \<open>now - t\<close> is done on \<open>int\<close>, as the
  JavaScript subtraction does not truncate at zero.
\<close>

type_synonym rate_map = "string \<rightharpoonup> nat list"

definition SESSION_RATE_LIMIT_WINDOW_MS :: nat where
  "SESSION_RATE_LIMIT_WINDOW_MS = 60 * 60 * 1000"

definition MAX_SESSIONS_PER_WINDOW :: nat where
  "MAX_SESSIONS_PER_WINDOW = 10"

text \<open>\<open>checkRateLimit\<close> of create-session.\<close>

definition checkRateLimit_session :: "nat \<Rightarrow> string \<Rightarrow> rate_map \<Rightarrow> bool \<times> rate_map" where
  "checkRateLimit_session now ip m =
     (let timestamps = (case m ip of None \<Rightarrow> [] | Some ts \<Rightarrow> ts);
          recentTimestamps =
            filter (\<lambda>t. int now - int t < int SESSION_RATE_LIMIT_WINDOW_MS) timestamps
      in if length recentTimestamps \<ge> MAX_SESSIONS_PER_WINDOW then (False, m)
         else (True, m(ip \<mapsto> recentTimestamps @ [now])))"

definition RATE_LIMIT_WINDOW_MS :: nat where
  "RATE_LIMIT_WINDOW_MS = 60 * 60 * 1000"

definition MAX_REQUESTS_PER_WINDOW :: nat where
  "MAX_REQUESTS_PER_WINDOW = 20"

text \<open>
  \<open>checkRateLimit\<close> of analyze-menu. The menu-saving endpoint declares the same two
  constants and the same function.
\<close>

definition checkRateLimit_api :: "nat \<Rightarrow> string \<Rightarrow> rate_map \<Rightarrow> bool \<times> rate_map" where
  "checkRateLimit_api now ip m =
     (let timestamps = (case m ip of None \<Rightarrow> [] | Some ts \<Rightarrow> ts);
          recentTimestamps =
            filter (\<lambda>t. int now - int t < int RATE_LIMIT_WINDOW_MS) timestamps
      in if length recentTimestamps \<ge> MAX_REQUESTS_PER_WINDOW then (False, m)
         else (True, m(ip \<mapsto> recentTimestamps @ [now])))"

text \<open>\<open>checkRateLimit\<close> of save-product: the same function with a limit of 30.\<close>

definition RATE_LIMIT_WINDOW_MS_save_product :: nat where
  "RATE_LIMIT_WINDOW_MS_save_product = 60 * 60 * 1000"

definition MAX_REQUESTS_PER_WINDOW_save_product :: nat where
  "MAX_REQUESTS_PER_WINDOW_save_product = 30"

definition checkRateLimit_save_product :: "nat \<Rightarrow> string \<Rightarrow> rate_map \<Rightarrow> bool \<times> rate_map" where
  "checkRateLimit_save_product now ip m =
     (let timestamps = (case m ip of None \<Rightarrow> [] | Some ts \<Rightarrow> ts);
          recentTimestamps =
            filter (\<lambda>t. int now - int t < int RATE_LIMIT_WINDOW_MS_save_product) timestamps
      in if length recentTimestamps \<ge> MAX_REQUESTS_PER_WINDOW_save_product then (False, m)
         else (True, m(ip \<mapsto> recentTimestamps @ [now])))"

text \<open>
  A sequence of calls for one key at the given clock readings, threading the map: the
  list of answers and the final map.
\<close>

fun rl_calls ::
  "(nat \<Rightarrow> string \<Rightarrow> rate_map \<Rightarrow> bool \<times> rate_map) \<Rightarrow> nat list \<Rightarrow> string \<Rightarrow> rate_map
     \<Rightarrow> bool list \<times> rate_map" where
  "rl_calls f [] ip m = ([], m)"
| "rl_calls f (t # ts) ip m =
     (case f t ip m of (b, m') \<Rightarrow>
        (case rl_calls f ts ip m' of (bs, m'') \<Rightarrow> (b # bs, m'')))"

text \<open>The timestamps held for a key, and those of them inside the window at \<open>now\<close>.\<close>

definition held :: "rate_map \<Rightarrow> string \<Rightarrow> nat list" where
  "held m ip = (case m ip of None \<Rightarrow> [] | Some ts \<Rightarrow> ts)"

definition retained :: "nat \<Rightarrow> nat \<Rightarrow> rate_map \<Rightarrow> string \<Rightarrow> nat list" where
  "retained W now m ip = filter (\<lambda>t. int now - int W < int t) (held m ip)"

text \<open>The common shape of the limiters, used only to share the proofs.\<close>

definition window_check :: "nat \<Rightarrow> nat \<Rightarrow> nat \<Rightarrow> string \<Rightarrow> rate_map \<Rightarrow> bool \<times> rate_map" where
  "window_check W N now ip m =
     (if length (retained W now m ip) \<ge> N then (False, m)
      else (True, m(ip \<mapsto> retained W now m ip @ [now])))"

section \<open>Platform functions: base64, UTF-8, JSON\<close>

text \<open>
  The edge functions run on Deno. The strings they handle here come from HTTP headers and
  from \<open>atob\<close>, so every code unit is below 256 and a JavaScript string is a
  \<open>string\<close> (a list of 8-bit \<open>char\<close>s); a byte of a \<open>Uint8Array\<close> is a \<open>char\<close>
  as well, which makes \<open>String.fromCharCode(...bytes)\<close> and
  \<open>Uint8Array.from(s, c => c.charCodeAt(0))\<close> the identity. Only \<open>JSON.parse\<close> can
  produce wider code units (through \<open>\uXXXX\<close>), so parsed strings are lists of code
  units given as \<open>nat\<close>.
\<close>

type_synonym jsstring = "nat list"

definition js_str :: "string \<Rightarrow> jsstring" where
  "js_str s = map of_char s"

subsection \<open>\<open>btoa\<close> and \<open>atob\<close>\<close>

definition b64_char :: "nat \<Rightarrow> char" where
  "b64_char n =
     (if n < 26 then char_of (65 + n)
      else if n < 52 then char_of (71 + n)
      else if n < 62 then char_of (n - 4)
      else if n = 62 then CHR ''+'' else CHR ''/'')"

definition b64_index :: "char \<Rightarrow> nat option" where
  "b64_index c =
     (let k = (of_char c :: nat) in
      if 65 \<le> k \<and> k \<le> 90 then Some (k - 65)
      else if 97 \<le> k \<and> k \<le> 122 then Some (k - 71)
      else if 48 \<le> k \<and> k \<le> 57 then Some (k + 4)
      else if k = 43 then Some 62
      else if k = 47 then Some 63
      else None)"

text \<open>The 6-bit groups of a byte string, three bytes to four groups.\<close>

fun sextets :: "string \<Rightarrow> nat list" where
  "sextets [] = []"
| "sextets [a] = (let x = (of_char a :: nat) in [x div 4, (x mod 4) * 16])"
| "sextets [a, b] =
     (let x = (of_char a :: nat); y = (of_char b :: nat)
      in [x div 4, (x mod 4) * 16 + y div 16, (y mod 16) * 4])"
| "sextets (a # b # c # r) =
     (let x = (of_char a :: nat); y = (of_char b :: nat); z = (of_char c :: nat)
      in [x div 4, (x mod 4) * 16 + y div 16, (y mod 16) * 4 + z div 64, z mod 64]
         @ sextets r)"

text \<open>
  \<open>btoa\<close>: standard base64 with \<open>=\<close> padding. It throws only on a code unit above 255,
  which the type \<open>char\<close> excludes.
\<close>

definition btoa :: "string \<Rightarrow> string" where
  "btoa s =
     (let body = map b64_char (sextets s)
      in body @ replicate ((4 - length body mod 4) mod 4) CHR ''='')"

fun unsextets :: "nat list \<Rightarrow> string" where
  "unsextets (p # q # r # s # rest) =
     [char_of (p * 4 + q div 16), char_of ((q mod 16) * 16 + r div 4),
      char_of ((r mod 4) * 64 + s)] @ unsextets rest"
| "unsextets [p, q, r] = [char_of (p * 4 + q div 16), char_of ((q mod 16) * 16 + r div 4)]"
| "unsextets [p, q] = [char_of (p * 4 + q div 16)]"
| "unsextets [p] = []"
| "unsextets [] = []"

definition ascii_whitespace :: "char \<Rightarrow> bool" where
  "ascii_whitespace c =
     (c = CHR 0x09 \<or> c = CHR 0x0A \<or> c = CHR 0x0C \<or> c = CHR 0x0D \<or> c = CHR 0x20)"

definition strip_padding :: "string \<Rightarrow> string" where
  "strip_padding d =
     (if 2 \<le> length d \<and> last d = CHR ''='' \<and> last (butlast d) = CHR ''=''
        then butlast (butlast d)
      else if d \<noteq> [] \<and> last d = CHR ''='' then butlast d
      else d)"

text \<open>
  \<open>atob\<close>: the forgiving base64 decoding of the WHATWG Infra standard. \<open>None\<close> is the
  thrown \<open>InvalidCharacterError\<close>.
\<close>

definition atob :: "string \<Rightarrow> string option" where
  "atob s =
     (let d0 = filter (\<lambda>c. \<not> ascii_whitespace c) s;
          d = (if length d0 mod 4 = 0 then strip_padding d0 else d0)
      in if length d mod 4 = 1 then None
         else if \<exists>c \<in> set d. b64_index c = None then None
         else Some (unsextets (map (\<lambda>c. the (b64_index c)) d)))"

subsection \<open>\<open>TextEncoder.encode\<close>\<close>

definition utf8_encode :: "string \<Rightarrow> string" where
  "utf8_encode s =
     concat (map (\<lambda>c. let n = (of_char c :: nat)
                       in if n < 128 then [c]
                          else [char_of (192 + n div 64), char_of (128 + n mod 64)]) s)"

subsection \<open>JSON values and \<open>JSON.parse\<close>\<close>

text \<open>
  A JavaScript number is an IEEE 754 binary64 value: \<open>NaN\<close>, an infinity, the negative
  zero, or a finite value, kept here as the rational it denotes (\<open>Num 0\<close> is the
  positive zero).
\<close>

datatype jsnum = NaN | Num rat | NegZero | PosInf | NegInf

text \<open>The number of binary digits of a positive integer.\<close>

function bit_length :: "int \<Rightarrow> nat" where
  "bit_length n = (if n \<le> 0 then 0 else Suc (bit_length (n div 2)))"
  by auto
termination
  by (relation "measure nat") auto

declare bit_length.simps [simp del]

definition pow2 :: "int \<Rightarrow> rat" where
  "pow2 k = (if 0 \<le> k then 2 ^ nat k else 1 / 2 ^ nat (- k))"

text \<open>
  The binary exponent of a positive rational \<open>p / q\<close> in lowest terms: the \<open>e\<close> with
  \<open>2^e \<le> p / q < 2^(e + 1)\<close>, which is the difference of the bit lengths of \<open>p\<close> and
  \<open>q\<close> or one less.
\<close>

definition floor_log2 :: "rat \<Rightarrow> int" where
  "floor_log2 x =
     (case quotient_of x of
        (p, q) \<Rightarrow>
          (let d = int (bit_length p) - int (bit_length q)
           in if pow2 d \<le> x then d else d - 1))"

definition round_half_even :: "rat \<Rightarrow> int" where
  "round_half_even x =
     (let f = \<lfloor>x\<rfloor>; d = x - of_int f
      in if d < 1 / 2 then f
         else if 1 / 2 < d then f + 1
         else if even f then f else f + 1)"

text \<open>
  The double nearest to a magnitude \<open>x \<ge> 0\<close>, ties to the even significand. The
  significand has 53 bits and the least exponent of its last bit is \<open>-1074\<close>, so small
  values round on the subnormal grid and may round to zero. \<open>None\<close> is the overflow: the
  rounded value would be \<open>2^1024\<close> or more.
\<close>

definition round_magnitude :: "rat \<Rightarrow> rat option" where
  "round_magnitude x =
     (if x \<le> 0 then Some 0
      else
        (let e = floor_log2 x;
             q = max (e - 52) (- 1074);
             k = round_half_even (x / pow2 q)
         in if 1024 \<le> e \<or> (e = 1023 \<and> k = 2 ^ 53) then None
            else Some (of_int k * pow2 q)))"

text \<open>
  The Number value of a literal with the given sign and magnitude. A negative literal
  that rounds to zero is the negative zero.
\<close>

definition double_of :: "bool \<Rightarrow> rat \<Rightarrow> jsnum" where
  "double_of neg x =
     (case round_magnitude x of
        None \<Rightarrow> (if neg then NegInf else PosInf)
      | Some y \<Rightarrow>
          if y = 0 then (if neg then NegZero else Num 0)
          else Num (if neg then - y else y))"

text \<open>
  An object is the list of its own members in property order: the keys are distinct, the
  array indices come first in ascending order and the other keys follow in the order of
  their creation.
\<close>

datatype json =
    JNull
  | JBool bool
  | JNum jsnum
  | JStr jsstring
  | JArr "json list"
  | JObj "(jsstring \<times> json) list"

definition is_dec :: "nat \<Rightarrow> bool" where
  "is_dec u = (48 \<le> u \<and> u \<le> 57)"

definition dec_val :: "nat list \<Rightarrow> int" where
  "dec_val ds = foldl (\<lambda>acc u. acc * 10 + (int u - 48)) 0 ds"

text \<open>
  An array index is the canonical decimal text of an integer from \<open>0\<close> to \<open>2^32 - 2\<close>.
\<close>

definition is_array_index :: "jsstring \<Rightarrow> bool" where
  "is_array_index k =
     (k \<noteq> [] \<and> list_all is_dec k \<and> (if hd k = 48 then length k = 1 else True) \<and>
      dec_val k < 4294967295)"

text \<open>
  \<open>CreateDataProperty\<close>: a key that the object has keeps its place and takes the new
  value; a new key is placed by the property order.
\<close>

fun obj_insert :: "jsstring \<Rightarrow> 'v \<Rightarrow> (jsstring \<times> 'v) list \<Rightarrow> (jsstring \<times> 'v) list" where
  "obj_insert k v [] = [(k, v)]"
| "obj_insert k v (m # ms) =
     (if is_array_index k \<and> (\<not> is_array_index (fst m) \<or> dec_val k < dec_val (fst m))
      then (k, v) # m # ms
      else m # obj_insert k v ms)"

definition obj_put :: "jsstring \<Rightarrow> 'v \<Rightarrow> (jsstring \<times> 'v) list \<Rightarrow> (jsstring \<times> 'v) list" where
  "obj_put k v ms =
     (if k \<in> set (map fst ms) then map (\<lambda>m. if fst m = k then (k, v) else m) ms
      else obj_insert k v ms)"

definition dquote :: char where
  "dquote = CHR 0x22"

definition backslash :: char where
  "backslash = CHR 0x5C"

definition json_ws :: "char \<Rightarrow> bool" where
  "json_ws c = (c = CHR 0x20 \<or> c = CHR 0x09 \<or> c = CHR 0x0A \<or> c = CHR 0x0D)"

definition skip_ws :: "string \<Rightarrow> string" where
  "skip_ws cs = dropWhile json_ws cs"

definition is_digit :: "char \<Rightarrow> bool" where
  "is_digit c = (48 \<le> (of_char c :: nat) \<and> (of_char c :: nat) \<le> 57)"

definition digit_val :: "char \<Rightarrow> int" where
  "digit_val c = int (of_char c) - 48"

definition digits_val :: "string \<Rightarrow> int" where
  "digits_val ds = foldl (\<lambda>acc c. acc * 10 + digit_val c) 0 ds"

definition hex_val :: "char \<Rightarrow> nat option" where
  "hex_val c =
     (let k = (of_char c :: nat) in
      if 48 \<le> k \<and> k \<le> 57 then Some (k - 48)
      else if 97 \<le> k \<and> k \<le> 102 then Some (k - 87)
      else if 65 \<le> k \<and> k \<le> 70 then Some (k - 55)
      else None)"

definition hex4 :: "char \<Rightarrow> char \<Rightarrow> char \<Rightarrow> char \<Rightarrow> nat option" where
  "hex4 a b c d =
     (case (hex_val a, hex_val b, hex_val c, hex_val d) of
        (Some p, Some q, Some r, Some s) \<Rightarrow> Some (((p * 16 + q) * 16 + r) * 16 + s)
      | _ \<Rightarrow> None)"

definition unescape :: "char \<Rightarrow> nat option" where
  "unescape e =
     (if e = dquote then Some 0x22
      else if e = backslash then Some 0x5C
      else if e = CHR ''/'' then Some 0x2F
      else if e = CHR ''b'' then Some 0x08
      else if e = CHR ''f'' then Some 0x0C
      else if e = CHR ''n'' then Some 0x0A
      else if e = CHR ''r'' then Some 0x0D
      else if e = CHR ''t'' then Some 0x09
      else None)"

text \<open>The characters of a string literal after its opening quote, up to the closing one.\<close>

fun parse_string_body :: "string \<Rightarrow> (jsstring \<times> string) option" where
  "parse_string_body [] = None"
| "parse_string_body (c # cs) =
     (if c = dquote then Some ([], cs)
      else if c = backslash then
        (case cs of
           [] \<Rightarrow> None
         | e # r \<Rightarrow>
             if e = CHR ''u'' then
               (case r of
                  h1 # h2 # h3 # h4 # r' \<Rightarrow>
                    (case hex4 h1 h2 h3 h4 of
                       None \<Rightarrow> None
                     | Some u \<Rightarrow>
                         (case parse_string_body r' of
                            None \<Rightarrow> None
                          | Some (s, t) \<Rightarrow> Some (u # s, t)))
                | _ \<Rightarrow> None)
             else
               (case unescape e of
                  None \<Rightarrow> None
                | Some u \<Rightarrow>
                    (case parse_string_body r of
                       None \<Rightarrow> None
                     | Some (s, t) \<Rightarrow> Some (u # s, t))))
      else if (of_char c :: nat) < 32 then None
      else
        (case parse_string_body cs of
           None \<Rightarrow> None
         | Some (s, t) \<Rightarrow> Some (of_char c # s, t)))"

text \<open>
  A number literal: \<open>-? (0 | [1-9][0-9]*) (. [0-9]+)? ([eE] [+-]? [0-9]+)?\<close>, the longest
  prefix of the input of that shape. Its value is the double nearest to the decimal
  value written.
\<close>

definition parse_int_part :: "string \<Rightarrow> (int \<times> string) option" where
  "parse_int_part cs =
     (case cs of
        [] \<Rightarrow> None
      | d # r \<Rightarrow>
          if d = CHR ''0'' then Some (0, r)
          else if is_digit d then Some (digits_val (takeWhile is_digit cs), dropWhile is_digit cs)
          else None)"

definition parse_frac_part :: "string \<Rightarrow> (rat \<times> string) option" where
  "parse_frac_part cs =
     (case cs of
        [] \<Rightarrow> Some (0, cs)
      | d # r \<Rightarrow>
          if d = CHR ''.'' then
            (let fs = takeWhile is_digit r
             in if fs = [] then None
                else Some (of_int (digits_val fs) / 10 ^ length fs, dropWhile is_digit r))
          else Some (0, cs))"

definition parse_exp_part :: "string \<Rightarrow> (rat \<times> string) option" where
  "parse_exp_part cs =
     (case cs of
        [] \<Rightarrow> Some (1, cs)
      | e # r \<Rightarrow>
          if e = CHR ''e'' \<or> e = CHR ''E'' then
            (let neg = (r \<noteq> [] \<and> hd r = CHR ''-'');
                 r1 = (if r \<noteq> [] \<and> (hd r = CHR ''-'' \<or> hd r = CHR ''+'') then tl r else r);
                 ds = takeWhile is_digit r1
             in if ds = [] then None
                else Some (if neg then 1 / 10 ^ nat (digits_val ds)
                           else 10 ^ nat (digits_val ds),
                           dropWhile is_digit r1))
          else Some (1, cs))"

definition parse_number :: "string \<Rightarrow> (jsnum \<times> string) option" where
  "parse_number cs =
     (let neg = (cs \<noteq> [] \<and> hd cs = CHR ''-'');
          cs1 = (if neg then tl cs else cs)
      in case parse_int_part cs1 of
           None \<Rightarrow> None
         | Some (ip, r1) \<Rightarrow>
             (case parse_frac_part r1 of
                None \<Rightarrow> None
              | Some (fp, r2) \<Rightarrow>
                  (case parse_exp_part r2 of
                     None \<Rightarrow> None
                   | Some (ex, r3) \<Rightarrow>
                       Some (double_of neg ((of_int ip + fp) * ex), r3))))"

text \<open>
  The recursive-descent parser. The first argument is fuel: it bounds the nesting and the
  number of members read. Every call consumes a character, so \<open>JSON_parse\<close> passes one
  more than the length of the text, which is shown below to be enough for every text.
  \<open>None\<close> is the thrown \<open>SyntaxError\<close>. Of the members of an object that share a
  name, the last one gives the value.
\<close>

fun parse_value :: "nat \<Rightarrow> string \<Rightarrow> (json \<times> string) option"
  and parse_elements :: "nat \<Rightarrow> json list \<Rightarrow> string \<Rightarrow> (json \<times> string) option"
  and parse_members ::
    "nat \<Rightarrow> (jsstring \<times> json) list \<Rightarrow> string \<Rightarrow> (json \<times> string) option" where
  "parse_value 0 cs = None"
| "parse_value (Suc n) cs =
     (case skip_ws cs of
        [] \<Rightarrow> None
      | c # r \<Rightarrow>
          if c = CHR ''{'' then
            (if skip_ws r \<noteq> [] \<and> hd (skip_ws r) = CHR ''}'' then Some (JObj [], tl (skip_ws r))
             else parse_members n [] r)
          else if c = CHR ''['' then
            (if skip_ws r \<noteq> [] \<and> hd (skip_ws r) = CHR '']'' then Some (JArr [], tl (skip_ws r))
             else parse_elements n [] r)
          else if c = dquote then
            (case parse_string_body r of
               None \<Rightarrow> None
             | Some (s, t) \<Rightarrow> Some (JStr s, t))
          else if take 4 (c # r) = ''true'' then Some (JBool True, drop 4 (c # r))
          else if take 5 (c # r) = ''false'' then Some (JBool False, drop 5 (c # r))
          else if take 4 (c # r) = ''null'' then Some (JNull, drop 4 (c # r))
          else
            (case parse_number (c # r) of
               None \<Rightarrow> None
             | Some (x, t) \<Rightarrow> Some (JNum x, t)))"
| "parse_elements 0 acc cs = None"
| "parse_elements (Suc n) acc cs =
     (case parse_value n cs of
        None \<Rightarrow> None
      | Some (v, r) \<Rightarrow>
          (case skip_ws r of
             [] \<Rightarrow> None
           | d # r' \<Rightarrow>
               if d = CHR '','' then parse_elements n (acc @ [v]) r'
               else if d = CHR '']'' then Some (JArr (acc @ [v]), r')
               else None))"
| "parse_members 0 acc cs = None"
| "parse_members (Suc n) acc cs =
     (case skip_ws cs of
        [] \<Rightarrow> None
      | q # r \<Rightarrow>
          if q \<noteq> dquote then None
          else
            (case parse_string_body r of
               None \<Rightarrow> None
             | Some (k, r1) \<Rightarrow>
                 (case skip_ws r1 of
                    [] \<Rightarrow> None
                  | col # r2 \<Rightarrow>
                      if col \<noteq> CHR '':'' then None
                      else
                        (case parse_value n r2 of
                           None \<Rightarrow> None
                         | Some (v, r3) \<Rightarrow>
                             (case skip_ws r3 of
                                [] \<Rightarrow> None
                              | d # r4 \<Rightarrow>
                                  if d = CHR '','' then parse_members n (obj_put k v acc) r4
                                  else if d = CHR ''}'' then Some (JObj (obj_put k v acc), r4)
                                  else None)))))"

definition JSON_parse :: "string \<Rightarrow> json option" where
  "JSON_parse s =
     (case parse_value (Suc (length s)) s of
        None \<Rightarrow> None
      | Some (v, r) \<Rightarrow> if skip_ws r = [] then Some v else None)"

subsection \<open>Property access and the comparison \<open>Date.now() > payload.exp\<close>\<close>

datatype js_error = InvalidCharacterError | SyntaxError | TypeError | ConfigError

text \<open>
  \<open>v.name\<close> for a parsed value \<open>v\<close> and a name that no prototype defines (\<open>exp\<close>,
  \<open>origin\<close>): reading a property of \<open>null\<close> throws, an object yields its own member
  of that name and every other value yields \<open>undefined\<close>, here \<open>None\<close>.
\<close>

definition get_prop :: "json \<Rightarrow> string \<Rightarrow> js_error + json option" where
  "get_prop v name =
     (case v of
        JNull \<Rightarrow> Inl TypeError
      | JObj ms \<Rightarrow> Inr (map_of ms (js_str name))
      | _ \<Rightarrow> Inr None)"

definition str_ws :: "nat \<Rightarrow> bool" where
  "str_ws u =
     (u \<in> {0x09, 0x0A, 0x0B, 0x0C, 0x0D, 0x20, 0xA0, 0x1680, 0x2028, 0x2029, 0x202F,
            0x205F, 0x3000, 0xFEFF} \<or> (0x2000 \<le> u \<and> u \<le> 0x200A))"

definition radix_digit :: "nat \<Rightarrow> nat option" where
  "radix_digit u =
     (if 48 \<le> u \<and> u \<le> 57 then Some (u - 48)
      else if 97 \<le> u \<and> u \<le> 102 then Some (u - 87)
      else if 65 \<le> u \<and> u \<le> 70 then Some (u - 55)
      else None)"

definition radix_literal :: "nat \<Rightarrow> nat list \<Rightarrow> jsnum" where
  "radix_literal b ds =
     (if ds \<noteq> [] \<and> list_all (\<lambda>u. case radix_digit u of None \<Rightarrow> False | Some d \<Rightarrow> d < b) ds
      then double_of False
             (of_int (foldl (\<lambda>acc u. acc * int b + int (the (radix_digit u))) 0 ds))
      else NaN)"

definition decimal_literal :: "nat list \<Rightarrow> jsnum" where
  "decimal_literal t =
     (let neg = (t \<noteq> [] \<and> hd t = 45);
          u = (if t \<noteq> [] \<and> (hd t = 45 \<or> hd t = 43) then tl t else t)
      in if u = js_str ''Infinity'' then (if neg then NegInf else PosInf)
         else
           (let ip = takeWhile is_dec u;
                r1 = dropWhile is_dec u;
                dot = (r1 \<noteq> [] \<and> hd r1 = 46);
                fs = (if dot then takeWhile is_dec (tl r1) else []);
                r2 = (if dot then dropWhile is_dec (tl r1) else r1);
                ex = (r2 \<noteq> [] \<and> (hd r2 = 101 \<or> hd r2 = 69));
                eneg = (ex \<and> tl r2 \<noteq> [] \<and> hd (tl r2) = 45);
                r3 = (if ex \<and> tl r2 \<noteq> [] \<and> (hd (tl r2) = 45 \<or> hd (tl r2) = 43)
                      then tl (tl r2) else tl r2);
                mant = (of_int (dec_val ip) + of_int (dec_val fs) / 10 ^ length fs :: rat)
            in if ip = [] \<and> fs = [] then NaN
               else if r2 = [] then double_of neg mant
               else if ex \<and> r3 \<noteq> [] \<and> list_all is_dec r3
                 then double_of neg
                        (mant * (if eneg then 1 / 10 ^ nat (dec_val r3) else 10 ^ nat (dec_val r3)))
               else NaN))"

text \<open>\<open>StringToNumber\<close> of ECMAScript; the value of a literal is rounded to a double.\<close>

definition string_to_number :: "jsstring \<Rightarrow> jsnum" where
  "string_to_number s =
     (let t = rev (dropWhile str_ws (rev (dropWhile str_ws s)))
      in if t = [] then Num 0
         else if 2 \<le> length t \<and> hd t = 48 \<and> (t ! 1 = 120 \<or> t ! 1 = 88)
           then radix_literal 16 (drop 2 t)
         else if 2 \<le> length t \<and> hd t = 48 \<and> (t ! 1 = 111 \<or> t ! 1 = 79)
           then radix_literal 8 (drop 2 t)
         else if 2 \<le> length t \<and> hd t = 48 \<and> (t ! 1 = 98 \<or> t ! 1 = 66)
           then radix_literal 2 (drop 2 t)
         else decimal_literal t)"

text \<open>
  Converting a parsed object to a primitive throws exactly when it has an own member
  \<open>toString\<close> (never callable, and \<open>valueOf\<close> never yields a primitive); an array is
  joined, which converts its elements in turn.
\<close>

fun to_primitive_throws :: "json \<Rightarrow> bool" where
  "to_primitive_throws (JObj ms) = (js_str ''toString'' \<in> fst ` set ms)"
| "to_primitive_throws (JArr xs) = (\<exists>x \<in> set xs. to_primitive_throws x)"
| "to_primitive_throws v = False"

text \<open>
  \<open>ToNumber\<close> of a parsed value that converts without throwing. An array of two or more
  elements joins to a text with a comma, which is no numeric literal; an array of one
  number joins to the text of that number, which reads back as the same number, the
  negative zero as zero.
\<close>

fun to_number :: "json \<Rightarrow> jsnum" where
  "to_number JNull = Num 0"
| "to_number (JBool b) = Num (if b then 1 else 0)"
| "to_number (JNum x) = x"
| "to_number (JStr s) = string_to_number s"
| "to_number (JObj ms) = NaN"
| "to_number (JArr []) = Num 0"
| "to_number (JArr [JNull]) = Num 0"
| "to_number (JArr [JBool b]) = NaN"
| "to_number (JArr [JNum x]) = (if x = NegZero then Num 0 else x)"
| "to_number (JArr [JStr s]) = string_to_number s"
| "to_number (JArr [JObj ms]) = NaN"
| "to_number (JArr [JArr ys]) = to_number (JArr ys)"
| "to_number (JArr (x # y # zs)) = NaN"

text \<open>\<open>now > v\<close> for the clock reading \<open>now\<close> and a property value \<open>v\<close>.\<close>

definition js_gt :: "nat \<Rightarrow> json option \<Rightarrow> js_error + bool" where
  "js_gt now v =
     (case v of
        None \<Rightarrow> Inr False
      | Some x \<Rightarrow>
          if to_primitive_throws x then Inl TypeError
          else (case to_number x of
                  NaN \<Rightarrow> Inr False
                | Num e \<Rightarrow> Inr (e < of_nat now)
                | NegZero \<Rightarrow> Inr (0 < now)
                | PosInf \<Rightarrow> Inr False
                | NegInf \<Rightarrow> Inr True))"

section \<open>Token verifier (\<open>_shared/auth.ts\<close>)\<close>

text \<open>
  \<open>crypto.subtle\<close> computes HMAC-SHA-256. The function is a parameter \<open>H\<close> of the model,
  from the key bytes and the message bytes to the MAC bytes: \<open>sign\<close> returns \<open>H key msg\<close>
  and \<open>verify\<close> compares the presented signature with it. The environment variable
  \<open>SESSION_SIGNING_SECRET\<close> and the reading of \<open>Date.now()\<close> are arguments.
\<close>

type_synonym hmac = "string \<Rightarrow> string \<Rightarrow> string"

record verify_result =
  valid :: bool
  error :: "string option"
  payload :: "json option"

definition rejected :: "string \<Rightarrow> verify_result" where
  "rejected msg = \<lparr>valid = False, error = Some msg, payload = None\<rparr>"

definition getHmacKey :: "string option \<Rightarrow> js_error + string" where
  "getHmacKey secret =
     (case secret of
        None \<Rightarrow> Inl ConfigError
      | Some k \<Rightarrow> if k = [] then Inl ConfigError else Inr (utf8_encode k))"

text \<open>\<open>String.prototype.split\<close> with a one-character separator.\<close>

fun split_on :: "char \<Rightarrow> string \<Rightarrow> string list" where
  "split_on d [] = [[]]"
| "split_on d (c # cs) =
     (if c = d then [] # split_on d cs
      else (case split_on d cs of
              [] \<Rightarrow> [[c]]
            | p # ps \<Rightarrow> (c # p) # ps))"

text \<open>
  \<open>atob(seg.replace(/-/g, '+').replace(/_/g, '/').padEnd(len + (4 - len % 4) % 4, '='))\<close>
\<close>

definition decode_base64url :: "string \<Rightarrow> string option" where
  "decode_base64url seg =
     atob (map (\<lambda>c. if c = CHR ''_'' then CHR ''/'' else c)
             (map (\<lambda>c. if c = CHR ''-'' then CHR ''+'' else c) seg)
           @ replicate ((4 - length seg mod 4) mod 4) CHR ''='')"

text \<open>The body of the \<open>try\<close> block; \<open>Inl\<close> is an exception on its way to the \<open>catch\<close>.\<close>

definition verifySessionToken_try ::
  "hmac \<Rightarrow> string option \<Rightarrow> nat \<Rightarrow> string \<Rightarrow> string option \<Rightarrow> js_error + verify_result" where
  "verifySessionToken_try H secret now token requestOrigin =
     (let parts = split_on CHR ''.'' token in
      if length parts \<noteq> 2 then Inr (rejected ''Invalid token format'')
      else
        (let base64Payload = parts ! 0; base64Signature = parts ! 1 in
         case decode_base64url base64Payload of
           None \<Rightarrow> Inl InvalidCharacterError
         | Some payloadString \<Rightarrow>
             (case JSON_parse payloadString of
                None \<Rightarrow> Inl SyntaxError
              | Some payloadObj \<Rightarrow>
                  (case get_prop payloadObj ''exp'' of
                     Inl e \<Rightarrow> Inl e
                   | Inr expV \<Rightarrow>
                       (case js_gt now expV of
                          Inl e \<Rightarrow> Inl e
                        | Inr expired \<Rightarrow>
                            if expired then Inr (rejected ''Session expired'')
                            else if (case requestOrigin of
                                       None \<Rightarrow> False
                                     | Some ro \<Rightarrow>
                                         ro \<noteq> [] \<and>
                                         get_prop payloadObj ''origin''
                                           \<noteq> Inr (Some (JStr (js_str ro))))
                              then Inr (rejected ''Origin mismatch'')
                            else
                              (case getHmacKey secret of
                                 Inl e \<Rightarrow> Inl e
                               | Inr hmacKey \<Rightarrow>
                                   (case decode_base64url base64Signature of
                                      None \<Rightarrow> Inl InvalidCharacterError
                                    | Some signature \<Rightarrow>
                                        if H hmacKey (utf8_encode payloadString) = signature
                                          then Inr \<lparr>valid = True, error = None,
                                                    payload = Some payloadObj\<rparr>
                                        else Inr (rejected ''Invalid signature''))))))))"

definition verifySessionToken ::
  "hmac \<Rightarrow> string option \<Rightarrow> nat \<Rightarrow> string \<Rightarrow> string option \<Rightarrow> verify_result" where
  "verifySessionToken H secret now token requestOrigin =
     (if token = [] then rejected ''No session token provided''
      else (case verifySessionToken_try H secret now token requestOrigin of
              Inl e \<Rightarrow> rejected ''Token verification failed''
            | Inr r \<Rightarrow> r))"

section \<open>Token issuer (create-session)\<close>

subsection \<open>Origin allow-list and CORS header\<close>

definition is_word_char :: "char \<Rightarrow> bool" where
  "is_word_char c =
     (let k = (of_char c :: nat) in
      (65 \<le> k \<and> k \<le> 90) \<or> (97 \<le> k \<and> k \<le> 122) \<or> (48 \<le> k \<and> k \<le> 57) \<or> c = CHR ''_'')"

text \<open>
  \<open>/^https:\/\/[\w-]+\.SUFFIX$/.test(origin)\<close>, the suffix given with its leading dot.
  The class \<open>[\w-]\<close> has no dot, so the greedy run of class characters is the only
  candidate for the label.
\<close>

definition lovable_pattern :: "string \<Rightarrow> string \<Rightarrow> bool" where
  "lovable_pattern suffix origin =
     (take 8 origin = ''https://'' \<and>
      (let rest = drop 8 origin;
           label = takeWhile (\<lambda>c. is_word_char c \<or> c = CHR ''-'') rest
       in label \<noteq> [] \<and> dropWhile (\<lambda>c. is_word_char c \<or> c = CHR ''-'') rest = suffix))"

definition isAllowedOrigin :: "string option \<Rightarrow> bool" where
  "isAllowedOrigin origin =
     (case origin of
        None \<Rightarrow> False
      | Some ori \<Rightarrow>
          if ori = [] then False
          else if ori \<in> set [''https://handwrite-to-taste.lovable.app'',
                               ''http://localhost:5173'', ''http://localhost:8080''] then True
          else lovable_pattern ''.lovable.app'' ori \<or> lovable_pattern ''.lovableproject.com'' ori)"

definition defaultOrigin :: string where
  "defaultOrigin = ''https://handwrite-to-taste.lovable.app''"

text \<open>The \<open>Access-Control-Allow-Origin\<close> header of \<open>getCorsHeaders\<close>; the other two are constants.\<close>

definition getCorsHeaders :: "string option \<Rightarrow> string" where
  "getCorsHeaders origin =
     (if isAllowedOrigin origin then (case origin of Some ori \<Rightarrow> ori | None \<Rightarrow> defaultOrigin)
      else defaultOrigin)"

subsection \<open>\<open>JSON.stringify\<close> of the payload\<close>

text \<open>
  \<open>Number.prototype.toString\<close> on a non-negative integral number below \<open>10^21\<close>, which
  every time value is: the decimal digits without leading zeros.
\<close>

fun dec :: "nat \<Rightarrow> string" where
  "dec n = (if n < 10 then [char_of (48 + n)] else dec (n div 10) @ [char_of (48 + n mod 10)])"

declare dec.simps [simp del]

definition hex_digit :: "nat \<Rightarrow> char" where
  "hex_digit n = (if n < 10 then char_of (48 + n) else char_of (87 + n))"

definition json_escape :: "char \<Rightarrow> string" where
  "json_escape c =
     (let k = (of_char c :: nat) in
      if k = 0x08 then [backslash, CHR ''b'']
      else if k = 0x09 then [backslash, CHR ''t'']
      else if k = 0x0A then [backslash, CHR ''n'']
      else if k = 0x0C then [backslash, CHR ''f'']
      else if k = 0x0D then [backslash, CHR ''r'']
      else if c = dquote then [backslash, dquote]
      else if c = backslash then [backslash, backslash]
      else if k < 0x20 then [backslash, CHR ''u'', CHR ''0'', CHR ''0'',
                             hex_digit (k div 16), hex_digit (k mod 16)]
      else [c])"

definition json_quote :: "string \<Rightarrow> string" where
  "json_quote s = [dquote] @ concat (map json_escape s) @ [dquote]"

record SessionPayload =
  p_sid :: string
  p_origin :: string
  p_iat :: nat
  p_exp :: nat

definition JSON_stringify :: "SessionPayload \<Rightarrow> string" where
  "JSON_stringify p =
     ''{'' @ json_quote ''sid'' @ '':'' @ json_quote (p_sid p) @
     '','' @ json_quote ''origin'' @ '':'' @ json_quote (p_origin p) @
     '','' @ json_quote ''iat'' @ '':'' @ dec (p_iat p) @
     '','' @ json_quote ''exp'' @ '':'' @ dec (p_exp p) @ ''}''"

text \<open>The payload object as a JSON value, for comparison with what the verifier returns.\<close>

definition payload_json :: "SessionPayload \<Rightarrow> json" where
  "payload_json p =
     JObj [(js_str ''sid'', JStr (js_str (p_sid p))),
           (js_str ''origin'', JStr (js_str (p_origin p))),
           (js_str ''iat'', JNum (Num (of_nat (p_iat p)))),
           (js_str ''exp'', JNum (Num (of_nat (p_exp p))))]"

subsection \<open>\<open>createSessionToken\<close>\<close>

text \<open>\<open>.replace(/\+/g, '-').replace(/\//g, '_').replace(/=+$/, '')\<close>\<close>

definition to_base64url :: "string \<Rightarrow> string" where
  "to_base64url b =
     rev (dropWhile (\<lambda>c. c = CHR ''='')
            (rev (map (\<lambda>c. if c = CHR ''/'' then CHR ''_'' else c)
                    (map (\<lambda>c. if c = CHR ''+'' then CHR ''-'' else c) b))))"

text \<open>
  The two readings of \<open>Date.now()\<close>, for \<open>iat\<close> and for \<open>exp\<close>, are separate arguments.
  \<open>getHmacKey\<close> of create-session differs from the verifier's only in the key usage.
\<close>

definition createSessionToken ::
  "hmac \<Rightarrow> string option \<Rightarrow> nat \<Rightarrow> nat \<Rightarrow> string \<Rightarrow> string \<Rightarrow> js_error + string" where
  "createSessionToken H secret now_iat now_exp sessionId origin =
     (case getHmacKey secret of
        Inl e \<Rightarrow> Inl e
      | Inr hmacKey \<Rightarrow>
          (let payloadRec = \<lparr>p_sid = sessionId, p_origin = origin, p_iat = now_iat,
                             p_exp = now_exp + 24 * 60 * 60 * 1000\<rparr>;
               payloadString = JSON_stringify payloadRec;
               signature = H hmacKey (utf8_encode payloadString);
               base64Signature = to_base64url (btoa signature);
               base64Payload = to_base64url (btoa payloadString)
           in Inr (base64Payload @ ''.'' @ base64Signature)))"

subsection \<open>The request handler\<close>

record cs_request =
  req_method :: string
  h_origin :: "string option"
  h_x_forwarded_for :: "string option"
  h_x_real_ip :: "string option"

text \<open>The four readings of \<open>Date.now()\<close> a request can make, in program order.\<close>

record cs_clock =
  t_limit :: nat
  t_sid :: nat
  t_iat :: nat
  t_exp :: nat

datatype cs_body =
    NoBody
  | ErrorBody string
  | SessionBody string string nat

record cs_response =
  status :: nat
  allow_origin :: string
  body :: cs_body

definition js_trim :: "string \<Rightarrow> string" where
  "js_trim s = rev (dropWhile (\<lambda>c. str_ws (of_char c)) (rev (dropWhile (\<lambda>c. str_ws (of_char c)) s)))"

text \<open>
  \<open>req.headers.get('x-forwarded-for')?.split(',')[0]?.trim() || req.headers.get('x-real-ip')
  || 'unknown'\<close>
\<close>

definition clientIP :: "cs_request \<Rightarrow> string" where
  "clientIP req =
     (let forwarded = (case h_x_forwarded_for req of
                         None \<Rightarrow> []
                       | Some h \<Rightarrow> (case split_on CHR '','' h of [] \<Rightarrow> [] | x # _ \<Rightarrow> js_trim x))
      in if forwarded \<noteq> [] then forwarded
         else (case h_x_real_ip req of
                 None \<Rightarrow> ''unknown''
               | Some r \<Rightarrow> if r \<noteq> [] then r else ''unknown''))"

text \<open>
  \<open>uuid\<close> is the value of \<open>crypto.randomUUID()\<close>: 36 characters, lower-case hexadecimal
  digits with hyphens after the 8th, 12th, 16th and 20th digit.
\<close>

definition is_lower_hex :: "char \<Rightarrow> bool" where
  "is_lower_hex c =
     (let k = (of_char c :: nat) in (48 \<le> k \<and> k \<le> 57) \<or> (97 \<le> k \<and> k \<le> 102))"

definition is_uuid :: "string \<Rightarrow> bool" where
  "is_uuid u =
     (length u = 36 \<and>
      list_all (\<lambda>i. if i \<in> set [8, 13, 18, 23] then u ! i = CHR ''-'' else is_lower_hex (u ! i))
        [0..<36])"

definition generate_sessionId :: "nat \<Rightarrow> string \<Rightarrow> string" where
  "generate_sessionId now uuid = dec now @ ''-'' @ take 8 uuid"

definition serve_create_session ::
  "hmac \<Rightarrow> string option \<Rightarrow> cs_clock \<Rightarrow> string \<Rightarrow> cs_request \<Rightarrow> rate_map
     \<Rightarrow> cs_response \<times> rate_map" where
  "serve_create_session H secret clock uuid req limits =
     (let origin = h_origin req;
          corsHeaders = getCorsHeaders origin
      in if req_method req = ''OPTIONS''
           then (\<lparr>status = 200, allow_origin = corsHeaders, body = NoBody\<rparr>, limits)
         else
           (case checkRateLimit_session (t_limit clock) (clientIP req) limits of
              (allowed, limits') \<Rightarrow>
                if \<not> allowed
                  then (\<lparr>status = 429, allow_origin = corsHeaders,
                          body = ErrorBody ''Too many session requests. Please wait and try again.''\<rparr>,
                        limits')
                else
                  (case origin of
                     None \<Rightarrow>
                       (\<lparr>status = 403, allow_origin = corsHeaders,
                         body = ErrorBody ''Invalid origin''\<rparr>, limits')
                   | Some requestOrigin \<Rightarrow>
                       if \<not> isAllowedOrigin origin
                         then (\<lparr>status = 403, allow_origin = corsHeaders,
                                 body = ErrorBody ''Invalid origin''\<rparr>, limits')
                       else
                         (let sessionId = generate_sessionId (t_sid clock) uuid
                          in case createSessionToken H secret (t_iat clock) (t_exp clock)
                                    sessionId requestOrigin of
                               Inl e \<Rightarrow>
                                 (\<lparr>status = 500, allow_origin = corsHeaders,
                                   body = ErrorBody ''Failed to create session''\<rparr>, limits')
                             | Inr token \<Rightarrow>
                                 (\<lparr>status = 200, allow_origin = corsHeaders,
                                   body = SessionBody sessionId token 86400\<rparr>, limits')))))"

subsection \<open>The \<open>sessionId\<close> checks of \<open>validateInput\<close> (save endpoint)\<close>

datatype validation_error = SessionIdRequired | SessionIdTooLong | SessionIdBadFormat

definition MAX_SESSION_ID_LENGTH :: nat where
  "MAX_SESSION_ID_LENGTH = 100"

definition id_char :: "nat \<Rightarrow> bool" where
  "id_char u =
     ((97 \<le> u \<and> u \<le> 122) \<or> (65 \<le> u \<and> u \<le> 90) \<or> (48 \<le> u \<and> u \<le> 57) \<or> u = 95 \<or> u = 45)"

text \<open>
  The first three checks of \<open>validateInput\<close>, on the \<open>sessionId\<close> member of the parsed
  request body (\<open>None\<close> when the member is missing); \<open>None\<close> as the result means that
  all three pass. The pattern is \<open>/^[a-zA-Z0-9_-]+$/\<close>.
\<close>

definition validate_sessionId :: "json option \<Rightarrow> validation_error option" where
  "validate_sessionId sessionId =
     (case sessionId of
        Some (JStr s) \<Rightarrow>
          if s = [] then Some SessionIdRequired
          else if length s > MAX_SESSION_ID_LENGTH then Some SessionIdTooLong
          else if \<not> (s \<noteq> [] \<and> list_all id_char s) then Some SessionIdBadFormat
          else None
      | _ \<Rightarrow> Some SessionIdRequired)"

section \<open>The toggle-favorite endpoint\<close>

text \<open>
  The two tables hold, per row id, the session identifier the row was created under and
  the favourite flag. The members \<open>id\<close>, \<open>type\<close> and \<open>sessionId\<close> of the request body are
  strings (an absent member is the empty string, which is as falsy as \<open>undefined\<close>);
  \<open>isFavorite\<close> is \<open>None\<close> when it is not a boolean (the last \<open>case\<close> of the handler
  only reads the boolean; its \<open>None\<close> branch is never reached). A body of \<open>None\<close> is a
  request whose \<open>req.json()\<close> throws. The failures the database client can report are the two
  flags \<open>fetchError\<close> and \<open>updateError\<close>. The user-facing messages are Korean; the model
  names them.
\<close>

record fav_row =
  row_session_id :: jsstring
  row_is_favorite :: bool

record database =
  menu_analyses :: "jsstring \<rightharpoonup> fav_row"
  product_analyses :: "jsstring \<rightharpoonup> fav_row"

record tf_body =
  b_id :: jsstring
  b_type :: jsstring
  b_isFavorite :: "bool option"
  b_sessionId :: jsstring

record tf_request =
  tf_method :: string
  tf_origin :: "string option"
  tf_session_token :: "string option"
  tf_json :: "tf_body option"

record tf_env =
  SESSION_SIGNING_SECRET :: "string option"
  SUPABASE_URL :: "string option"
  SUPABASE_SERVICE_ROLE_KEY :: "string option"

datatype tf_message =
    AuthRequired
  | SessionExpired
  | MissingParameters
  | InvalidType
  | ServerConfigError
  | FetchFailed
  | RecordNotFound
  | NotAuthorized
  | UpdateFailed
  | ToggleFailed

datatype tf_result = TfNoBody | TfError tf_message | TfSuccess bool

record tf_response =
  tf_status :: nat
  tf_result :: tf_result

definition table_get :: "database \<Rightarrow> jsstring \<Rightarrow> jsstring \<rightharpoonup> fav_row" where
  "table_get db tableName =
     (if tableName = js_str ''menu_analyses'' then menu_analyses db else product_analyses db)"

definition table_update ::
  "database \<Rightarrow> jsstring \<Rightarrow> jsstring \<Rightarrow> bool \<Rightarrow> database" where
  "table_update db tableName rowId flag =
     (let upd = (\<lambda>t. case t rowId of
                        None \<Rightarrow> t
                      | Some r \<Rightarrow> t(rowId \<mapsto> r\<lparr>row_is_favorite := flag\<rparr>))
      in if tableName = js_str ''menu_analyses''
           then db\<lparr>menu_analyses := upd (menu_analyses db)\<rparr>
         else db\<lparr>product_analyses := upd (product_analyses db)\<rparr>)"

definition falsy :: "string option \<Rightarrow> bool" where
  "falsy v = (case v of None \<Rightarrow> True | Some x \<Rightarrow> x = [])"

definition serve_toggle_favorite ::
  "hmac \<Rightarrow> tf_env \<Rightarrow> nat \<Rightarrow> bool \<Rightarrow> bool \<Rightarrow> tf_request \<Rightarrow> database
     \<Rightarrow> tf_response \<times> database" where
  "serve_toggle_favorite H env now fetchError updateError req db =
     (if tf_method req = ''OPTIONS'' then (\<lparr>tf_status = 200, tf_result = TfNoBody\<rparr>, db)
      else if falsy (tf_session_token req)
        then (\<lparr>tf_status = 401, tf_result = TfError AuthRequired\<rparr>, db)
      else if \<not> valid (verifySessionToken H (SESSION_SIGNING_SECRET env) now
                          (case tf_session_token req of Some t \<Rightarrow> t | None \<Rightarrow> [])
                          (tf_origin req))
        then (\<lparr>tf_status = 401, tf_result = TfError SessionExpired\<rparr>, db)
      else
        (case tf_json req of
           None \<Rightarrow> (\<lparr>tf_status = 500, tf_result = TfError ToggleFailed\<rparr>, db)
         | Some b \<Rightarrow>
             if b_id b = [] \<or> b_type b = [] \<or> b_isFavorite b = None \<or> b_sessionId b = []
               then (\<lparr>tf_status = 400, tf_result = TfError MissingParameters\<rparr>, db)
             else if b_type b \<noteq> js_str ''menu'' \<and> b_type b \<noteq> js_str ''product''
               then (\<lparr>tf_status = 400, tf_result = TfError InvalidType\<rparr>, db)
             else if falsy (SUPABASE_URL env) \<or> falsy (SUPABASE_SERVICE_ROLE_KEY env)
               then (\<lparr>tf_status = 500, tf_result = TfError ServerConfigError\<rparr>, db)
             else
               (let tableName = (if b_type b = js_str ''menu'' then js_str ''menu_analyses''
                                 else js_str ''product_analyses'')
                in if fetchError
                     then (\<lparr>tf_status = 500, tf_result = TfError FetchFailed\<rparr>, db)
                   else
                     (case table_get db tableName (b_id b) of
                        None \<Rightarrow> (\<lparr>tf_status = 404, tf_result = TfError RecordNotFound\<rparr>, db)
                      | Some existingRecord \<Rightarrow>
                          if row_session_id existingRecord \<noteq> b_sessionId b
                            then (\<lparr>tf_status = 403, tf_result = TfError NotAuthorized\<rparr>, db)
                          else if updateError
                            then (\<lparr>tf_status = 500, tf_result = TfError UpdateFailed\<rparr>, db)
                          else
                            (case b_isFavorite b of
                               None \<Rightarrow>
                                 (\<lparr>tf_status = 400, tf_result = TfError MissingParameters\<rparr>, db)
                             | Some isFavorite \<Rightarrow>
                                 (\<lparr>tf_status = 200, tf_result = TfSuccess isFavorite\<rparr>,
                                  table_update db tableName (b_id b) isFavorite))))))"

text \<open>The table the request addresses.\<close>

definition tf_table :: "tf_body \<Rightarrow> jsstring" where
  "tf_table b = (if b_type b = js_str ''menu'' then js_str ''menu_analyses''
                 else js_str ''product_analyses'')"

section \<open>Client session manager (\<open>useSessionToken\<close>)\<close>

record SessionData =
  sd_sessionId :: string
  sd_token :: string
  sd_expiresAt :: nat

definition EXPIRY_BUFFER_MS :: nat where
  "EXPIRY_BUFFER_MS = 5 * 60 * 1000"

text \<open>
  The hook's state: the ref holding the current record, the \<open>sessionStorage\<close> item, the
  two React state values, the initialisation guard, and a count of the calls made to the
  create-session function, kept to say when the issuer is invoked.
\<close>

record client_state =
  sessionDataRef :: "SessionData option"
  sessionStorage :: "SessionData option"
  sessionToken :: "string option"
  sessionIdState :: "string option"
  initializingRef :: bool
  issuer_calls :: nat

text \<open>What \<open>supabase.functions.invoke('create-session')\<close> resolves to.\<close>

record issue_data =
  d_success :: bool
  d_token :: string
  d_sessionId :: string
  d_expiresIn :: nat

datatype invoke_result = InvokeError string | InvokeData "issue_data option"

text \<open>\<open>createSession\<close>; \<open>Inl\<close> is the error it throws.\<close>

definition createSession ::
  "invoke_result \<Rightarrow> nat \<Rightarrow> client_state \<Rightarrow> (string + SessionData) \<times> client_state" where
  "createSession response now st =
     (let st1 = st\<lparr>issuer_calls := issuer_calls st + 1\<rparr> in
      case response of
        InvokeError msg \<Rightarrow> (Inl msg, st1)
      | InvokeData None \<Rightarrow> (Inl ''Invalid session response'', st1)
      | InvokeData (Some d) \<Rightarrow>
          if d_success d \<and> d_token d \<noteq> [] \<and> d_sessionId d \<noteq> [] then
            (let sessionData = \<lparr>sd_sessionId = d_sessionId d, sd_token = d_token d,
                                sd_expiresAt = now + d_expiresIn d * 1000\<rparr>
             in (Inr sessionData,
                 st1\<lparr>sessionStorage := Some sessionData, sessionDataRef := Some sessionData\<rparr>))
          else (Inl ''Invalid session response'', st1))"

text \<open>
  \<open>ensureValidSession\<close>, with the reading of \<open>Date.now()\<close> for the freshness test, the
  reading taken inside \<open>createSession\<close>, and the issuer's answer should it be asked.
\<close>

definition ensureValidSession ::
  "invoke_result \<Rightarrow> nat \<Rightarrow> nat \<Rightarrow> client_state \<Rightarrow> string option \<times> client_state" where
  "ensureValidSession response now now' st =
     (case sessionDataRef st of
        Some currentSession \<Rightarrow>
          if sd_expiresAt currentSession > now + EXPIRY_BUFFER_MS
            then (Some (sd_token currentSession), st)
          else
            (let st1 = st\<lparr>sessionStorage := None, sessionToken := None,
                          sessionIdState := None, sessionDataRef := None,
                          initializingRef := False\<rparr>
             in case createSession response now' st1 of
                  (Inr newSession, st2) \<Rightarrow>
                    (Some (sd_token newSession),
                     st2\<lparr>sessionToken := Some (sd_token newSession),
                         sessionIdState := Some (sd_sessionId newSession),
                         sessionDataRef := Some newSession\<rparr>)
                | (Inl err, st2) \<Rightarrow> (None, st2))
      | None \<Rightarrow>
          (let st1 = st\<lparr>sessionStorage := None, sessionToken := None,
                        sessionIdState := None, sessionDataRef := None,
                        initializingRef := False\<rparr>
           in case createSession response now' st1 of
                (Inr newSession, st2) \<Rightarrow>
                  (Some (sd_token newSession),
                   st2\<lparr>sessionToken := Some (sd_token newSession),
                       sessionIdState := Some (sd_sessionId newSession),
                       sessionDataRef := Some newSession\<rparr>)
              | (Inl err, st2) \<Rightarrow> (None, st2)))"

section \<open>Properties of the rate limiter\<close>

lemma retained_filter:
  "retained W now m ip = filter (\<lambda>t. int now - int t < int W) (held m ip)"
proof -
  have "(\<lambda>t. int now - int W < int t) = (\<lambda>t. int now - int t < int W)"
    by (rule ext) arith
  then show ?thesis by (simp add: retained_def)
qed

lemma checkRateLimit_session_window:
  "checkRateLimit_session =
     window_check SESSION_RATE_LIMIT_WINDOW_MS MAX_SESSIONS_PER_WINDOW"
  by (intro ext)
     (simp add: checkRateLimit_session_def window_check_def retained_filter held_def Let_def)

lemma checkRateLimit_api_window:
  "checkRateLimit_api = window_check RATE_LIMIT_WINDOW_MS MAX_REQUESTS_PER_WINDOW"
  by (intro ext)
     (simp add: checkRateLimit_api_def window_check_def retained_filter held_def Let_def)

lemma checkRateLimit_save_product_window:
  "checkRateLimit_save_product =
     window_check RATE_LIMIT_WINDOW_MS_save_product MAX_REQUESTS_PER_WINDOW_save_product"
  by (intro ext)
     (simp add: checkRateLimit_save_product_def window_check_def retained_filter held_def Let_def)

lemma retained_later:
  assumes "t \<le> u"
  shows "filter (\<lambda>x. int u - int W < int x) (filter (\<lambda>x. int t - int W < int x) xs)
           = filter (\<lambda>x. int u - int W < int x) xs"
proof -
  have "\<And>x. (int t - int W < int x \<and> int u - int W < int x) = (int u - int W < int x)"
    using assms by auto
  then show ?thesis by simp
qed

text \<open>
  Every accepted call at a time \<open>a \<le> u\<close> that is still inside the window at \<open>u\<close> adds
  one timestamp that the window at \<open>u\<close> retains, and prunes none that \<open>u\<close> retains.
\<close>

lemma accepted_calls_retained:
  assumes "rl_calls (window_check W N) ts ip m0 = (bs, mf)"
    and "list_all (\<lambda>b. b) bs"
    and "\<forall>x \<in> set ts. x \<le> u \<and> int u - int W < int x"
    and "k \<le> length (retained W u m0 ip)"
  shows "k + length ts \<le> length (retained W u mf ip)"
  using assms
proof (induction ts arbitrary: bs m0 k)
  case Nil
  then show ?case by simp
next
  case (Cons a as)
  obtain b' ma where fa: "window_check W N a ip m0 = (b', ma)" by force
  obtain bs' mb where ra: "rl_calls (window_check W N) as ip ma = (bs', mb)" by force
  from Cons.prems(1) fa ra have e1: "bs = b' # bs'" and e2: "mf = mb" by auto
  from Cons.prems(2) e1 have b': "b'" and all': "list_all (\<lambda>b. b) bs'" by auto
  from fa b' have ma: "ma = m0(ip \<mapsto> retained W a m0 ip @ [a])"
    by (auto simp: window_check_def split: if_splits)
  from Cons.prems(3) have au: "a \<le> u" and aw: "int u - int W < int a" by auto
  have "retained W u ma ip = retained W u m0 ip @ [a]"
    using ma aw retained_later [OF au, of W "held m0 ip"]
    by (simp add: retained_def held_def)
  then have "Suc k \<le> length (retained W u ma ip)" using Cons.prems(4) by simp
  moreover have "rl_calls (window_check W N) as ip ma = (bs', mf)" using ra e2 by simp
  moreover have "\<forall>x \<in> set as. x \<le> u \<and> int u - int W < int x" using Cons.prems(3) by simp
  ultimately have "Suc k + length as \<le> length (retained W u mf ip)"
    using Cons.IH all' by blast
  then show ?case by simp
qed

text \<open>A key with fewer than \<open>N\<close> retained timestamps is accepted; calls on a fresh key are.\<close>

lemma fresh_calls_accepted:
  assumes "length (held m0 ip) + length ts \<le> N"
  shows "list_all (\<lambda>b. b) (fst (rl_calls (window_check W N) ts ip m0)) \<and>
         length (held (snd (rl_calls (window_check W N) ts ip m0)) ip)
           \<le> length (held m0 ip) + length ts"
  using assms
proof (induction ts arbitrary: m0)
  case Nil
  then show ?case by simp
next
  case (Cons a as)
  have le: "length (retained W a m0 ip) \<le> length (held m0 ip)"
    by (simp add: retained_def)
  with Cons.prems have lt: "length (retained W a m0 ip) < N" by simp
  define ma where "ma = m0(ip \<mapsto> retained W a m0 ip @ [a])"
  from lt have fa: "window_check W N a ip m0 = (True, ma)"
    by (simp add: window_check_def ma_def)
  have hl: "length (held ma ip) \<le> Suc (length (held m0 ip))"
    using le by (simp add: ma_def held_def)
  with Cons.prems have "length (held ma ip) + length as \<le> N" by simp
  from Cons.IH [OF this] fa hl show ?case
    by (auto split: prod.splits)
qed

text \<open>
  Claim C6 as stated fails on the limit of the business endpoints: the limit is 20 in
  analyze-menu and in the menu-saving endpoint, but 30 in save-product. With 20
  timestamps retained for the key, the limiter of save-product accepts the call and
  records it.
\<close>

theorem rate_limiter_business_limit_counterexample:
  "MAX_REQUESTS_PER_WINDOW_save_product = 30 \<and>
   filter (\<lambda>t. int 21 - int RATE_LIMIT_WINDOW_MS_save_product < int t)
     [1, 2, 3, 4, 5, 6, 7, 8, 9, 10, 11, 12, 13, 14, 15, 16, 17, 18, 19, 20]
     = [1, 2, 3, 4, 5, 6, 7, 8, 9, 10, 11, 12, 13, 14, 15, 16, 17, 18, 19, 20] \<and>
   checkRateLimit_save_product 21 ''10.0.0.1''
       [''10.0.0.1'' \<mapsto> [1, 2, 3, 4, 5, 6, 7, 8, 9, 10, 11, 12, 13, 14, 15, 16, 17, 18, 19, 20]]
     = (True,
        [''10.0.0.1'' \<mapsto>
           [1, 2, 3, 4, 5, 6, 7, 8, 9, 10, 11, 12, 13, 14, 15, 16, 17, 18, 19, 20, 21]])"
  by (simp add: checkRateLimit_save_product_def RATE_LIMIT_WINDOW_MS_save_product_def
        MAX_REQUESTS_PER_WINDOW_save_product_def)

text \<open>
  Claim C6, amended. For each limiter of the repository (create-session: 10 per hour;
  analyze-menu and the menu-saving endpoint: 20 per hour; save-product: 30 per hour) a
  call keeps, of the timestamps held for the key, exactly those strictly newer than
  \<open>now - windowMs\<close>. If at least \<open>maxPerWindow\<close> of them remain it answers false and
  leaves the map as it was; otherwise it answers true and stores the retained timestamps
  followed by \<open>now\<close>. Hence after \<open>maxPerWindow\<close> accepted calls that are all still inside
  the window at \<open>now\<close> the next call is refused (and on a key with no entry the first
  \<open>maxPerWindow\<close> calls are all accepted), while a call at which every held timestamp has
  aged out of the window is accepted.
\<close>

theorem rate_limiter_sliding_window:
  assumes inst:
    "(f = checkRateLimit_session \<and> W = SESSION_RATE_LIMIT_WINDOW_MS
        \<and> N = MAX_SESSIONS_PER_WINDOW \<and> N = 10) \<or>
     (f = checkRateLimit_api \<and> W = RATE_LIMIT_WINDOW_MS
        \<and> N = MAX_REQUESTS_PER_WINDOW \<and> N = 20) \<or>
     (f = checkRateLimit_save_product \<and> W = RATE_LIMIT_WINDOW_MS_save_product
        \<and> N = MAX_REQUESTS_PER_WINDOW_save_product \<and> N = 30)"
  shows
    "(let recent = filter (\<lambda>t. int now - int W < int t) (held m ip)
      in f now ip m = (if N \<le> length recent then (False, m)
                       else (True, m(ip \<mapsto> recent @ [now])))) \<and>
     (length ts = N \<and> (\<forall>t \<in> set ts. t \<le> now \<and> int now - int W < int t) \<and>
        list_all (\<lambda>b. b) (fst (rl_calls f ts ip m))
      \<longrightarrow> f now ip (snd (rl_calls f ts ip m)) = (False, snd (rl_calls f ts ip m))) \<and>
     (m ip = None \<and> length ts = N \<longrightarrow> list_all (\<lambda>b. b) (fst (rl_calls f ts ip m))) \<and>
     ((\<forall>t \<in> set (held m ip). int W \<le> int now - int t) \<longrightarrow> fst (f now ip m))"
proof -
  from inst have f: "f = window_check W N" and N: "0 < N"
    by (auto simp: checkRateLimit_session_window checkRateLimit_api_window
          checkRateLimit_save_product_window)
  have p1: "let recent = filter (\<lambda>t. int now - int W < int t) (held m ip)
      in f now ip m = (if N \<le> length recent then (False, m)
                       else (True, m(ip \<mapsto> recent @ [now])))"
    by (simp add: f window_check_def retained_def Let_def)
  have p2: "f now ip (snd (rl_calls f ts ip m)) = (False, snd (rl_calls f ts ip m))"
    if len: "length ts = N"
      and win: "\<forall>t \<in> set ts. t \<le> now \<and> int now - int W < int t"
      and acc: "list_all (\<lambda>b. b) (fst (rl_calls f ts ip m))"
  proof -
    obtain bs mf where r: "rl_calls (window_check W N) ts ip m = (bs, mf)" by force
    with acc f have "list_all (\<lambda>b. b) bs" by simp
    from accepted_calls_retained [OF r this win, of 0] len
    have "N \<le> length (retained W now mf ip)" by simp
    with r f show ?thesis by (simp add: window_check_def)
  qed
  have p3: "list_all (\<lambda>b. b) (fst (rl_calls f ts ip m))"
    if "m ip = None" and "length ts = N"
  proof -
    from that have "length (held m ip) + length ts \<le> N" by (simp add: held_def)
    from fresh_calls_accepted [OF this] f show ?thesis by simp
  qed
  have p4: "fst (f now ip m)" if old: "\<forall>t \<in> set (held m ip). int W \<le> int now - int t"
  proof -
    have "filter (\<lambda>t. int now - int W < int t) (held m ip) = []"
      unfolding filter_empty_conv using old by auto
    then have "retained W now m ip = []" by (simp add: retained_def)
    with N show ?thesis by (simp add: f window_check_def)
  qed
  from p1 p2 p3 p4 show ?thesis by blast
qed

theorem rate_limiter_sliding_window_witness:
  "(let recent = filter (\<lambda>t. int 5000000 - int SESSION_RATE_LIMIT_WINDOW_MS < int t)
                  (held [''10.0.0.1'' \<mapsto> [1000, 2000000]] ''10.0.0.1'')
    in checkRateLimit_session 5000000 ''10.0.0.1'' [''10.0.0.1'' \<mapsto> [1000, 2000000]] =
         (True, [''10.0.0.1'' \<mapsto> recent @ [5000000]])) \<and>
   checkRateLimit_session 11 ''10.0.0.1''
       (snd (rl_calls checkRateLimit_session [1, 2, 3, 4, 5, 6, 7, 8, 9, 10] ''10.0.0.1'' Map.empty))
     = (False,
        snd (rl_calls checkRateLimit_session [1, 2, 3, 4, 5, 6, 7, 8, 9, 10] ''10.0.0.1'' Map.empty)) \<and>
   list_all (\<lambda>b. b)
     (fst (rl_calls checkRateLimit_session [1, 2, 3, 4, 5, 6, 7, 8, 9, 10] ''10.0.0.1'' Map.empty)) \<and>
   fst (checkRateLimit_session 3601000 ''10.0.0.1''
          [''10.0.0.1'' \<mapsto> [1, 2, 3, 4, 5, 6, 7, 8, 9, 10]])"
proof -
  let ?ts = "[1, 2, 3, 4, 5, 6, 7, 8, 9, 10] :: nat list"
  have i: "(checkRateLimit_session = checkRateLimit_session
              \<and> SESSION_RATE_LIMIT_WINDOW_MS = SESSION_RATE_LIMIT_WINDOW_MS
              \<and> MAX_SESSIONS_PER_WINDOW = MAX_SESSIONS_PER_WINDOW \<and> MAX_SESSIONS_PER_WINDOW = 10) \<or>
           (checkRateLimit_session = checkRateLimit_api
              \<and> SESSION_RATE_LIMIT_WINDOW_MS = RATE_LIMIT_WINDOW_MS
              \<and> MAX_SESSIONS_PER_WINDOW = MAX_REQUESTS_PER_WINDOW \<and> MAX_SESSIONS_PER_WINDOW = 20) \<or>
           (checkRateLimit_session = checkRateLimit_save_product
              \<and> SESSION_RATE_LIMIT_WINDOW_MS = RATE_LIMIT_WINDOW_MS_save_product
              \<and> MAX_SESSIONS_PER_WINDOW = MAX_REQUESTS_PER_WINDOW_save_product
              \<and> MAX_SESSIONS_PER_WINDOW = 30)"
    by (simp add: MAX_SESSIONS_PER_WINDOW_def)
  have len: "length ?ts = MAX_SESSIONS_PER_WINDOW" by (simp add: MAX_SESSIONS_PER_WINDOW_def)
  have acc: "list_all (\<lambda>b. b) (fst (rl_calls checkRateLimit_session ?ts ''10.0.0.1'' Map.empty))"
    using rate_limiter_sliding_window [OF i, of 0 Map.empty "''10.0.0.1''" ?ts] len by simp
  have win: "\<forall>t \<in> set ?ts. t \<le> 11 \<and> int 11 - int SESSION_RATE_LIMIT_WINDOW_MS < int t"
    by (simp add: SESSION_RATE_LIMIT_WINDOW_MS_def)
  have a: "checkRateLimit_session 11 ''10.0.0.1''
       (snd (rl_calls checkRateLimit_session ?ts ''10.0.0.1'' Map.empty))
     = (False, snd (rl_calls checkRateLimit_session ?ts ''10.0.0.1'' Map.empty))"
    using rate_limiter_sliding_window [OF i, of 11 Map.empty "''10.0.0.1''" ?ts] len win acc
    by blast
  have b: "let recent = filter (\<lambda>t. int 5000000 - int SESSION_RATE_LIMIT_WINDOW_MS < int t)
                  (held [''10.0.0.1'' \<mapsto> [1000, 2000000]] ''10.0.0.1'')
    in checkRateLimit_session 5000000 ''10.0.0.1'' [''10.0.0.1'' \<mapsto> [1000, 2000000]] =
         (True, [''10.0.0.1'' \<mapsto> recent @ [5000000]])"
    using rate_limiter_sliding_window
            [OF i, of 5000000 "[''10.0.0.1'' \<mapsto> [1000, 2000000]]" "''10.0.0.1''" "[]"]
    by (simp add: Let_def held_def SESSION_RATE_LIMIT_WINDOW_MS_def MAX_SESSIONS_PER_WINDOW_def)
  have c: "fst (checkRateLimit_session 3601000 ''10.0.0.1'' [''10.0.0.1'' \<mapsto> ?ts])"
    using rate_limiter_sliding_window
            [OF i, of 3601000 "[''10.0.0.1'' \<mapsto> ?ts]" "''10.0.0.1''" "[]"]
    by (simp add: held_def SESSION_RATE_LIMIT_WINDOW_MS_def MAX_SESSIONS_PER_WINDOW_def)
  from a b c acc show ?thesis by blast
qed

section \<open>The fuel of \<open>JSON_parse\<close> is enough\<close>

lemma skip_ws_length: "length (skip_ws cs) \<le> length cs"
  by (simp add: skip_ws_def length_dropWhile_le)

lemma parse_string_body_shorter:
  "parse_string_body cs = Some (s, t) \<Longrightarrow> length t < length cs"
proof (induction "length cs" arbitrary: cs s t rule: less_induct)
  case less
  show ?case
  proof (cases cs)
    case Nil
    with less.prems show ?thesis by simp
  next
    case (Cons c cs')
    show ?thesis
    proof (cases "c = dquote")
      case True
      with less.prems Cons have "t = cs'" by simp
      with Cons show ?thesis by simp
    next
      case nq: False
      show ?thesis
      proof (cases "c = backslash")
        case bs: True
        from less.prems Cons nq bs obtain e r where cs': "cs' = e # r" by (cases cs') auto
        show ?thesis
        proof (cases "e = CHR ''u''")
          case True
          from less.prems Cons nq bs cs' True obtain h1 h2 h3 h4 r' s' where
            r: "r = h1 # h2 # h3 # h4 # r'" and p: "parse_string_body r' = Some (s', t)"
            by (auto split: list.splits option.splits)
          have "length r' < length cs" by (simp add: Cons cs' r)
          from less.hyps [OF this p] show ?thesis by (simp add: Cons cs' r)
        next
          case False
          from less.prems Cons nq bs cs' False obtain s' where
            p: "parse_string_body r = Some (s', t)"
            by (auto split: option.splits)
          have "length r < length cs" by (simp add: Cons cs')
          from less.hyps [OF this p] show ?thesis by (simp add: Cons cs')
        qed
      next
        case False
        from less.prems Cons nq False obtain s' where
          p: "parse_string_body cs' = Some (s', t)"
          by (auto split: if_splits option.splits)
        have "length cs' < length cs" by (simp add: Cons)
        from less.hyps [OF this p] show ?thesis by (simp add: Cons)
      qed
    qed
  qed
qed

lemma parse_int_part_shorter: "parse_int_part cs = Some (n, r) \<Longrightarrow> length r < length cs"
proof -
  assume a: "parse_int_part cs = Some (n, r)"
  then obtain d r0 where cs: "cs = d # r0" and r: "r = r0 \<or> r = dropWhile is_digit r0"
    by (auto simp: parse_int_part_def split: list.splits if_splits)
  have "length (dropWhile is_digit r0) \<le> length r0" by (rule length_dropWhile_le)
  with cs r show ?thesis by auto
qed

lemma parse_frac_part_shorter: "parse_frac_part cs = Some (x, r) \<Longrightarrow> length r \<le> length cs"
proof -
  assume a: "parse_frac_part cs = Some (x, r)"
  then consider "r = cs" | d r0 where "cs = d # r0" "r = dropWhile is_digit r0"
    by (auto simp: parse_frac_part_def Let_def split: list.splits if_splits)
  then show ?thesis
  proof cases
    case 1
    then show ?thesis by simp
  next
    case 2
    have "length (dropWhile is_digit r0) \<le> length r0" by (rule length_dropWhile_le)
    with 2 show ?thesis by simp
  qed
qed

lemma parse_exp_part_shorter: "parse_exp_part cs = Some (x, r) \<Longrightarrow> length r \<le> length cs"
proof -
  assume a: "parse_exp_part cs = Some (x, r)"
  then consider "r = cs"
    | d r0 r1 where "cs = d # r0" "r1 = tl r0 \<or> r1 = r0" "r = dropWhile is_digit r1"
    by (auto simp: parse_exp_part_def Let_def split: list.splits if_splits)
  then show ?thesis
  proof cases
    case 1
    then show ?thesis by simp
  next
    case 2
    have "length (dropWhile is_digit r1) \<le> length r1" by (rule length_dropWhile_le)
    moreover have "length r1 \<le> length r0" using 2(2) by auto
    ultimately show ?thesis using 2 by simp
  qed
qed

lemma parse_number_shorter: "parse_number cs = Some (x, r) \<Longrightarrow> length r < length cs"
proof -
  assume a: "parse_number cs = Some (x, r)"
  define cs1 where "cs1 = (if cs \<noteq> [] \<and> hd cs = CHR ''-'' then tl cs else cs)"
  have l1: "length cs1 \<le> length cs" by (simp add: cs1_def)
  from a obtain ip r1 fp r2 ex where
    i: "parse_int_part cs1 = Some (ip, r1)" and f: "parse_frac_part r1 = Some (fp, r2)"
    and e: "parse_exp_part r2 = Some (ex, r)"
    by (auto simp: parse_number_def Let_def cs1_def split: option.splits)
  from parse_int_part_shorter [OF i] parse_frac_part_shorter [OF f] parse_exp_part_shorter [OF e] l1
  show ?thesis by linarith
qed

text \<open>What a successful call of each parser function did, whatever the fuel.\<close>

lemma parse_value_step:
  assumes "parse_value (Suc k) cs = Some (v, r)"
  shows "((\<forall>m. parse_value (Suc m) cs = Some (v, r)) \<and> length r < length cs) \<or>
         (\<exists>r0. length r0 < length cs \<and> parse_members k [] r0 = Some (v, r) \<and>
               (\<forall>m. parse_value (Suc m) cs = parse_members m [] r0)) \<or>
         (\<exists>r0. length r0 < length cs \<and> parse_elements k [] r0 = Some (v, r) \<and>
               (\<forall>m. parse_value (Suc m) cs = parse_elements m [] r0))"
proof -
  from assms obtain c r0 where sk: "skip_ws cs = c # r0"
    by (cases "skip_ws cs") auto
  have l0: "length r0 < length cs" using skip_ws_length [of cs] sk by simp
  have l1: "length (skip_ws r0) \<le> length r0" by (rule skip_ws_length)
  show ?thesis
  proof (cases "c = CHR ''{''")
    case True
    show ?thesis
    proof (cases "skip_ws r0 \<noteq> [] \<and> hd (skip_ws r0) = CHR ''}''")
      case True
      with \<open>c = CHR ''{''\<close> sk assms have "v = JObj []" "r = tl (skip_ws r0)" by auto
      moreover have "length (tl (skip_ws r0)) < length cs" using l0 l1 by simp
      ultimately show ?thesis using True \<open>c = CHR ''{''\<close> sk by auto
    next
      case False
      with \<open>c = CHR ''{''\<close> sk assms l0 show ?thesis by auto
    qed
  next
    case nb: False
    show ?thesis
    proof (cases "c = CHR ''[''")
      case True
      show ?thesis
      proof (cases "skip_ws r0 \<noteq> [] \<and> hd (skip_ws r0) = CHR '']''")
        case True
        with \<open>c = CHR ''[''\<close> nb sk assms have "v = JArr []" "r = tl (skip_ws r0)" by auto
        moreover have "length (tl (skip_ws r0)) < length cs" using l0 l1 by simp
        ultimately show ?thesis using True \<open>c = CHR ''[''\<close> nb sk by auto
      next
        case False
        with \<open>c = CHR ''[''\<close> nb sk assms l0 show ?thesis by auto
      qed
    next
      case na: False
      have ind: "parse_value (Suc m) cs = parse_value (Suc k) cs" for m
        using nb na sk by simp
      have "length r < length cs"
      proof (cases "c = dquote")
        case True
        with nb na sk assms obtain s where "parse_string_body r0 = Some (s, r)"
          by (auto split: option.splits)
        from parse_string_body_shorter [OF this] l0 show ?thesis by simp
      next
        case nq: False
        from nb na nq sk assms consider "r = drop 4 (c # r0)" | "r = drop 5 (c # r0)"
          | x where "parse_number (c # r0) = Some (x, r)"
          by (auto split: if_splits option.splits)
        then show ?thesis
        proof cases
          case 1
          with l0 show ?thesis by simp
        next
          case 2
          with l0 show ?thesis by simp
        next
          case 3
          from parse_number_shorter [OF 3] l0 show ?thesis by simp
        qed
      qed
      with ind assms show ?thesis by simp
    qed
  qed
qed

lemma parse_elements_step:
  assumes "parse_elements (Suc k) acc cs = Some (v, r)"
  shows "\<exists>v1 r1 d r2. parse_value k cs = Some (v1, r1) \<and> skip_ws r1 = d # r2 \<and>
           ((d = CHR '','' \<and> parse_elements k (acc @ [v1]) r2 = Some (v, r)) \<or>
            (d \<noteq> CHR '','' \<and> d = CHR '']'' \<and> v = JArr (acc @ [v1]) \<and> r = r2))"
  using assms by (auto split: option.splits list.splits if_splits)

lemma parse_elements_intro:
  assumes "parse_value m cs = Some (v1, r1)" and "skip_ws r1 = d # r2"
  shows "parse_elements (Suc m) acc cs =
           (if d = CHR '','' then parse_elements m (acc @ [v1]) r2
            else if d = CHR '']'' then Some (JArr (acc @ [v1]), r2) else None)"
  using assms by simp

lemma parse_members_step:
  assumes "parse_members (Suc k) acc cs = Some (v, r)"
  shows "\<exists>r0 key r1 r2 v1 r3 d r4.
           skip_ws cs = dquote # r0 \<and> parse_string_body r0 = Some (key, r1) \<and>
           skip_ws r1 = CHR '':'' # r2 \<and> parse_value k r2 = Some (v1, r3) \<and>
           skip_ws r3 = d # r4 \<and>
           ((d = CHR '','' \<and> parse_members k (obj_put key v1 acc) r4 = Some (v, r)) \<or>
            (d \<noteq> CHR '','' \<and> d = CHR ''}'' \<and> v = JObj (obj_put key v1 acc) \<and> r = r4))"
  using assms by (auto split: option.splits list.splits if_splits)

lemma parse_members_intro:
  assumes "skip_ws cs = dquote # r0" and "parse_string_body r0 = Some (key, r1)"
    and "skip_ws r1 = CHR '':'' # r2" and "parse_value m r2 = Some (v1, r3)"
    and "skip_ws r3 = d # r4"
  shows "parse_members (Suc m) acc cs =
           (if d = CHR '','' then parse_members m (obj_put key v1 acc) r4
            else if d = CHR ''}'' then Some (JObj (obj_put key v1 acc), r4) else None)"
  using assms by simp

lemma skip_ws_Cons_length: "skip_ws cs = d # r \<Longrightarrow> length r < length cs"
  using skip_ws_length [of cs] by simp

text \<open>
  A successful parse consumes input, and any fuel of at least the number of characters
  consumed gives the same result.
\<close>

lemma parse_fuel:
  "(\<forall>cs v r. parse_value k cs = Some (v, r) \<longrightarrow>
       length r < length cs \<and>
       (\<forall>m. length cs - length r \<le> m \<longrightarrow> parse_value m cs = Some (v, r))) \<and>
   (\<forall>acc cs v r. parse_elements k acc cs = Some (v, r) \<longrightarrow>
       length r < length cs \<and>
       (\<forall>m. length cs - length r \<le> m \<longrightarrow> parse_elements m acc cs = Some (v, r))) \<and>
   (\<forall>acc cs v r. parse_members k acc cs = Some (v, r) \<longrightarrow>
       length r < length cs \<and>
       (\<forall>m. length cs - length r \<le> m \<longrightarrow> parse_members m acc cs = Some (v, r)))"
proof (induction k)
  case 0
  show ?case by simp
next
  case (Suc k)
  from Suc have ihv: "\<And>cs v r. parse_value k cs = Some (v, r) \<Longrightarrow>
       length r < length cs \<and>
       (\<forall>m. length cs - length r \<le> m \<longrightarrow> parse_value m cs = Some (v, r))"
    and ihe: "\<And>acc cs v r. parse_elements k acc cs = Some (v, r) \<Longrightarrow>
       length r < length cs \<and>
       (\<forall>m. length cs - length r \<le> m \<longrightarrow> parse_elements m acc cs = Some (v, r))"
    and ihm: "\<And>acc cs v r. parse_members k acc cs = Some (v, r) \<Longrightarrow>
       length r < length cs \<and>
       (\<forall>m. length cs - length r \<le> m \<longrightarrow> parse_members m acc cs = Some (v, r))"
    by blast+
  have v: "length r < length cs \<and>
       (\<forall>m. length cs - length r \<le> m \<longrightarrow> parse_value m cs = Some (v, r))"
    if a: "parse_value (Suc k) cs = Some (v, r)" for cs v r
  proof -
    from parse_value_step [OF a] consider
        (plain) "\<forall>m. parse_value (Suc m) cs = Some (v, r)" "length r < length cs"
      | (obj) r0 where "length r0 < length cs" "parse_members k [] r0 = Some (v, r)"
          "\<forall>m. parse_value (Suc m) cs = parse_members m [] r0"
      | (arr) r0 where "length r0 < length cs" "parse_elements k [] r0 = Some (v, r)"
          "\<forall>m. parse_value (Suc m) cs = parse_elements m [] r0"
      by blast
    then show ?thesis
    proof cases
      case plain
      have "parse_value m cs = Some (v, r)" if "length cs - length r \<le> m" for m
      proof -
        from that plain(2) obtain m' where "m = Suc m'" by (cases m) auto
        with plain(1) show ?thesis by simp
      qed
      with plain(2) show ?thesis by blast
    next
      case obj
      note ih = ihm [OF obj(2)]
      note lr = conjunct1 [OF ih]
      have "parse_value m cs = Some (v, r)" if "length cs - length r \<le> m" for m
      proof -
        from that lr obj(1) obtain m' where m: "m = Suc m'" by (cases m) auto
        with that lr obj(1) have "length r0 - length r \<le> m'" by linarith
        with ih have "parse_members m' [] r0 = Some (v, r)" by blast
        with obj(3) m show ?thesis by simp
      qed
      moreover have "length r < length cs" using lr obj(1) by linarith
      ultimately show ?thesis by blast
    next
      case arr
      note ih = ihe [OF arr(2)]
      note lr = conjunct1 [OF ih]
      have "parse_value m cs = Some (v, r)" if "length cs - length r \<le> m" for m
      proof -
        from that lr arr(1) obtain m' where m: "m = Suc m'" by (cases m) auto
        with that lr arr(1) have "length r0 - length r \<le> m'" by linarith
        with ih have "parse_elements m' [] r0 = Some (v, r)" by blast
        with arr(3) m show ?thesis by simp
      qed
      moreover have "length r < length cs" using lr arr(1) by linarith
      ultimately show ?thesis by blast
    qed
  qed
  have e: "length r < length cs \<and>
       (\<forall>m. length cs - length r \<le> m \<longrightarrow> parse_elements m acc cs = Some (v, r))"
    if a: "parse_elements (Suc k) acc cs = Some (v, r)" for acc cs v r
  proof -
    from parse_elements_step [OF a] obtain v1 r1 d r2 where
      pv: "parse_value k cs = Some (v1, r1)" and sk: "skip_ws r1 = d # r2"
      and d: "(d = CHR '','' \<and> parse_elements k (acc @ [v1]) r2 = Some (v, r)) \<or>
              (d \<noteq> CHR '','' \<and> d = CHR '']'' \<and> v = JArr (acc @ [v1]) \<and> r = r2)"
      by blast
    note iv = ihv [OF pv]
    note lv = conjunct1 [OF iv]
    note l2 = skip_ws_Cons_length [OF sk]
    from d show ?thesis
    proof
      assume c: "d = CHR '','' \<and> parse_elements k (acc @ [v1]) r2 = Some (v, r)"
      note ie = ihe [OF conjunct2 [OF c]]
      note le = conjunct1 [OF ie]
      have "parse_elements m acc cs = Some (v, r)" if "length cs - length r \<le> m" for m
      proof -
        from that lv le l2 obtain m' where m: "m = Suc m'" by (cases m) auto
        from m that lv le l2 have "length cs - length r1 \<le> m'" "length r2 - length r \<le> m'"
          by linarith+
        with iv ie have "parse_value m' cs = Some (v1, r1)"
          "parse_elements m' (acc @ [v1]) r2 = Some (v, r)" by blast+
        with parse_elements_intro [OF _ sk, of m' cs v1 acc] c m show ?thesis by simp
      qed
      moreover have "length r < length cs" using lv le l2 by linarith
      ultimately show ?thesis by blast
    next
      assume c: "d \<noteq> CHR '','' \<and> d = CHR '']'' \<and> v = JArr (acc @ [v1]) \<and> r = r2"
      then have rr: "length r = length r2" by simp
      have "parse_elements m acc cs = Some (v, r)" if "length cs - length r \<le> m" for m
      proof -
        from that lv l2 rr obtain m' where m: "m = Suc m'" by (cases m) auto
        from m that lv l2 rr have "length cs - length r1 \<le> m'" by linarith
        with iv have "parse_value m' cs = Some (v1, r1)" by blast
        with parse_elements_intro [OF _ sk, of m' cs v1 acc] c m show ?thesis by simp
      qed
      moreover have "length r < length cs" using lv l2 rr by linarith
      ultimately show ?thesis by blast
    qed
  qed
  have m: "length r < length cs \<and>
       (\<forall>m. length cs - length r \<le> m \<longrightarrow> parse_members m acc cs = Some (v, r))"
    if a: "parse_members (Suc k) acc cs = Some (v, r)" for acc cs v r
  proof -
    from parse_members_step [OF a] obtain r0 key r1 r2 v1 r3 d r4 where
      s0: "skip_ws cs = dquote # r0" and ps: "parse_string_body r0 = Some (key, r1)"
      and s1: "skip_ws r1 = CHR '':'' # r2" and pv: "parse_value k r2 = Some (v1, r3)"
      and s3: "skip_ws r3 = d # r4"
      and d: "(d = CHR '','' \<and> parse_members k (obj_put key v1 acc) r4 = Some (v, r)) \<or>
              (d \<noteq> CHR '','' \<and> d = CHR ''}'' \<and> v = JObj (obj_put key v1 acc) \<and> r = r4)"
      by blast
    note iv = ihv [OF pv]
    note lv = conjunct1 [OF iv]
    note l0 = skip_ws_Cons_length [OF s0]
    note l1 = parse_string_body_shorter [OF ps]
    note l2 = skip_ws_Cons_length [OF s1]
    note l4 = skip_ws_Cons_length [OF s3]
    from d show ?thesis
    proof
      assume c: "d = CHR '','' \<and> parse_members k (obj_put key v1 acc) r4 = Some (v, r)"
      note im = ihm [OF conjunct2 [OF c]]
      note lm = conjunct1 [OF im]
      have "parse_members m acc cs = Some (v, r)" if "length cs - length r \<le> m" for m
      proof -
        from that lv lm l0 l1 l2 l4 obtain m' where m: "m = Suc m'" by (cases m) auto
        from m that lv lm l0 l1 l2 l4
        have "length r2 - length r3 \<le> m'" "length r4 - length r \<le> m'" by linarith+
        with iv im have "parse_value m' r2 = Some (v1, r3)"
          "parse_members m' (obj_put key v1 acc) r4 = Some (v, r)" by blast+
        with parse_members_intro [OF s0 ps s1 _ s3, of m' v1 acc] c m show ?thesis by simp
      qed
      moreover have "length r < length cs" using lv lm l0 l1 l2 l4 by linarith
      ultimately show ?thesis by blast
    next
      assume c: "d \<noteq> CHR '','' \<and> d = CHR ''}'' \<and> v = JObj (obj_put key v1 acc) \<and> r = r4"
      then have rr: "length r = length r4" by simp
      have "parse_members m acc cs = Some (v, r)" if "length cs - length r \<le> m" for m
      proof -
        from that lv l0 l1 l2 l4 rr obtain m' where m: "m = Suc m'" by (cases m) auto
        from m that lv l0 l1 l2 l4 rr have "length r2 - length r3 \<le> m'" by linarith
        with iv have "parse_value m' r2 = Some (v1, r3)" by blast
        with parse_members_intro [OF s0 ps s1 _ s3, of m' v1 acc] c m show ?thesis by simp
      qed
      moreover have "length r < length cs" using lv l0 l1 l2 l4 rr by linarith
      ultimately show ?thesis by blast
    qed
  qed
  from v e m show ?case by blast
qed

text \<open>
  So \<open>JSON_parse\<close> does not depend on its choice of fuel: it succeeds exactly when some
  fuel parses the whole text.
\<close>

lemma JSON_parse_fuel_independent:
  "JSON_parse s = Some v \<longleftrightarrow> (\<exists>n r. parse_value n s = Some (v, r) \<and> skip_ws r = [])"
proof
  assume "JSON_parse s = Some v"
  then obtain b where "parse_value (Suc (length s)) s = Some (v, b)" "skip_ws b = []"
    by (auto simp: JSON_parse_def simp del: parse_value.simps split: option.splits if_splits)
  then show "\<exists>n r. parse_value n s = Some (v, r) \<and> skip_ws r = []" by blast
next
  assume "\<exists>n r. parse_value n s = Some (v, r) \<and> skip_ws r = []"
  then obtain n r where p: "parse_value n s = Some (v, r)" and w: "skip_ws r = []" by blast
  from parse_fuel [of n] p have "parse_value (Suc (length s)) s = Some (v, r)"
    by (meson diff_le_self le_SucI)
  with w show "JSON_parse s = Some v" by (simp add: JSON_parse_def)
qed


section \<open>Some readings of \<open>JSON.parse\<close>\<close>

text \<open>
  A number literal is read as the nearest double, ties to the even significand:
  \<open>0.1\<close> is \<open>3602879701896397 / 2^55\<close>, and \<open>2^53 + 1\<close> is \<open>2^53\<close>.
\<close>

lemma double_of_examples:
  "double_of False (1 / 10) = Num (3602879701896397 / 2 ^ 55)"
  "double_of False 9007199254740993 = Num 9007199254740992"
  "double_of False 9007199254740995 = Num 9007199254740996"
  "double_of True 0 = NegZero"
  by code_simp+

lemma JSON_parse_number_examples:
  "JSON_parse ''1699999999999.99999'' = Some (JNum (Num 1700000000000))"
  "JSON_parse ''0.1'' = Some (JNum (Num (3602879701896397 / 2 ^ 55)))"
  "JSON_parse ''9007199254740993'' = Some (JNum (Num 9007199254740992))"
  "JSON_parse ''-0'' = Some (JNum NegZero)"
  by code_simp+

text \<open>
  The text \<open>{"b":1,"2":2,"a":3,"1":4,"b":5}\<close>: the second \<open>b\<close> replaces the value of the
  first, and the array indices come first.
\<close>

lemma JSON_parse_object_example:
  "JSON_parse (''{'' @ [dquote] @ ''b'' @ [dquote] @ '':1,'' @ [dquote] @ ''2'' @ [dquote] @ '':2,''
                 @ [dquote] @ ''a'' @ [dquote] @ '':3,'' @ [dquote] @ ''1'' @ [dquote] @ '':4,''
                 @ [dquote] @ ''b'' @ [dquote] @ '':5}'')
     = Some (JObj [(js_str ''1'', JNum (Num 4)), (js_str ''2'', JNum (Num 2)),
                   (js_str ''b'', JNum (Num 5)), (js_str ''a'', JNum (Num 3))])"
  by code_simp

text \<open>An object built by the parser has distinct keys.\<close>

lemma obj_insert_keys: "set (map fst (obj_insert k v ms)) = insert k (set (map fst ms))"
  by (induction ms) auto

lemma obj_put_replace_keys:
  "map fst (map (\<lambda>m. if fst m = k then (k, v) else m) ms) = map fst ms"
  by (induction ms) auto

lemma obj_put_keys: "set (map fst (obj_put k v ms)) = insert k (set (map fst ms))"
proof (cases "k \<in> set (map fst ms)")
  case True
  then have "obj_put k v ms = map (\<lambda>m. if fst m = k then (k, v) else m) ms"
    by (simp add: obj_put_def)
  then have "map fst (obj_put k v ms) = map fst ms"
    by (simp only: obj_put_replace_keys)
  with True show ?thesis by auto
next
  case False
  then have "obj_put k v ms = obj_insert k v ms" by (simp add: obj_put_def)
  then show ?thesis by (simp only: obj_insert_keys)
qed

lemma obj_insert_distinct:
  "k \<notin> set (map fst ms) \<Longrightarrow> distinct (map fst ms) \<Longrightarrow> distinct (map fst (obj_insert k v ms))"
proof (induction ms)
  case Nil
  then show ?case by simp
next
  case (Cons m ms)
  then show ?case using obj_insert_keys [of k v ms] by auto
qed

lemma obj_put_distinct:
  assumes "distinct (map fst ms)"
  shows "distinct (map fst (obj_put k v ms))"
proof (cases "k \<in> set (map fst ms)")
  case True
  then have "obj_put k v ms = map (\<lambda>m. if fst m = k then (k, v) else m) ms"
    by (simp add: obj_put_def)
  then have "map fst (obj_put k v ms) = map fst ms"
    by (simp only: obj_put_replace_keys)
  with assms show ?thesis by simp
next
  case False
  then have "obj_put k v ms = obj_insert k v ms" by (simp add: obj_put_def)
  with obj_insert_distinct [OF False assms, of v] show ?thesis by simp
qed

lemma obj_put_lookup: "map_of (obj_put k v ms) k = Some v"
proof (cases "k \<in> set (map fst ms)")
  case True
  then have "map_of (map (\<lambda>m. if fst m = k then (k, v) else m) ms) k = Some v"
    by (induction ms) auto
  with True show ?thesis by (simp add: obj_put_def)
next
  case False
  have "map_of (obj_insert k v ms) k = Some v"
    using False by (induction ms) auto
  with False show ?thesis by (simp add: obj_put_def)
qed


section \<open>Properties of the verifier\<close>

text \<open>
  For a token of two segments whose first segment decodes to a JSON text, the verifier
  is the chain of checks on the parsed value: expiry, origin, key, signature.
\<close>

lemma verify_unfold:
  assumes "token \<noteq> []" and "split_on CHR ''.'' token = [p, sg]"
    and "decode_base64url p = Some ps" and "JSON_parse ps = Some v"
  shows "verifySessionToken H secret now token ro =
     (case get_prop v ''exp'' of
        Inl e \<Rightarrow> rejected ''Token verification failed''
      | Inr expV \<Rightarrow>
          (case js_gt now expV of
             Inl e \<Rightarrow> rejected ''Token verification failed''
           | Inr expired \<Rightarrow>
               if expired then rejected ''Session expired''
               else if (case ro of None \<Rightarrow> False
                        | Some r \<Rightarrow> r \<noteq> [] \<and> get_prop v ''origin'' \<noteq> Inr (Some (JStr (js_str r))))
                 then rejected ''Origin mismatch''
               else (case getHmacKey secret of
                       Inl e \<Rightarrow> rejected ''Token verification failed''
                     | Inr hmacKey \<Rightarrow>
                         (case decode_base64url sg of
                            None \<Rightarrow> rejected ''Token verification failed''
                          | Some signature \<Rightarrow>
                              if H hmacKey (utf8_encode ps) = signature
                                then \<lparr>valid = True, error = None, payload = Some v\<rparr>
                              else rejected ''Invalid signature''))))"
  using assms
  by (simp add: verifySessionToken_def verifySessionToken_try_def Let_def
           split: sum.splits option.splits)

lemma js_gt_number:
  "js_gt now (Some (JNum d)) =
     Inr (case d of NaN \<Rightarrow> False | Num e \<Rightarrow> e < of_nat now | NegZero \<Rightarrow> 0 < now
          | PosInf \<Rightarrow> False | NegInf \<Rightarrow> True)"
  by (simp add: js_gt_def split: jsnum.splits)

lemma token_split_nonempty: "split_on CHR ''.'' token = [p, sg] \<Longrightarrow> token \<noteq> []"
  by auto

text \<open>
  Claim C3. Take any token of two segments whose payload segment decodes to a JSON value
  with a numeric \<open>exp\<close>; the number is the double that \<open>JSON.parse\<close> made of the literal.
  If \<open>now > exp\<close> (a finite \<open>exp\<close> below \<open>now\<close>, a zero \<open>exp\<close> of either sign at a positive
  \<open>now\<close>, or \<open>-Infinity\<close>) the verifier answers \<open>valid: false\<close> with \<open>Session expired\<close>,
  whatever the signature segment, the MAC function and the configured secret are: the
  comparison comes before the key is even fetched. If \<open>now \<le> exp\<close> (a finite \<open>exp\<close> not
  below \<open>now\<close>, or \<open>Infinity\<close>) the answer is never \<open>Session expired\<close>.
\<close>

theorem expiry_dominates_signature:
  assumes "split_on CHR ''.'' token = [p, sg]"
    and "decode_base64url p = Some ps"
    and "JSON_parse ps = Some v"
    and "get_prop v ''exp'' = Inr (Some (JNum d))"
  shows "(d = Num e \<and> e < of_nat now \<or> d = NegZero \<and> 0 < now \<or> d = NegInf \<longrightarrow>
            verifySessionToken H secret now token ro
              = \<lparr>valid = False, error = Some ''Session expired'', payload = None\<rparr>) \<and>
         (d = Num e \<and> of_nat now \<le> e \<or> d = NegZero \<and> now = 0 \<or> d = PosInf \<longrightarrow>
            error (verifySessionToken H secret now token ro) \<noteq> Some ''Session expired'')"
proof -
  note u = verify_unfold [OF token_split_nonempty [OF assms(1)] assms(1,2,3), of H secret now ro]
  have a: "verifySessionToken H secret now token ro
              = \<lparr>valid = False, error = Some ''Session expired'', payload = None\<rparr>"
    if "d = Num e \<and> e < of_nat now \<or> d = NegZero \<and> 0 < now \<or> d = NegInf"
    using that by (auto simp: u assms(4) js_gt_number rejected_def)
  have b: "error (verifySessionToken H secret now token ro) \<noteq> Some ''Session expired''"
    if "d = Num e \<and> of_nat now \<le> e \<or> d = NegZero \<and> now = 0 \<or> d = PosInf"
  proof -
    from that have "js_gt now (Some (JNum d)) = Inr False"
      by (auto simp: js_gt_number)
    then show ?thesis
      by (simp add: u assms(4) rejected_def split: sum.splits option.splits)
  qed
  from a b show ?thesis by blast
qed

text \<open>
  The payload of the token below is \<open>{"exp":1699999999999.99999}\<close>, which \<open>JSON.parse\<close>
  reads as \<open>1700000000000\<close>.
\<close>

theorem expiry_dominates_signature_witness:
  "verifySessionToken (\<lambda>k m. ''mac'') None 1700000000001
       ''eyJleHAiOjE2OTk5OTk5OTk5OTkuOTk5OTl9.!!'' (Some ''https://app.example'')
     = \<lparr>valid = False, error = Some ''Session expired'', payload = None\<rparr> \<and>
   error (verifySessionToken (\<lambda>k m. ''mac'') (Some ''s'') 1700000000000
            ''eyJleHAiOjE2OTk5OTk5OTk5OTkuOTk5OTl9.bWFj'' None)
     \<noteq> Some ''Session expired''"
proof -
  let ?ps = "''{'' @ [dquote] @ ''exp'' @ [dquote] @ '':1699999999999.99999}''"
  let ?v = "JObj [(js_str ''exp'', JNum (Num 1700000000000))]"
  have d: "decode_base64url ''eyJleHAiOjE2OTk5OTk5OTk5OTkuOTk5OTl9'' = Some ?ps" by code_simp
  have j: "JSON_parse ?ps = Some ?v" by code_simp
  have g: "get_prop ?v ''exp'' = Inr (Some (JNum (Num 1700000000000)))"
    by (simp add: get_prop_def)
  have s1: "split_on CHR ''.'' ''eyJleHAiOjE2OTk5OTk5OTk5OTkuOTk5OTl9.!!''
              = [''eyJleHAiOjE2OTk5OTk5OTk5OTkuOTk5OTl9'', ''!!'']" by simp
  have s2: "split_on CHR ''.'' ''eyJleHAiOjE2OTk5OTk5OTk5OTkuOTk5OTl9.bWFj''
              = [''eyJleHAiOjE2OTk5OTk5OTk5OTkuOTk5OTl9'', ''bWFj'']" by simp
  from expiry_dominates_signature
         [OF s1 d j g, of 1700000000000 1700000000001 "\<lambda>k m. ''mac''" None
            "Some ''https://app.example''"]
       expiry_dominates_signature
         [OF s2 d j g, of 1700000000000 1700000000000 "\<lambda>k m. ''mac''" "Some ''s''" None]
  show ?thesis by simp
qed

text \<open>
  Claim C4 as stated fails: the expiry comparison precedes the origin comparison, so an
  expired token presented with a foreign origin is reported as expired.
  The payload of the token below is \<open>{"origin":"https://app.example","exp":0}\<close>.
\<close>

theorem origin_binding_counterexample:
  "decode_base64url ''eyJvcmlnaW4iOiJodHRwczovL2FwcC5leGFtcGxlIiwiZXhwIjowfQ''
     = Some (''{'' @ [dquote] @ ''origin'' @ [dquote] @ '':'' @ [dquote]
             @ ''https://app.example'' @ [dquote] @ '','' @ [dquote] @ ''exp'' @ [dquote] @ '':0}'') \<and>
   verifySessionToken (\<lambda>k m. ''mac'') (Some ''s'') 1
       ''eyJvcmlnaW4iOiJodHRwczovL2FwcC5leGFtcGxlIiwiZXhwIjowfQ.bWFj''
       (Some ''https://evil.example'')
     = \<lparr>valid = False, error = Some ''Session expired'', payload = None\<rparr>"
  by code_simp

text \<open>
  Claim C4, amended. Take any token of two segments whose payload segment decodes to a
  JSON value that passes the expiry comparison (\<open>now > payload.exp\<close> is false). For every
  non-empty \<open>requestOrigin\<close> that is not the payload's \<open>origin\<close> string, the verifier
  answers \<open>valid: false\<close> with \<open>Origin mismatch\<close>, whatever the signature segment is.
\<close>

theorem origin_binding:
  assumes "split_on CHR ''.'' token = [p, sg]"
    and "decode_base64url p = Some ps"
    and "JSON_parse ps = Some v"
    and "get_prop v ''exp'' = Inr x"
    and "js_gt now x = Inr False"
    and "requestOrigin \<noteq> []"
    and "get_prop v ''origin'' \<noteq> Inr (Some (JStr (js_str requestOrigin)))"
  shows "verifySessionToken H secret now token (Some requestOrigin)
           = \<lparr>valid = False, error = Some ''Origin mismatch'', payload = None\<rparr>"
proof -
  note u = verify_unfold [OF token_split_nonempty [OF assms(1)] assms(1,2,3),
                          of H secret now "Some requestOrigin"]
  show ?thesis
    by (simp add: u assms(4,5,6,7) rejected_def)
qed

theorem origin_binding_witness:
  "verifySessionToken (\<lambda>k m. ''mac'') (Some ''s'') 0
       ''eyJvcmlnaW4iOiJodHRwczovL2FwcC5leGFtcGxlIiwiZXhwIjowfQ.bWFj''
       (Some ''https://evil.example'')
     = \<lparr>valid = False, error = Some ''Origin mismatch'', payload = None\<rparr>"
proof -
  let ?ps = "''{'' @ [dquote] @ ''origin'' @ [dquote] @ '':'' @ [dquote]
             @ ''https://app.example'' @ [dquote] @ '','' @ [dquote] @ ''exp'' @ [dquote] @ '':0}''"
  let ?v = "JObj [(js_str ''origin'', JStr (js_str ''https://app.example'')),
                  (js_str ''exp'', JNum (Num 0))]"
  have s: "split_on CHR ''.'' ''eyJvcmlnaW4iOiJodHRwczovL2FwcC5leGFtcGxlIiwiZXhwIjowfQ.bWFj''
             = [''eyJvcmlnaW4iOiJodHRwczovL2FwcC5leGFtcGxlIiwiZXhwIjowfQ'', ''bWFj'']" by simp
  have d: "decode_base64url ''eyJvcmlnaW4iOiJodHRwczovL2FwcC5leGFtcGxlIiwiZXhwIjowfQ'' = Some ?ps"
    by code_simp
  have j: "JSON_parse ?ps = Some ?v" by code_simp
  have g: "get_prop ?v ''exp'' = Inr (Some (JNum (Num 0)))" by (simp add: get_prop_def js_str_def)
  have c: "js_gt 0 (Some (JNum (Num 0))) = Inr False" by (simp add: js_gt_def)
  have n: "''https://evil.example'' \<noteq> []" by simp
  have o: "get_prop ?v ''origin'' \<noteq> Inr (Some (JStr (js_str ''https://evil.example'')))"
    by (simp add: get_prop_def js_str_def)
  from origin_binding [OF s d j g c n o] show ?thesis .
qed

text \<open>
  Claim C9. With no origin supplied (\<open>null\<close>) the origin comparison is skipped: every
  two-segment token whose payload decodes to a JSON value with a numeric \<open>exp\<close> not in the
  past, and whose signature segment decodes to the MAC of the payload text under the
  configured secret, is accepted with that payload, whatever the payload's \<open>origin\<close> is.
\<close>

theorem no_origin_skips_binding:
  assumes "split_on CHR ''.'' token = [p, sg]"
    and "decode_base64url p = Some ps"
    and "JSON_parse ps = Some v"
    and "get_prop v ''exp'' = Inr (Some (JNum (Num e)))"
    and "of_nat now \<le> e"
    and "k \<noteq> []"
    and "decode_base64url sg = Some (H (utf8_encode k) (utf8_encode ps))"
  shows "verifySessionToken H (Some k) now token None
           = \<lparr>valid = True, error = None, payload = Some v\<rparr>"
proof -
  note u = verify_unfold [OF token_split_nonempty [OF assms(1)] assms(1,2,3),
                          of H "Some k" now None]
  from assms(5) have "\<not> e < of_nat now" by simp
  then show ?thesis
    by (simp add: u assms(4,6,7) js_gt_number getHmacKey_def)
qed

theorem no_origin_skips_binding_witness:
  "verifySessionToken (\<lambda>k m. ''mac'') (Some ''s'') 0
       ''eyJvcmlnaW4iOiJodHRwczovL2FwcC5leGFtcGxlIiwiZXhwIjowfQ.bWFj'' None
     = \<lparr>valid = True, error = None,
        payload = Some (JObj [(js_str ''origin'', JStr (js_str ''https://app.example'')),
                              (js_str ''exp'', JNum (Num 0))])\<rparr>"
proof -
  let ?ps = "''{'' @ [dquote] @ ''origin'' @ [dquote] @ '':'' @ [dquote]
             @ ''https://app.example'' @ [dquote] @ '','' @ [dquote] @ ''exp'' @ [dquote] @ '':0}''"
  let ?v = "JObj [(js_str ''origin'', JStr (js_str ''https://app.example'')),
                  (js_str ''exp'', JNum (Num 0))]"
  let ?H = "\<lambda>(k::string) (m::string). ''mac''"
  have s: "split_on CHR ''.'' ''eyJvcmlnaW4iOiJodHRwczovL2FwcC5leGFtcGxlIiwiZXhwIjowfQ.bWFj''
             = [''eyJvcmlnaW4iOiJodHRwczovL2FwcC5leGFtcGxlIiwiZXhwIjowfQ'', ''bWFj'']" by simp
  have d: "decode_base64url ''eyJvcmlnaW4iOiJodHRwczovL2FwcC5leGFtcGxlIiwiZXhwIjowfQ'' = Some ?ps"
    by code_simp
  have j: "JSON_parse ?ps = Some ?v" by code_simp
  have g: "get_prop ?v ''exp'' = Inr (Some (JNum (Num 0)))" by (simp add: get_prop_def js_str_def)
  have c: "of_nat (0::nat) \<le> (0::rat)" by simp
  have n: "''s'' \<noteq> []" by simp
  have m: "decode_base64url ''bWFj'' = Some (?H (utf8_encode ''s'') (utf8_encode ?ps))"
    by code_simp
  from no_origin_skips_binding [of _ _ _ _ _ _ _ _ ?H, OF s d j g c n m] show ?thesis .
qed

lemma decode_empty: "decode_base64url [] = Some []"
  by (simp add: decode_base64url_def atob_def strip_padding_def)

lemma parse_empty: "JSON_parse [] = None"
  by (simp add: JSON_parse_def skip_ws_def)

lemma verify_shapes:
  "verifySessionToken H secret now token ro \<in>
     {r. valid r \<and> error r = None \<and> payload r \<noteq> None} \<union>
     rejected ` {''No session token provided'', ''Invalid token format'',
                 ''Token verification failed'', ''Session expired'', ''Origin mismatch'',
                 ''Invalid signature''}"
  by (simp add: verifySessionToken_def verifySessionToken_try_def Let_def
           split: sum.splits option.splits)

text \<open>
  Claim C5, amended. The verifier always returns a result: either \<open>valid: true\<close> with a
  payload, or \<open>valid: false\<close> with one of its six messages; no exception leaves it. The
  empty token, a token that does not split at \<open>.\<close> into exactly two segments, and a token
  whose payload segment is empty, is not base64url or does not decode to a JSON text are
  rejected with a structural message (\<open>No session token provided\<close>, \<open>Invalid token
  format\<close>, \<open>Token verification failed\<close>). A token whose signature segment is empty or is
  not base64url is rejected as well (a MAC is never empty), with whichever message the
  earlier checks give.
\<close>

theorem verifier_malformed_rejected:
  "(let r = verifySessionToken H secret now token ro in
      (valid r \<and> error r = None \<and> payload r \<noteq> None) \<or>
      (\<not> valid r \<and> payload r = None \<and>
       error r \<in> {Some ''No session token provided'', Some ''Invalid token format'',
                  Some ''Token verification failed'', Some ''Session expired'',
                  Some ''Origin mismatch'', Some ''Invalid signature''})) \<and>
   (token = [] \<longrightarrow>
      verifySessionToken H secret now token ro
        = \<lparr>valid = False, error = Some ''No session token provided'', payload = None\<rparr>) \<and>
   (token \<noteq> [] \<and> length (split_on CHR ''.'' token) \<noteq> 2 \<longrightarrow>
      verifySessionToken H secret now token ro
        = \<lparr>valid = False, error = Some ''Invalid token format'', payload = None\<rparr>) \<and>
   (split_on CHR ''.'' token = [p, sg] \<and>
      (p = [] \<or> decode_base64url p = None \<or>
       (\<exists>ps. decode_base64url p = Some ps \<and> JSON_parse ps = None)) \<longrightarrow>
      verifySessionToken H secret now token ro
        = \<lparr>valid = False, error = Some ''Token verification failed'', payload = None\<rparr>) \<and>
   (split_on CHR ''.'' token = [p, sg] \<and> (sg = [] \<or> decode_base64url sg = None) \<and>
      (\<forall>k m. H k m \<noteq> []) \<longrightarrow>
      \<not> valid (verifySessionToken H secret now token ro))"
proof -
  have a: "let r = verifySessionToken H secret now token ro in
      (valid r \<and> error r = None \<and> payload r \<noteq> None) \<or>
      (\<not> valid r \<and> payload r = None \<and>
       error r \<in> {Some ''No session token provided'', Some ''Invalid token format'',
                  Some ''Token verification failed'', Some ''Session expired'',
                  Some ''Origin mismatch'', Some ''Invalid signature''})"
    using verify_shapes [of H secret now token ro]
    by (auto simp: rejected_def Let_def)
  have b: "token = [] \<longrightarrow> verifySessionToken H secret now token ro
        = \<lparr>valid = False, error = Some ''No session token provided'', payload = None\<rparr>"
    by (simp add: verifySessionToken_def rejected_def)
  have c: "token \<noteq> [] \<and> length (split_on CHR ''.'' token) \<noteq> 2 \<longrightarrow>
      verifySessionToken H secret now token ro
        = \<lparr>valid = False, error = Some ''Invalid token format'', payload = None\<rparr>"
    by (simp add: verifySessionToken_def verifySessionToken_try_def rejected_def Let_def)
  have d: "verifySessionToken H secret now token ro
        = \<lparr>valid = False, error = Some ''Token verification failed'', payload = None\<rparr>"
    if sp: "split_on CHR ''.'' token = [p, sg]"
      and bad: "p = [] \<or> decode_base64url p = None \<or>
               (\<exists>ps. decode_base64url p = Some ps \<and> JSON_parse ps = None)"
  proof -
    from bad have "decode_base64url p = None \<or>
               (\<exists>ps. decode_base64url p = Some ps \<and> JSON_parse ps = None)"
      using decode_empty parse_empty by auto
    with sp token_split_nonempty [OF sp] show ?thesis
      by (auto simp: verifySessionToken_def verifySessionToken_try_def rejected_def Let_def)
  qed
  have e: "\<not> valid (verifySessionToken H secret now token ro)"
    if sp: "split_on CHR ''.'' token = [p, sg]"
      and bad: "sg = [] \<or> decode_base64url sg = None"
      and mac: "\<forall>k m. H k m \<noteq> []"
  proof -
    from bad have "decode_base64url sg = None \<or> decode_base64url sg = Some []"
      using decode_empty by auto
    with sp token_split_nonempty [OF sp] mac show ?thesis
      by (auto simp: verifySessionToken_def verifySessionToken_try_def rejected_def Let_def
               split: sum.splits option.splits)
  qed
  from a b c d e show ?thesis by blast
qed

text \<open>
  Claim C5 as stated fails on the reason: the signature segment is decoded only after the
  expiry and origin checks, so a token whose signature segment is not base64url and whose
  payload \<open>{"exp":0}\<close> is expired is reported as expired.
\<close>

theorem verifier_structural_reason_counterexample:
  "split_on CHR ''.'' ''eyJleHAiOjB9.!!'' = [''eyJleHAiOjB9'', ''!!''] \<and>
   decode_base64url ''!!'' = None \<and>
   verifySessionToken (\<lambda>k m. ''mac'') (Some ''s'') 1 ''eyJleHAiOjB9.!!'' None
     = \<lparr>valid = False, error = Some ''Session expired'', payload = None\<rparr>"
  by code_simp


theorem verifier_malformed_rejected_witness:
  "verifySessionToken (\<lambda>k m. ''mac'') (Some ''s'') 0 [] None
     = \<lparr>valid = False, error = Some ''No session token provided'', payload = None\<rparr> \<and>
   verifySessionToken (\<lambda>k m. ''mac'') (Some ''s'') 0 ''a.b.c'' None
     = \<lparr>valid = False, error = Some ''Invalid token format'', payload = None\<rparr> \<and>
   verifySessionToken (\<lambda>k m. ''mac'') (Some ''s'') 0 ''.bWFj'' None
     = \<lparr>valid = False, error = Some ''Token verification failed'', payload = None\<rparr> \<and>
   \<not> valid (verifySessionToken (\<lambda>k m. ''mac'') (Some ''s'') 0 ''eyJleHAiOjV9.'' None)"
proof -
  let ?H = "\<lambda>(k::string) (m::string). ''mac''"
  have s3: "split_on CHR ''.'' ''.bWFj'' = [[], ''bWFj'']" by simp
  have s4: "split_on CHR ''.'' ''eyJleHAiOjV9.'' = [''eyJleHAiOjV9'', []]" by simp
  have l2: "''a.b.c'' \<noteq> [] \<and> length (split_on CHR ''.'' ''a.b.c'') \<noteq> 2" by simp
  have m: "\<forall>k m. ?H k m \<noteq> []" by simp
  from verifier_malformed_rejected [of ?H "Some ''s''" 0 "[]" None]
  have a: "verifySessionToken ?H (Some ''s'') 0 [] None
     = \<lparr>valid = False, error = Some ''No session token provided'', payload = None\<rparr>"
    by blast
  from verifier_malformed_rejected [of ?H "Some ''s''" 0 "''a.b.c''" None] l2
  have b: "verifySessionToken ?H (Some ''s'') 0 ''a.b.c'' None
     = \<lparr>valid = False, error = Some ''Invalid token format'', payload = None\<rparr>"
    by blast
  from verifier_malformed_rejected [of ?H "Some ''s''" 0 "''.bWFj''" None "[]" "''bWFj''"] s3
  have c: "verifySessionToken ?H (Some ''s'') 0 ''.bWFj'' None
     = \<lparr>valid = False, error = Some ''Token verification failed'', payload = None\<rparr>"
    by blast
  from verifier_malformed_rejected
         [of ?H "Some ''s''" 0 "''eyJleHAiOjV9.''" None "''eyJleHAiOjV9''" "[]"] s4 m
  have d: "\<not> valid (verifySessionToken ?H (Some ''s'') 0 ''eyJleHAiOjV9.'' None)"
    by blast
  from a b c d show ?thesis by blast
qed


section \<open>Issue and verify\<close>

subsection \<open>Base64url encoding and decoding are inverse\<close>

lemma sx1: "(of_char a :: nat) div 4 < 64"
  using nat_of_char_less_256 [of a] by arith

lemma sx2: "(of_char a :: nat) mod 4 * 16 + (of_char b :: nat) div 16 < 64"
  using nat_of_char_less_256 [of b] by arith

lemma sx2': "(of_char a :: nat) mod 4 * 16 < 64"
  by arith

lemma sx3: "(of_char b :: nat) mod 16 * 4 + (of_char c :: nat) div 64 < 64"
  using nat_of_char_less_256 [of c] by arith

lemma sx3': "(of_char b :: nat) mod 16 * 4 < 64"
  by arith

lemma sextets_lt: "x \<in> set (sextets s) \<Longrightarrow> x < 64"
proof (induction s arbitrary: x rule: sextets.induct)
  case 1
  then show ?case by simp
next
  case (2 a)
  then show ?case using sx1 [of a] sx2' [of a] by (auto simp: Let_def)
next
  case (3 a b)
  then show ?case using sx1 [of a] sx2 [of a b] sx3' [of b] by (auto simp: Let_def)
next
  case (4 a b c r)
  then show ?case using sx1 [of a] sx2 [of a b] sx3 [of b c] by (auto simp: Let_def)
qed

lemma h16: "q < 16 \<Longrightarrow> (m * 16 + q) div 16 = (m::nat) \<and> (m * 16 + q) mod 16 = q"
  by simp

lemma h4: "r < 4 \<Longrightarrow> (p * 4 + r) div 4 = (p::nat) \<and> (p * 4 + r) mod 4 = r"
  by simp

lemma unsextets_group:
  fixes x y z :: nat
  assumes "y < 256" and "z < 256"
  shows "x div 4 * 4 + (x mod 4 * 16 + y div 16) div 16 = x \<and>
         ((x mod 4 * 16 + y div 16) mod 16) * 16 + (y mod 16 * 4 + z div 64) div 4 = y \<and>
         ((y mod 16 * 4 + z div 64) mod 4) * 64 + z mod 64 = z"
proof -
  have q: "y div 16 < 16" and r: "z div 64 < 4" using assms by simp_all
  have "x div 4 * 4 + (x mod 4 * 16 + y div 16) div 16 = x"
    using h16 [OF q, of "x mod 4"] by simp
  moreover have "((x mod 4 * 16 + y div 16) mod 16) * 16 + (y mod 16 * 4 + z div 64) div 4 = y"
    using h16 [OF q, of "x mod 4"] h4 [OF r, of "y mod 16"] by simp
  moreover have "((y mod 16 * 4 + z div 64) mod 4) * 64 + z mod 64 = z"
    using h4 [OF r, of "y mod 16"] by simp
  ultimately show ?thesis by blast
qed

lemma unsextets_sextets: "unsextets (sextets s) = s"
proof (induction s rule: sextets.induct)
  case 1
  then show ?case by simp
next
  case (2 a)
  show ?case using unsextets_group [where y = 0 and z = 0 and x = "of_char a"] by (simp add: Let_def)
next
  case (3 a b)
  define x y where "x = (of_char a :: nat)" and "y = (of_char b :: nat)"
  have by': "y < 256" by (simp add: y_def)
  have z0: "(0::nat) < 256" by simp
  note g = unsextets_group [where x = x and y = y and z = 0, OF by' z0]
  have "char_of x = a" "char_of y = b" by (simp_all add: x_def y_def)
  with g show ?case by (simp add: Let_def x_def [symmetric] y_def [symmetric])
next
  case (4 a b c r)
  define x y z where "x = (of_char a :: nat)" and "y = (of_char b :: nat)"
    and "z = (of_char c :: nat)"
  have by': "y < 256" and bz: "z < 256" by (simp_all add: y_def z_def)
  note g = unsextets_group [where x = x and y = y and z = z, OF by' bz]
  have "char_of x = a" "char_of y = b" "char_of z = c" by (simp_all add: x_def y_def z_def)
  with g 4 show ?case
    by (simp add: Let_def x_def [symmetric] y_def [symmetric] z_def [symmetric])
qed

lemma sextets_length_mod: "length (sextets s) mod 4 \<in> {0, 2, 3}"
  by (induction s rule: sextets.induct) (auto simp: Let_def)

lemma b64_char_code:
  "n < 64 \<Longrightarrow> (of_char (b64_char n) :: nat) =
     (if n < 26 then 65 + n else if n < 52 then 71 + n else if n < 62 then n - 4
      else if n = 62 then 43 else 47)"
  by (simp add: b64_char_def)

lemma b64_index_char: "n < 64 \<Longrightarrow> b64_index (b64_char n) = Some n"
  by (auto simp: b64_index_def b64_char_code Let_def)

lemma char_neq_code: "(of_char c :: nat) \<noteq> of_char d \<Longrightarrow> c \<noteq> d"
  by auto

lemma b64_char_not_special:
  assumes "n < 64"
  shows "b64_char n \<noteq> CHR ''=''" and "b64_char n \<noteq> CHR ''-''" and "b64_char n \<noteq> CHR ''_''"
    and "b64_char n \<noteq> CHR ''.''" and "\<not> ascii_whitespace (b64_char n)"
proof -
  note k = b64_char_code [OF assms]
  show "b64_char n \<noteq> CHR ''=''" by (rule char_neq_code) (use assms in \<open>auto simp: k\<close>)
  show "b64_char n \<noteq> CHR ''-''" by (rule char_neq_code) (use assms in \<open>auto simp: k\<close>)
  show "b64_char n \<noteq> CHR ''_''" by (rule char_neq_code) (use assms in \<open>auto simp: k\<close>)
  show "b64_char n \<noteq> CHR ''.''" by (rule char_neq_code) (use assms in \<open>auto simp: k\<close>)
  have "b64_char n \<noteq> CHR 0x09" by (rule char_neq_code) (use assms in \<open>auto simp: k\<close>)
  moreover have "b64_char n \<noteq> CHR 0x0A" by (rule char_neq_code) (use assms in \<open>auto simp: k\<close>)
  moreover have "b64_char n \<noteq> CHR 0x0C" by (rule char_neq_code) (use assms in \<open>auto simp: k\<close>)
  moreover have "b64_char n \<noteq> CHR 0x0D" by (rule char_neq_code) (use assms in \<open>auto simp: k\<close>)
  moreover have "b64_char n \<noteq> CHR 0x20" by (rule char_neq_code) (use assms in \<open>auto simp: k\<close>)
  ultimately show "\<not> ascii_whitespace (b64_char n)" by (simp add: ascii_whitespace_def)
qed

lemma body_chars:
  assumes "c \<in> set (map b64_char (sextets s))"
  shows "c \<noteq> CHR ''=''" and "c \<noteq> CHR ''-''" and "c \<noteq> CHR ''_''" and "c \<noteq> CHR ''.''"
    and "\<not> ascii_whitespace c" and "b64_index c \<noteq> None"
proof -
  from assms obtain n where n: "n < 64" and c: "c = b64_char n"
    using sextets_lt by auto
  show "c \<noteq> CHR ''=''" "c \<noteq> CHR ''-''" "c \<noteq> CHR ''_''" "c \<noteq> CHR ''.''"
    "\<not> ascii_whitespace c"
    using b64_char_not_special [OF n] c by simp_all
  show "b64_index c \<noteq> None" using b64_index_char [OF n] c by simp
qed

lemma index_body: "map (\<lambda>c. the (b64_index c)) (map b64_char (sextets s)) = sextets s"
proof -
  have "\<And>x. x \<in> set (sextets s) \<Longrightarrow> the (b64_index (b64_char x)) = x"
    using sextets_lt b64_index_char by simp
  then show ?thesis by (simp add: map_idI)
qed

lemma strip_padding_body:
  assumes "\<forall>c \<in> set b. c \<noteq> CHR ''=''" and "k \<le> 2"
  shows "strip_padding (b @ replicate k CHR ''='') = b"
proof -
  have l: "b \<noteq> [] \<Longrightarrow> last b \<noteq> CHR ''=''" using assms(1) last_in_set by blast
  from assms(2) consider "k = 0" | "k = 1" | "k = 2" by linarith
  then show ?thesis
  proof cases
    case 1
    with l show ?thesis by (auto simp: strip_padding_def)
  next
    case 2
    with l show ?thesis by (cases "b = []") (auto simp: strip_padding_def)
  next
    case 3
    then have "replicate k CHR ''='' = [CHR ''='', CHR ''='']" by (simp add: numeral_2_eq_2)
    then show ?thesis by (simp add: strip_padding_def butlast_append)
  qed
qed

lemma pad_len: "(l::nat) mod 4 \<in> {0, 2, 3} \<Longrightarrow>
    (4 - l mod 4) mod 4 \<le> 2 \<and> (l + (4 - l mod 4) mod 4) mod 4 = 0"
  by (auto simp: mod_add_left_eq [symmetric, of l] simp del: mod_add_left_eq)

lemma atob_btoa: "atob (btoa s) = Some s"
proof -
  define b where "b = map b64_char (sextets s)"
  define k where "k = (4 - length b mod 4) mod 4"
  have lm: "length b mod 4 \<in> {0, 2, 3}" using sextets_length_mod [of s] by (simp add: b_def)
  note pl = pad_len [OF lm]
  have bt: "btoa s = b @ replicate k CHR ''=''" by (simp add: btoa_def b_def k_def Let_def)
  have nows: "filter (\<lambda>c. \<not> ascii_whitespace c) (b @ replicate k CHR ''='') = b @ replicate k CHR ''=''"
    using body_chars(5) [of _ s] by (auto simp: b_def ascii_whitespace_def filter_id_conv)
  have len0: "length (b @ replicate k CHR ''='') mod 4 = 0" using pl by (simp add: k_def)
  have ne: "\<forall>c \<in> set b. c \<noteq> CHR ''=''" using body_chars(1) [of _ s] by (auto simp: b_def)
  have sp: "strip_padding (b @ replicate k CHR ''='') = b"
    using strip_padding_body [OF ne] pl by (simp add: k_def)
  have l1: "length b mod 4 \<noteq> 1" using lm by auto
  have ix: "\<not> (\<exists>c \<in> set b. b64_index c = None)" using body_chars(6) [of _ s] by (auto simp: b_def)
  have "unsextets (map (\<lambda>c. the (b64_index c)) b) = s"
    unfolding b_def index_body by (rule unsextets_sextets)
  with nows len0 sp l1 ix show ?thesis
    by (simp add: atob_def bt Let_def)
qed

lemma dropWhile_replicate:
  assumes "P c" and "\<forall>x \<in> set xs. \<not> P x"
  shows "dropWhile P (replicate k c @ xs) = xs"
proof (induction k)
  case 0
  from assms(2) show ?case by (cases xs) auto
next
  case (Suc k)
  with assms(1) show ?case by simp
qed

lemma to_base64url_btoa:
  "to_base64url (btoa s) =
     map (\<lambda>c. if c = CHR ''/'' then CHR ''_'' else c)
       (map (\<lambda>c. if c = CHR ''+'' then CHR ''-'' else c) (map b64_char (sextets s)))"
proof -
  define b where "b = map b64_char (sextets s)"
  define ub where "ub = map (\<lambda>c. if c = CHR ''/'' then CHR ''_'' else c)
       (map (\<lambda>c. if c = CHR ''+'' then CHR ''-'' else c) b)"
  define k where "k = (4 - length b mod 4) mod 4"
  have bt: "btoa s = b @ replicate k CHR ''=''" by (simp add: btoa_def b_def k_def Let_def)
  have ne: "\<forall>c \<in> set b. c \<noteq> CHR ''=''" using body_chars(1) [of _ s] by (auto simp: b_def)
  then have une: "\<forall>c \<in> set (rev ub). \<not> c = CHR ''=''" by (auto simp: ub_def)
  have "map (\<lambda>c. if c = CHR ''/'' then CHR ''_'' else c)
       (map (\<lambda>c. if c = CHR ''+'' then CHR ''-'' else c) (btoa s)) = ub @ replicate k CHR ''=''"
    by (simp add: bt ub_def)
  then have "to_base64url (btoa s) = rev (dropWhile (\<lambda>c. c = CHR ''='') (replicate k CHR ''='' @ rev ub))"
    by (simp add: to_base64url_def)
  also have "\<dots> = ub"
    using dropWhile_replicate [of "\<lambda>c. c = CHR ''=''" "CHR ''=''" "rev ub" k] une by simp
  finally show ?thesis by (simp add: ub_def b_def)
qed

lemma to_base64url_no_dot: "CHR ''.'' \<notin> set (to_base64url (btoa s))"
  using body_chars(4) [of _ s] by (auto simp: to_base64url_btoa)

lemma decode_base64url_roundtrip: "decode_base64url (to_base64url (btoa s)) = Some s"
proof -
  define b where "b = map b64_char (sextets s)"
  have inv: "map (\<lambda>c. if c = CHR ''_'' then CHR ''/'' else c)
     (map (\<lambda>c. if c = CHR ''-'' then CHR ''+'' else c)
        (map (\<lambda>c. if c = CHR ''/'' then CHR ''_'' else c)
           (map (\<lambda>c. if c = CHR ''+'' then CHR ''-'' else c) b))) = b"
    using body_chars(2,3) [of _ s] by (auto simp: b_def intro!: map_idI)
  have "decode_base64url (to_base64url (btoa s)) =
          atob (b @ replicate ((4 - length b mod 4) mod 4) CHR ''='')"
    unfolding decode_base64url_def to_base64url_btoa b_def [symmetric] inv by simp
  also have "\<dots> = atob (btoa s)" by (simp add: btoa_def b_def Let_def)
  finally show ?thesis by (simp add: atob_btoa)
qed


subsection \<open>\<open>JSON.parse\<close> inverts \<open>JSON.stringify\<close> on payloads\<close>

lemma char_eq_code: "c = d \<longleftrightarrow> (of_char c :: nat) = of_char d"
  by simp

lemma dquote_code: "c = dquote \<longleftrightarrow> (of_char c :: nat) = 34"
proof -
  have h: "(of_char dquote :: nat) = 34" by (simp add: dquote_def)
  show ?thesis by (metis h of_char_eq_iff)
qed

lemma backslash_code: "c = backslash \<longleftrightarrow> (of_char c :: nat) = 92"
proof -
  have h: "(of_char backslash :: nat) = 92" by (simp add: backslash_def)
  show ?thesis by (metis h of_char_eq_iff)
qed

lemma hex_val_digit: "n < 16 \<Longrightarrow> hex_val (hex_digit n) = Some n"
  by (auto simp: hex_val_def hex_digit_def Let_def)

lemma dquote_neq [simp]: "dquote \<noteq> backslash" "backslash \<noteq> dquote"
  "dquote \<noteq> CHR ''u''" "backslash \<noteq> CHR ''u''"
  by (simp_all add: dquote_def backslash_def)

lemma unescape_simps:
  "unescape dquote = Some 34" "unescape backslash = Some 92"
  "unescape CHR ''b'' = Some 8" "unescape CHR ''t'' = Some 9" "unescape CHR ''n'' = Some 10"
  "unescape CHR ''f'' = Some 12" "unescape CHR ''r'' = Some 13"
  by (simp_all add: unescape_def dquote_def backslash_def)

lemma parse_escape:
  "parse_string_body (json_escape c @ rest) =
     (case parse_string_body rest of
        None \<Rightarrow> None
      | Some (s, t) \<Rightarrow> Some (of_char c # s, t))"
proof -
  define k where "k = (of_char c :: nat)"
  have k256: "k < 256" by (simp add: k_def)
  consider (b) "k = 8" | (t) "k = 9" | (n) "k = 10" | (f) "k = 12" | (r) "k = 13"
    | (q) "k = 34" | (bs) "k = 92"
    | (ctl) "k < 32" "k \<notin> {8, 9, 10, 12, 13}"
    | (plain) "32 \<le> k" "k \<noteq> 34" "k \<noteq> 92"
    by fastforce
  then show ?thesis
  proof cases
    case b
    then have "json_escape c = [backslash, CHR ''b'']" by (simp add: json_escape_def k_def)
    with b show ?thesis by (simp add: unescape_simps k_def split: option.splits)
  next
    case t
    then have "json_escape c = [backslash, CHR ''t'']" by (simp add: json_escape_def k_def)
    with t show ?thesis by (simp add: unescape_simps k_def split: option.splits)
  next
    case n
    then have "json_escape c = [backslash, CHR ''n'']" by (simp add: json_escape_def k_def)
    with n show ?thesis by (simp add: unescape_simps k_def split: option.splits)
  next
    case f
    then have "json_escape c = [backslash, CHR ''f'']" by (simp add: json_escape_def k_def)
    with f show ?thesis by (simp add: unescape_simps k_def split: option.splits)
  next
    case r
    then have "json_escape c = [backslash, CHR ''r'']" by (simp add: json_escape_def k_def)
    with r show ?thesis by (simp add: unescape_simps k_def split: option.splits)
  next
    case q
    then have "json_escape c = [backslash, dquote]"
      by (simp add: json_escape_def k_def dquote_code)
    with q show ?thesis by (simp add: unescape_simps k_def split: option.splits)
  next
    case bs
    then have "json_escape c = [backslash, backslash]"
      by (simp add: json_escape_def k_def dquote_code backslash_code)
    with bs show ?thesis by (simp add: unescape_simps k_def split: option.splits)
  next
    case ctl
    then have e: "json_escape c = [backslash, CHR ''u'', CHR ''0'', CHR ''0'',
                             hex_digit (k div 16), hex_digit (k mod 16)]"
      by (simp add: json_escape_def k_def dquote_code backslash_code Let_def)
    have u: "CHR ''u'' \<noteq> dquote" "CHR ''u'' \<noteq> backslash" by (simp_all add: dquote_def backslash_def)
    have h0: "hex_val CHR ''0'' = Some 0" by (simp add: hex_val_def)
    have "k div 16 < 16" using k256 by simp
    then have "hex4 CHR ''0'' CHR ''0'' (hex_digit (k div 16)) (hex_digit (k mod 16)) = Some k"
      by (simp add: hex4_def h0 hex_val_digit)
    with e show ?thesis by (simp add: k_def split: option.splits)
  next
    case plain
    then have "json_escape c = [c]"
      by (auto simp: json_escape_def k_def dquote_code backslash_code)
    with plain show ?thesis
      by (simp add: k_def dquote_code backslash_code split: option.splits)
  qed
qed

lemma parse_string_body_escaped:
  "parse_string_body (concat (map json_escape s) @ dquote # rest) = Some (js_str s, rest)"
proof (induction s)
  case Nil
  then show ?case by (simp add: js_str_def)
next
  case (Cons c s)
  have "parse_string_body (concat (map json_escape (c # s)) @ dquote # rest)
          = parse_string_body (json_escape c @ (concat (map json_escape s) @ dquote # rest))"
    by simp
  also have "\<dots> = Some (of_char c # js_str s, rest)"
    unfolding parse_escape Cons.IH by simp
  finally show ?case by (simp add: js_str_def)
qed

text \<open>An integer below \<open>2^53\<close> is a double: its literal is read as itself.\<close>

lemma bit_length_bound: "0 \<le> p \<Longrightarrow> p < 2 ^ k \<Longrightarrow> bit_length p \<le> k"
proof (induction k arbitrary: p)
  case 0
  then have "p = 0" by simp
  then show ?case by (simp add: bit_length.simps)
next
  case (Suc k)
  show ?case
  proof (cases "p \<le> 0")
    case True
    then show ?thesis by (simp add: bit_length.simps)
  next
    case False
    have "p div 2 < 2 ^ k" using Suc.prems by simp
    moreover have "0 \<le> p div 2" using Suc.prems by simp
    ultimately have "bit_length (p div 2) \<le> k" using Suc.IH by blast
    with False show ?thesis by (subst bit_length.simps) simp
  qed
qed

lemma bit_length_pos: "0 < p \<Longrightarrow> 0 < bit_length p"
  by (subst bit_length.simps) simp

lemma bit_length_one: "bit_length 1 = 1"
  by (simp add: bit_length.simps)

lemma round_half_even_int: "round_half_even (of_int z) = z"
  by (simp add: round_half_even_def)

lemma pow2_nonpos: "q \<le> 0 \<Longrightarrow> pow2 q = 1 / 2 ^ nat (- q)"
  by (auto simp: pow2_def)

lemma floor_log2_nat:
  assumes "0 < n" and "n < 2 ^ 53"
  shows "- 1 \<le> floor_log2 (of_nat n) \<and> floor_log2 (of_nat n) \<le> 52"
proof -
  have q: "quotient_of (of_nat n :: rat) = (int n, 1)"
    by (rule quotient_of_rat_of_nat)
  have "int n < 2 ^ 53" using assms(2) by (metis of_nat_less_numeral_power_cancel_iff)
  then have b: "bit_length (int n) \<le> 53" by (intro bit_length_bound) simp_all
  have p: "0 < bit_length (int n)" using assms(1) by (intro bit_length_pos) simp
  show ?thesis
    using b p by (simp add: floor_log2_def q bit_length_one Let_def)
qed

lemma double_of_nat:
  assumes "n < 2 ^ 53"
  shows "double_of False (of_nat n) = Num (of_nat n)"
proof (cases "n = 0")
  case True
  then show ?thesis by (simp add: double_of_def round_magnitude_def)
next
  case False
  define e where "e = floor_log2 (of_nat n)"
  from False assms floor_log2_nat [of n] have e: "- 1 \<le> e" "e \<le> 52" by (simp_all add: e_def)
  define j where "j = nat (52 - e)"
  have q: "max (e - 52) (- 1074) = e - 52" using e by simp
  have pw: "pow2 (e - 52) = 1 / 2 ^ j" using e by (simp add: pow2_nonpos j_def)
  have "(of_nat n :: rat) * 2 ^ j = of_int (int n * 2 ^ j)"
    by simp
  then have k: "round_half_even (of_nat n * 2 ^ j) = int n * 2 ^ j"
    by (simp only: round_half_even_int)
  have x: "\<not> (of_nat n :: rat) \<le> 0" using False by simp
  have r: "round_magnitude (of_nat n) = Some (of_nat n)"
    using e x by (simp add: round_magnitude_def Let_def e_def [symmetric] q k pw)
  show ?thesis using False by (simp add: double_of_def r)
qed

lemma is_digit_char_of: "(d::nat) < 10 \<Longrightarrow> is_digit (char_of (48 + d))"
  by (simp add: is_digit_def)

lemma digit_val_char_of: "(d::nat) < 10 \<Longrightarrow> digit_val (char_of (48 + d)) = int d"
  by (simp add: digit_val_def)

lemma dec_digits: "list_all is_digit (dec n)"
proof (induction n rule: dec.induct)
  case (1 n)
  show ?case
  proof (cases "n < 10")
    case True
    then show ?thesis by (subst dec.simps) (simp add: is_digit_char_of)
  next
    case False
    with 1 show ?thesis by (subst dec.simps) (simp add: is_digit_char_of)
  qed
qed

lemma dec_nonempty: "dec n \<noteq> []"
  by (subst dec.simps) simp

lemma digits_val_snoc: "digits_val (ds @ [c]) = digits_val ds * 10 + digit_val c"
  by (simp add: digits_val_def)

lemma digits_val_dec: "digits_val (dec n) = int n"
proof (induction n rule: dec.induct)
  case (1 n)
  show ?case
  proof (cases "n < 10")
    case True
    then show ?thesis
      by (subst dec.simps) (simp add: digits_val_def digit_val_char_of)
  next
    case False
    have "int (n div 10) * 10 + int (n mod 10) = int (n div 10 * 10 + n mod 10)"
      by (simp only: of_nat_add of_nat_mult of_nat_numeral)
    then have "int (n div 10) * 10 + int (n mod 10) = int n" by simp
    with 1 False show ?thesis
      by (subst dec.simps) (simp add: digits_val_snoc digit_val_char_of)
  qed
qed

lemma dec_hd_zero: "n \<noteq> 0 \<Longrightarrow> hd (dec n) \<noteq> CHR ''0''"
proof (induction n rule: dec.induct)
  case (1 n)
  show ?case
  proof (cases "n < 10")
    case True
    have "(of_char (char_of (48 + n)) :: nat) \<noteq> of_char CHR ''0''"
      using True 1(2) by simp
    then have "char_of (48 + n) \<noteq> CHR ''0''" by (rule char_neq_code)
    with True show ?thesis by (subst dec.simps) simp
  next
    case False
    then have "n div 10 \<noteq> 0" by simp
    from 1(1) [OF False this] False dec_nonempty [of "n div 10"] show ?thesis
      by (subst dec.simps) simp
  qed
qed

lemma takeWhile_digits:
  assumes "list_all is_digit ds" and "\<not> is_digit c"
  shows "takeWhile is_digit (ds @ c # rest) = ds" and "dropWhile is_digit (ds @ c # rest) = c # rest"
  using assms by (simp_all add: list_all_iff takeWhile_append2 dropWhile_append2)

lemma parse_int_part_dec:
  assumes "\<not> is_digit c"
  shows "parse_int_part (dec n @ c # rest) = Some (int n, c # rest)"
proof (cases "n = 0")
  case True
  have "char_of (48::nat) = CHR ''0''" by code_simp
  then have "dec 0 = [CHR ''0'']"
    by (subst dec.simps) simp
  with True show ?thesis by (simp add: parse_int_part_def)
next
  case False
  obtain d ds where d: "dec n = d # ds" using dec_nonempty [of n] by (cases "dec n") auto
  with dec_hd_zero [OF False] have d0: "d \<noteq> CHR ''0''" by simp
  from d dec_digits [of n] have dd: "is_digit d" by simp
  note tw = takeWhile_digits [OF dec_digits assms, of n rest]
  have "parse_int_part (d # ds @ c # rest) =
          Some (digits_val (takeWhile is_digit (d # ds @ c # rest)),
                dropWhile is_digit (d # ds @ c # rest))"
    using d0 dd by (simp add: parse_int_part_def)
  moreover have "digits_val (d # ds) = int n" using digits_val_dec [of n] d by simp
  ultimately show ?thesis using tw d by simp
qed

lemma digit_not_special:
  assumes "is_digit d"
  shows "d \<noteq> CHR ''{''" "d \<noteq> CHR ''[''" "d \<noteq> dquote" "d \<noteq> CHR ''t''" "d \<noteq> CHR ''f''"
    "d \<noteq> CHR ''n''" "d \<noteq> CHR ''-''" "\<not> json_ws d"
  using assms by (auto simp: is_digit_def dquote_def json_ws_def)

lemma sep_not_digit: "\<not> is_digit CHR '',''" "\<not> is_digit CHR ''}''"
  by (simp_all add: is_digit_def)

lemma parse_number_dec:
  assumes "c = CHR '','' \<or> c = CHR ''}''" and "n < 2 ^ 53"
  shows "parse_number (dec n @ c # rest) = Some (Num (of_nat n), c # rest)"
proof -
  obtain d ds where d: "dec n = d # ds" using dec_nonempty [of n] by (cases "dec n") auto
  from d dec_digits [of n] have dd: "is_digit d" by simp
  have nd: "\<not> is_digit c" using assms(1) sep_not_digit by auto
  have neg: "\<not> (dec n @ c # rest \<noteq> [] \<and> hd (dec n @ c # rest) = CHR ''-'')"
    using d digit_not_special(7) [OF dd] by simp
  have fr: "parse_frac_part (c # rest) = Some (0, c # rest)"
    using assms(1) by (auto simp: parse_frac_part_def)
  have ex: "parse_exp_part (c # rest) = Some (1, c # rest)"
    using assms(1) by (auto simp: parse_exp_part_def)
  show ?thesis
    unfolding parse_number_def Let_def
    using neg parse_int_part_dec [OF nd, of n rest] fr ex double_of_nat [OF assms(2)] by simp
qed

lemma skip_ws_keep: "\<not> json_ws c \<Longrightarrow> skip_ws (c # cs) = c # cs"
  by (simp add: skip_ws_def)

lemma parse_value_dec:
  assumes "c = CHR '','' \<or> c = CHR ''}''" and "n < 2 ^ 53"
  shows "parse_value (Suc m) (dec n @ c # rest) = Some (JNum (Num (of_nat n)), c # rest)"
proof -
  obtain d ds where d: "dec n = d # ds" using dec_nonempty [of n] by (cases "dec n") auto
  from d dec_digits [of n] have dd: "is_digit d" by simp
  note ns = digit_not_special [OF dd]
  have sk: "skip_ws (d # ds @ c # rest) = d # ds @ c # rest" using ns(8) by (rule skip_ws_keep)
  have pn: "parse_number (d # ds @ c # rest) = Some (Num (of_nat n), c # rest)"
    using parse_number_dec [OF assms, of rest] d by simp
  show ?thesis
    using ns(1-6) by (simp add: d sk pn)
qed

lemma dquote_not_ws: "\<not> json_ws dquote"
  by (simp add: json_ws_def dquote_def)

lemma dquote_not_brace: "dquote \<noteq> CHR ''{''" "dquote \<noteq> CHR ''[''" "dquote \<noteq> CHR ''}''"
  by (simp_all add: dquote_def)

lemma parse_value_quoted:
  "parse_value (Suc m) (json_quote s @ rest) = Some (JStr (js_str s), rest)"
  using parse_string_body_escaped [of s rest]
  by (simp add: json_quote_def skip_ws_keep [OF dquote_not_ws] dquote_not_brace)

text \<open>One member \<open>"key":value\<close> followed by a comma or the closing brace.\<close>

lemma parse_member:
  assumes v: "parse_value (Suc m) (vtext @ d # rest) = Some (v, d # rest)"
    and d: "d = CHR '','' \<or> d = CHR ''}''"
  shows "parse_members (Suc (Suc m)) acc (json_quote key @ CHR '':'' # vtext @ d # rest) =
           (if d = CHR '','' then parse_members (Suc m) (obj_put (js_str key) v acc) rest
            else Some (JObj (obj_put (js_str key) v acc), rest))"
proof -
  have ws: "\<not> json_ws CHR '':''" "\<not> json_ws d" using d by (auto simp: json_ws_def)
  have k: "parse_string_body (concat (map json_escape key) @ dquote # CHR '':'' # vtext @ d # rest)
             = Some (js_str key, CHR '':'' # vtext @ d # rest)"
    by (rule parse_string_body_escaped)
  have "parse_members (Suc (Suc m)) acc (json_quote key @ CHR '':'' # vtext @ d # rest) =
          (if d = CHR '','' then parse_members (Suc m) (obj_put (js_str key) v acc) rest
           else if d = CHR ''}'' then Some (JObj (obj_put (js_str key) v acc), rest) else None)"
    by (subst parse_members.simps(2))
       (simp add: json_quote_def skip_ws_keep [OF dquote_not_ws] k skip_ws_keep [OF ws(1)]
          skip_ws_keep [OF ws(2)] v del: parse_value.simps parse_members.simps)
  with d show ?thesis by auto
qed

lemma payload_members:
  "obj_put (js_str ''exp'') e
     (obj_put (js_str ''iat'') i
        (obj_put (js_str ''origin'') ori (obj_put (js_str ''sid'') sid [])))
   = [(js_str ''sid'', sid), (js_str ''origin'', ori), (js_str ''iat'', i), (js_str ''exp'', e)]"
  by (simp add: obj_put_def js_str_def is_array_index_def is_dec_def)

lemma parse_payload_text:
  assumes "p_iat p < 2 ^ 53" and "p_exp p < 2 ^ 53"
  shows "parse_value (Suc (Suc (Suc (Suc (Suc (Suc m)))))) (JSON_stringify p)
           = Some (payload_json p, [])"
proof -
  define r4 where "r4 = json_quote ''exp'' @ CHR '':'' # dec (p_exp p) @ CHR ''}'' # []"
  define r3 where "r3 = json_quote ''iat'' @ CHR '':'' # dec (p_iat p) @ CHR '','' # r4"
  define r2 where "r2 = json_quote ''origin'' @ CHR '':'' # json_quote (p_origin p) @ CHR '','' # r3"
  define r1 where "r1 = json_quote ''sid'' @ CHR '':'' # json_quote (p_sid p) @ CHR '','' # r2"
  have shape: "JSON_stringify p = CHR ''{'' # r1"
    by (simp add: JSON_stringify_def r1_def r2_def r3_def r4_def)
  have r1q: "r1 = dquote # tl r1" by (simp add: r1_def json_quote_def)
  have skr: "skip_ws r1 = r1"
    using skip_ws_keep [OF dquote_not_ws, of "tl r1"] r1q by simp
  have hdr: "hd r1 = dquote" "r1 \<noteq> []" using r1q by (metis list.sel(1), metis list.discI)
  have pe: "parse_value (Suc m) (dec (p_exp p) @ CHR ''}'' # rest)
              = Some (JNum (Num (of_nat (p_exp p))), CHR ''}'' # rest)" for rest
    by (rule parse_value_dec [OF _ assms(2)]) simp
  have pi: "parse_value (Suc (Suc m)) (dec (p_iat p) @ CHR '','' # rest)
              = Some (JNum (Num (of_nat (p_iat p))), CHR '','' # rest)" for rest
    by (rule parse_value_dec [OF _ assms(1)]) simp
  have m4: "parse_members (Suc (Suc m)) acc r4 =
              Some (JObj (obj_put (js_str ''exp'') (JNum (Num (of_nat (p_exp p)))) acc), [])"
    for acc
    unfolding r4_def
    by (subst parse_member [where v = "JNum (Num (of_nat (p_exp p)))"])
       (simp_all add: pe del: parse_value.simps parse_members.simps)
  have m3: "parse_members (Suc (Suc (Suc m))) acc r3 =
              parse_members (Suc (Suc m))
                (obj_put (js_str ''iat'') (JNum (Num (of_nat (p_iat p)))) acc) r4"
    for acc
    unfolding r3_def
    by (subst parse_member [where v = "JNum (Num (of_nat (p_iat p)))"])
       (simp_all add: pi del: parse_value.simps parse_members.simps)
  have m2: "parse_members (Suc (Suc (Suc (Suc m)))) acc r2 =
              parse_members (Suc (Suc (Suc m)))
                (obj_put (js_str ''origin'') (JStr (js_str (p_origin p))) acc) r3" for acc
    unfolding r2_def
    by (subst parse_member [where v = "JStr (js_str (p_origin p))"])
       (simp_all add: parse_value_quoted del: parse_value.simps parse_members.simps)
  have m1: "parse_members (Suc (Suc (Suc (Suc (Suc m))))) acc r1 =
              parse_members (Suc (Suc (Suc (Suc m))))
                (obj_put (js_str ''sid'') (JStr (js_str (p_sid p))) acc) r2" for acc
    unfolding r1_def
    by (subst parse_member [where v = "JStr (js_str (p_sid p))"])
       (simp_all add: parse_value_quoted del: parse_value.simps parse_members.simps)
  have ws: "\<not> json_ws CHR ''{''" by (simp add: json_ws_def)
  have "parse_value (Suc (Suc (Suc (Suc (Suc (Suc m)))))) (CHR ''{'' # r1) =
          parse_members (Suc (Suc (Suc (Suc (Suc m))))) [] r1"
    by (simp add: skip_ws_keep [OF ws] skr hdr dquote_not_brace del: parse_members.simps)
  then show ?thesis
    by (simp add: shape m1 m2 m3 m4 payload_json_def payload_members
             del: parse_value.simps parse_members.simps)
qed

lemma JSON_parse_stringify:
  assumes "p_iat p < 2 ^ 53" and "p_exp p < 2 ^ 53"
  shows "JSON_parse (JSON_stringify p) = Some (payload_json p)"
proof -
  have "5 \<le> length (JSON_stringify p)"
    by (simp add: JSON_stringify_def json_quote_def)
  then have m: "Suc (length (JSON_stringify p)) =
      Suc (Suc (Suc (Suc (Suc (Suc (length (JSON_stringify p) - 5))))))"
    by arith
  show ?thesis
    unfolding JSON_parse_def m parse_payload_text [OF assms] by (simp add: skip_ws_def)
qed


subsection \<open>A token issued by \<open>createSessionToken\<close> verifies\<close>

lemma split_on_no_sep: "d \<notin> set xs \<Longrightarrow> split_on d xs = [xs]"
  by (induction xs) auto

lemma split_on_sep: "d \<notin> set a \<Longrightarrow> split_on d (a @ d # b) = a # split_on d b"
  by (induction a) auto

lemma payload_json_props:
  "get_prop (payload_json p) ''exp'' = Inr (Some (JNum (Num (of_nat (p_exp p)))))"
  "get_prop (payload_json p) ''origin'' = Inr (Some (JStr (js_str (p_origin p))))"
  by (simp_all add: get_prop_def payload_json_def js_str_def)

lemma create_verify_roundtrip:
  assumes k: "k \<noteq> []" and now: "now \<le> now_exp + 86400000"
    and ti: "now_iat \<le> 8640000000000000" and te: "now_exp \<le> 8640000000000000"
  shows "\<exists>tok. createSessionToken H (Some k) now_iat now_exp sid ori = Inr tok \<and>
           verifySessionToken H (Some k) now tok (Some ori) =
             \<lparr>valid = True, error = None,
              payload = Some (payload_json \<lparr>p_sid = sid, p_origin = ori, p_iat = now_iat,
                                            p_exp = now_exp + 86400000\<rparr>)\<rparr>"
proof -
  define p where "p = \<lparr>p_sid = sid, p_origin = ori, p_iat = now_iat, p_exp = now_exp + 86400000\<rparr>"
  define ps where "ps = JSON_stringify p"
  define bp where "bp = to_base64url (btoa ps)"
  define bs where "bs = to_base64url (btoa (H (utf8_encode k) (utf8_encode ps)))"
  define tok where "tok = bp @ ''.'' @ bs"
  have cr: "createSessionToken H (Some k) now_iat now_exp sid ori = Inr tok"
    using k by (simp add: createSessionToken_def getHmacKey_def Let_def tok_def bp_def bs_def
                  ps_def p_def)
  have sp: "split_on CHR ''.'' tok = [bp, bs]"
    using split_on_sep [of "CHR ''.''" bp bs] split_on_no_sep [of "CHR ''.''" bs]
      to_base64url_no_dot
    by (simp add: tok_def bp_def bs_def)
  have d1: "decode_base64url bp = Some ps" by (simp add: bp_def decode_base64url_roundtrip)
  have d2: "decode_base64url bs = Some (H (utf8_encode k) (utf8_encode ps))"
    by (simp add: bs_def decode_base64url_roundtrip)
  have "p_iat p < 2 ^ 53" "p_exp p < 2 ^ 53" using ti te by (simp_all add: p_def)
  then have j: "JSON_parse ps = Some (payload_json p)"
    unfolding ps_def by (rule JSON_parse_stringify)
  have ne: "\<not> (rat_of_nat (p_exp p) < rat_of_nat now)" using now by (simp add: p_def)
  note u = verify_unfold [OF token_split_nonempty [OF sp] sp d1 j, of H "Some k" now "Some ori"]
  have "verifySessionToken H (Some k) now tok (Some ori) =
          \<lparr>valid = True, error = None, payload = Some (payload_json p)\<rparr>"
    using ne k
    by (simp add: u payload_json_props js_gt_number getHmacKey_def d2 p_def)
  with cr show ?thesis by (auto simp: p_def)
qed


lemma serve_issued:
  assumes "body (fst (serve_create_session H secret clock uuid req limits)) = SessionBody sid tok ex"
  shows "req_method req \<noteq> ''OPTIONS''"
    and "fst (checkRateLimit_session (t_limit clock) (clientIP req) limits)"
    and "isAllowedOrigin (h_origin req)"
    and "sid = generate_sessionId (t_sid clock) uuid"
    and "ex = 86400"
    and "\<exists>ori. h_origin req = Some ori \<and>
           createSessionToken H secret (t_iat clock) (t_exp clock) sid ori = Inr tok"
    and "status (fst (serve_create_session H secret clock uuid req limits)) = 200"
  using assms
  by (auto simp: serve_create_session_def Let_def
           split: prod.splits option.splits if_splits sum.splits)

lemma serve_success:
  assumes "req_method req \<noteq> ''OPTIONS''"
    and "fst (checkRateLimit_session (t_limit clock) (clientIP req) limits)"
    and "h_origin req = Some ori" and "isAllowedOrigin (Some ori)"
    and "createSessionToken H secret (t_iat clock) (t_exp clock)
           (generate_sessionId (t_sid clock) uuid) ori = Inr tok"
  shows "fst (serve_create_session H secret clock uuid req limits) =
           \<lparr>status = 200, allow_origin = ori,
             body = SessionBody (generate_sessionId (t_sid clock) uuid) tok 86400\<rparr>"
  using assms
  by (auto simp: serve_create_session_def Let_def getCorsHeaders_def split: prod.splits)

text \<open>A concrete issuance, evaluated.\<close>

lemma digit_chars:
  "char_of (48::nat) = CHR ''0''" "char_of (49::nat) = CHR ''1''" "char_of (50::nat) = CHR ''2''"
  "char_of (51::nat) = CHR ''3''" "char_of (52::nat) = CHR ''4''" "char_of (53::nat) = CHR ''5''"
  "char_of (54::nat) = CHR ''6''" "char_of (55::nat) = CHR ''7''" "char_of (56::nat) = CHR ''8''"
  "char_of (57::nat) = CHR ''9''"
  by code_simp+

lemma sample_token:
  "createSessionToken (\<lambda>k m. ''mac'') (Some ''s'') 1700000000000 1700000000000
     ''1700000000000-123e4567'' ''https://abc-1.lovable.app''
   = Inr ''eyJzaWQiOiIxNzAwMDAwMDAwMDAwLTEyM2U0NTY3Iiwib3JpZ2luIjoiaHR0cHM6Ly9hYmMtMS5sb3ZhYmxlLmFwcCIsImlhdCI6MTcwMDAwMDAwMDAwMCwiZXhwIjoxNzAwMDg2NDAwMDAwfQ.bWFj''"
  apply (simp add: createSessionToken_def getHmacKey_def JSON_stringify_def json_quote_def
      json_escape_def dec.simps digit_chars Let_def dquote_def backslash_def)
  apply code_simp
  done

lemma sample_sid: "generate_sessionId 1700000000000 ''123e4567-e89b-42d3-a456-426614174000'' = ''1700000000000-123e4567''"
  by (simp add: generate_sessionId_def dec.simps digit_chars)

lemma sample_ip:
  "clientIP \<lparr>req_method = ''POST'', h_origin = Some ''https://abc-1.lovable.app'',
             h_x_forwarded_for = Some ''203.0.113.7, 10.0.0.1'', h_x_real_ip = None\<rparr>
     = ''203.0.113.7''"
  by (simp add: clientIP_def js_trim_def str_ws_def)

lemma sample_allowed: "isAllowedOrigin (Some ''https://abc-1.lovable.app'')"
  by code_simp

lemma sample_issuance:
  "fst (serve_create_session (\<lambda>k m. ''mac'') (Some ''s'')
          \<lparr>t_limit = 1700000000000, t_sid = 1700000000000, t_iat = 1700000000000,
            t_exp = 1700000000000\<rparr>
          ''123e4567-e89b-42d3-a456-426614174000''
          \<lparr>req_method = ''POST'', h_origin = Some ''https://abc-1.lovable.app'',
            h_x_forwarded_for = Some ''203.0.113.7, 10.0.0.1'', h_x_real_ip = None\<rparr>
          Map.empty)
     = \<lparr>status = 200, allow_origin = ''https://abc-1.lovable.app'', body = SessionBody ''1700000000000-123e4567'' ''eyJzaWQiOiIxNzAwMDAwMDAwMDAwLTEyM2U0NTY3Iiwib3JpZ2luIjoiaHR0cHM6Ly9hYmMtMS5sb3ZhYmxlLmFwcCIsImlhdCI6MTcwMDAwMDAwMDAwMCwiZXhwIjoxNzAwMDg2NDAwMDAwfQ.bWFj'' 86400\<rparr>"
proof -
  have rl: "fst (checkRateLimit_session 1700000000000 ''203.0.113.7'' Map.empty)"
    by (simp add: checkRateLimit_session_def MAX_SESSIONS_PER_WINDOW_def)
  show ?thesis
    using serve_success [where H = "\<lambda>k m. ''mac''" and secret = "Some ''s''"
        and clock = "\<lparr>t_limit = 1700000000000, t_sid = 1700000000000, t_iat = 1700000000000,
            t_exp = 1700000000000\<rparr>"
        and uuid = "''123e4567-e89b-42d3-a456-426614174000''"
        and req = "\<lparr>req_method = ''POST'', h_origin = Some ''https://abc-1.lovable.app'',
            h_x_forwarded_for = Some ''203.0.113.7, 10.0.0.1'', h_x_real_ip = None\<rparr>"
        and limits = Map.empty and ori = "''https://abc-1.lovable.app''" and tok = "''eyJzaWQiOiIxNzAwMDAwMDAwMDAwLTEyM2U0NTY3Iiwib3JpZ2luIjoiaHR0cHM6Ly9hYmMtMS5sb3ZhYmxlLmFwcCIsImlhdCI6MTcwMDAwMDAwMDAwMCwiZXhwIjoxNzAwMDg2NDAwMDAwfQ.bWFj''"]
      rl sample_allowed sample_token
    by (simp add: sample_ip sample_sid)
qed


text \<open>
  Claim C1. Take a create-session request with an \<open>Origin\<close> header and a configured signing
  secret. If the request is not a preflight, the IP is within its budget and the origin
  is allow-listed, a token is issued. Whenever a token is issued, the origin is
  allow-listed and verifying the returned token with the same origin at any time \<open>now\<close>
  up to the expiry instant returns \<open>valid: true\<close> with the issued payload: the returned
  \<open>sessionId\<close> as \<open>sid\<close>, the origin, \<open>iat\<close> the clock reading taken for it and \<open>exp\<close> the
  reading taken for it plus 86400000 ms. For an issuance at one instant \<open>t\<close> both readings
  are \<open>t\<close>, and every \<open>now < t + 24h\<close> is covered. The readings of \<open>Date.now()\<close> are
  time values, which are at most \<open>8640000000000000\<close>; the payload numbers are then below
  \<open>2^53\<close> and \<open>JSON.parse\<close> reads them back exactly.
\<close>

theorem issue_verify_roundtrip:
  assumes "h_origin req = Some ori" and "secret = Some k" and "k \<noteq> []"
  shows
    "(req_method req \<noteq> ''OPTIONS'' \<and>
      fst (checkRateLimit_session (t_limit clock) (clientIP req) limits) \<and>
      isAllowedOrigin (Some ori)
      \<longrightarrow> (\<exists>tok. fst (serve_create_session H secret clock uuid req limits) =
                   \<lparr>status = 200, allow_origin = ori,
                     body = SessionBody (generate_sessionId (t_sid clock) uuid) tok 86400\<rparr>)) \<and>
     (body (fst (serve_create_session H secret clock uuid req limits)) = SessionBody sid tok ex \<and>
      t_iat clock \<le> 8640000000000000 \<and> t_exp clock \<le> 8640000000000000 \<and>
      now \<le> t_exp clock + 86400000
      \<longrightarrow> isAllowedOrigin (Some ori) \<and>
          verifySessionToken H secret now tok (Some ori) =
            \<lparr>valid = True, error = None,
             payload = Some (payload_json \<lparr>p_sid = sid, p_origin = ori, p_iat = t_iat clock,
                                           p_exp = t_exp clock + 86400000\<rparr>)\<rparr>)"
proof -
  have a: "\<exists>tok. fst (serve_create_session H secret clock uuid req limits) =
                   \<lparr>status = 200, allow_origin = ori,
                     body = SessionBody (generate_sessionId (t_sid clock) uuid) tok 86400\<rparr>"
    if "req_method req \<noteq> ''OPTIONS''"
      and "fst (checkRateLimit_session (t_limit clock) (clientIP req) limits)"
      and "isAllowedOrigin (Some ori)"
  proof -
    obtain tok where
      "createSessionToken H (Some k) (t_iat clock) (t_exp clock)
         (generate_sessionId (t_sid clock) uuid) ori = Inr tok"
      using assms(3) by (simp add: createSessionToken_def getHmacKey_def Let_def)
    with serve_success [OF that(1,2) assms(1) that(3)] assms(2) show ?thesis by blast
  qed
  have b: "isAllowedOrigin (Some ori) \<and>
          verifySessionToken H secret now tok (Some ori) =
            \<lparr>valid = True, error = None,
             payload = Some (payload_json \<lparr>p_sid = sid, p_origin = ori, p_iat = t_iat clock,
                                           p_exp = t_exp clock + 86400000\<rparr>)\<rparr>"
    if bd: "body (fst (serve_create_session H secret clock uuid req limits)) = SessionBody sid tok ex"
      and ti: "t_iat clock \<le> 8640000000000000" and te: "t_exp clock \<le> 8640000000000000"
      and now: "now \<le> t_exp clock + 86400000"
  proof -
    from serve_issued(3,6) [OF bd] assms(1)
    have al: "isAllowedOrigin (Some ori)"
      and cr: "createSessionToken H secret (t_iat clock) (t_exp clock) sid ori = Inr tok"
      by auto
    from create_verify_roundtrip [OF assms(3) now ti te, of H sid ori] cr assms(2)
    show ?thesis using al by auto
  qed
  from a b show ?thesis by blast
qed

theorem issue_verify_roundtrip_witness:
  "fst (serve_create_session (\<lambda>k m. ''mac'') (Some ''s'')
          \<lparr>t_limit = 1700000000000, t_sid = 1700000000000, t_iat = 1700000000000,
            t_exp = 1700000000000\<rparr>
          ''123e4567-e89b-42d3-a456-426614174000''
          \<lparr>req_method = ''POST'', h_origin = Some ''https://abc-1.lovable.app'',
            h_x_forwarded_for = Some ''203.0.113.7, 10.0.0.1'', h_x_real_ip = None\<rparr>
          Map.empty)
     = \<lparr>status = 200, allow_origin = ''https://abc-1.lovable.app'',
        body = SessionBody ''1700000000000-123e4567''
                 ''eyJzaWQiOiIxNzAwMDAwMDAwMDAwLTEyM2U0NTY3Iiwib3JpZ2luIjoiaHR0cHM6Ly9hYmMtMS5sb3ZhYmxlLmFwcCIsImlhdCI6MTcwMDAwMDAwMDAwMCwiZXhwIjoxNzAwMDg2NDAwMDAwfQ.bWFj''
                 86400\<rparr> \<and>
   verifySessionToken (\<lambda>k m. ''mac'') (Some ''s'') 1700086399999
       ''eyJzaWQiOiIxNzAwMDAwMDAwMDAwLTEyM2U0NTY3Iiwib3JpZ2luIjoiaHR0cHM6Ly9hYmMtMS5sb3ZhYmxlLmFwcCIsImlhdCI6MTcwMDAwMDAwMDAwMCwiZXhwIjoxNzAwMDg2NDAwMDAwfQ.bWFj''
       (Some ''https://abc-1.lovable.app'')
     = \<lparr>valid = True, error = None,
        payload = Some (payload_json \<lparr>p_sid = ''1700000000000-123e4567'',
                                      p_origin = ''https://abc-1.lovable.app'',
                                      p_iat = 1700000000000, p_exp = 1700086400000\<rparr>)\<rparr>"
proof -
  let ?H = "\<lambda>(k::string) (m::string). ''mac''"
  let ?clock = "\<lparr>t_limit = 1700000000000, t_sid = 1700000000000, t_iat = 1700000000000,
                  t_exp = 1700000000000\<rparr>"
  let ?req = "\<lparr>req_method = ''POST'', h_origin = Some ''https://abc-1.lovable.app'',
               h_x_forwarded_for = Some ''203.0.113.7, 10.0.0.1'', h_x_real_ip = None\<rparr>"
  have o: "h_origin ?req = Some ''https://abc-1.lovable.app''" by simp
  have k: "''s'' \<noteq> []" by simp
  have n: "t_iat ?clock \<le> 8640000000000000 \<and> t_exp ?clock \<le> 8640000000000000 \<and>
           (1700086399999::nat) \<le> t_exp ?clock + 86400000" by simp
  from issue_verify_roundtrip [OF o refl k, of ?clock Map.empty ?H
         "''123e4567-e89b-42d3-a456-426614174000''" "''1700000000000-123e4567''"
         "''eyJzaWQiOiIxNzAwMDAwMDAwMDAwLTEyM2U0NTY3Iiwib3JpZ2luIjoiaHR0cHM6Ly9hYmMtMS5sb3ZhYmxlLmFwcCIsImlhdCI6MTcwMDAwMDAwMDAwMCwiZXhwIjoxNzAwMDg2NDAwMDAwfQ.bWFj''"
         86400 1700086399999]
       sample_issuance n
  show ?thesis by simp
qed


section \<open>Properties of the issuer\<close>

lemma dec_length: "0 < k \<Longrightarrow> n < 10 ^ k \<Longrightarrow> length (dec n) \<le> k"
proof (induction n arbitrary: k rule: dec.induct)
  case (1 n)
  show ?case
  proof (cases "n < 10")
    case True
    with 1(2) show ?thesis by (subst dec.simps) simp
  next
    case False
    with 1(2,3) have k1: "1 < k" by (cases "k = 1") auto
    then obtain j where j: "k = Suc j" "0 < j" by (cases k) auto
    from 1(3) j have "n div 10 < 10 ^ j"
      by (simp add: less_mult_imp_div_less mult.commute)
    from 1(1) [OF False j(2) this] j False show ?thesis
      by (subst dec.simps) simp
  qed
qed

lemma uuid_prefix:
  assumes "is_uuid u"
  shows "length (take 8 u) = 8 \<and> list_all is_lower_hex (take 8 u)"
proof -
  from assms have len: "length u = 36"
    and all: "\<forall>i < 36. if i \<in> set [8, 13, 18, 23] then u ! i = CHR ''-'' else is_lower_hex (u ! i)"
    by (auto simp: is_uuid_def list_all_iff)
  have "\<forall>i < 8. is_lower_hex (u ! i)"
  proof (intro allI impI)
    fix i :: nat assume "i < 8"
    then have "i < 36" "i \<notin> set [8, 13, 18, 23]" by auto
    with all show "is_lower_hex (u ! i)" by (metis (full_types))
  qed
  with len show ?thesis
    by (auto simp: list_all_length)
qed

lemma id_char_digit: "is_digit c \<Longrightarrow> id_char (of_char c)"
  by (simp add: is_digit_def id_char_def)

lemma id_char_hex: "is_lower_hex c \<Longrightarrow> id_char (of_char c)"
  by (auto simp: is_lower_hex_def id_char_def Let_def)

text \<open>
  Claim C10. Every \<open>sessionId\<close> that create-session returns is the decimal text of the
  clock reading, a hyphen and the first eight characters of the UUID, which are lower-case
  hexadecimal digits. With the clock reading a time value (at most \<open>8.64 * 10^15\<close>) it has
  at most 25 characters, so it is non-empty, shorter than 100, made of characters of
  \<open>[a-zA-Z0-9_-]\<close> only, and passes the \<open>sessionId\<close> checks of the save endpoint.
\<close>

theorem generated_sessionId_accepted:
  assumes "body (fst (serve_create_session H secret clock uuid req limits)) = SessionBody sid tok ex"
    and "is_uuid uuid"
    and "t_sid clock \<le> 8640000000000000"
  shows "sid = dec (t_sid clock) @ ''-'' @ take 8 uuid \<and>
         list_all is_digit (dec (t_sid clock)) \<and> dec (t_sid clock) \<noteq> [] \<and>
         length (take 8 uuid) = 8 \<and> list_all is_lower_hex (take 8 uuid) \<and>
         sid \<noteq> [] \<and> length sid < 100 \<and>
         list_all id_char (js_str sid) \<and>
         validate_sessionId (Some (JStr (js_str sid))) = None"
proof -
  from assms(1) have sid: "sid = generate_sessionId (t_sid clock) uuid"
    by (auto simp: serve_create_session_def Let_def
             split: prod.splits option.splits if_splits sum.splits)
  then have shape: "sid = dec (t_sid clock) @ ''-'' @ take 8 uuid"
    by (simp add: generate_sessionId_def)
  note ux = uuid_prefix [OF assms(2)]
  have "t_sid clock < 10 ^ 16" using assms(3) by simp
  then have dl: "length (dec (t_sid clock)) \<le> 16"
    using dec_length [of 16 "t_sid clock"] by simp
  have len: "length sid \<le> 25" using shape dl ux by simp
  have dash: "id_char (of_char CHR ''-'')" by (simp add: id_char_def)
  have chars: "list_all id_char (js_str sid)"
    using dec_digits [of "t_sid clock"] ux dash
    by (auto simp: shape js_str_def list_all_iff id_char_digit id_char_hex)
  have ne: "sid \<noteq> []" using shape by simp
  have "validate_sessionId (Some (JStr (js_str sid))) = None"
    using chars ne len by (simp add: validate_sessionId_def js_str_def MAX_SESSION_ID_LENGTH_def)
  with shape dec_digits dec_nonempty ux ne len chars show ?thesis by simp
qed


theorem generated_sessionId_accepted_witness:
  "''1700000000000-123e4567'' = dec 1700000000000 @ ''-'' @ take 8 ''123e4567-e89b-42d3-a456-426614174000'' \<and>
   length ''1700000000000-123e4567'' < 100 \<and>
   validate_sessionId (Some (JStr (js_str ''1700000000000-123e4567''))) = None"
proof -
  let ?H = "\<lambda>(k::string) (m::string). ''mac''"
  let ?clock = "\<lparr>t_limit = 1700000000000, t_sid = 1700000000000, t_iat = 1700000000000,
                  t_exp = 1700000000000\<rparr>"
  have b: "body (fst (serve_create_session ?H (Some ''s'') ?clock
          ''123e4567-e89b-42d3-a456-426614174000''
          \<lparr>req_method = ''POST'', h_origin = Some ''https://abc-1.lovable.app'',
            h_x_forwarded_for = Some ''203.0.113.7, 10.0.0.1'', h_x_real_ip = None\<rparr>
          Map.empty))
     = SessionBody ''1700000000000-123e4567''
         ''eyJzaWQiOiIxNzAwMDAwMDAwMDAwLTEyM2U0NTY3Iiwib3JpZ2luIjoiaHR0cHM6Ly9hYmMtMS5sb3ZhYmxlLmFwcCIsImlhdCI6MTcwMDAwMDAwMDAwMCwiZXhwIjoxNzAwMDg2NDAwMDAwfQ.bWFj''
         86400"
    by (simp add: sample_issuance)
  have u: "is_uuid ''123e4567-e89b-42d3-a456-426614174000''" by code_simp
  have t: "t_sid ?clock \<le> 8640000000000000" by simp
  from generated_sessionId_accepted [OF b u t] show ?thesis by simp
qed

lemma serve_rate_limited:
  assumes "req_method req \<noteq> ''OPTIONS''"
    and "\<not> fst (checkRateLimit_session (t_limit clock) (clientIP req) limits)"
  shows "serve_create_session H secret clock uuid req limits =
           (\<lparr>status = 429, allow_origin = getCorsHeaders (h_origin req),
              body = ErrorBody ''Too many session requests. Please wait and try again.''\<rparr>,
            limits)"
proof -
  from assms(2) have "checkRateLimit_session (t_limit clock) (clientIP req) limits = (False, limits)"
    by (auto simp: checkRateLimit_session_def Let_def split: if_splits)
  with assms(1) show ?thesis
    by (simp add: serve_create_session_def Let_def)
qed

lemma serve_bad_origin:
  assumes "req_method req \<noteq> ''OPTIONS''"
    and "fst (checkRateLimit_session (t_limit clock) (clientIP req) limits)"
    and "\<not> isAllowedOrigin (h_origin req)"
  shows "fst (serve_create_session H secret clock uuid req limits) =
           \<lparr>status = 403, allow_origin = getCorsHeaders (h_origin req),
             body = ErrorBody ''Invalid origin''\<rparr>"
  using assms
  by (auto simp: serve_create_session_def Let_def split: prod.splits option.splits)

lemma rate_check_count:
  "fst (checkRateLimit_session now ip limits) =
     (length (filter (\<lambda>t. int now - int t < int SESSION_RATE_LIMIT_WINDOW_MS) (held limits ip))
        < MAX_SESSIONS_PER_WINDOW)"
  by (auto simp: checkRateLimit_session_def held_def Let_def)

text \<open>
  Claim C7, amended. For every create-session request other than a preflight: if the
  client IP already holds 10 timestamps inside the last hour, the answer is status 429
  with the rate-limit error and the limiter's map is unchanged; if the IP is within its
  budget and the \<open>Origin\<close> header fails the allow-list, the answer is status 403 with
  the origin error. Neither answer carries a token or a \<open>sessionId\<close>: a response that
  carries them has status 200 and comes from an allow-listed origin on an IP within budget.
\<close>

theorem issuer_failure_behaviour:
  "(req_method req \<noteq> ''OPTIONS'' \<and>
    MAX_SESSIONS_PER_WINDOW
      \<le> length (filter (\<lambda>t. int (t_limit clock) - int t < int SESSION_RATE_LIMIT_WINDOW_MS)
                  (held limits (clientIP req)))
    \<longrightarrow> serve_create_session H secret clock uuid req limits =
          (\<lparr>status = 429, allow_origin = getCorsHeaders (h_origin req),
             body = ErrorBody ''Too many session requests. Please wait and try again.''\<rparr>,
           limits)) \<and>
   (req_method req \<noteq> ''OPTIONS'' \<and>
    length (filter (\<lambda>t. int (t_limit clock) - int t < int SESSION_RATE_LIMIT_WINDOW_MS)
              (held limits (clientIP req)))
      < MAX_SESSIONS_PER_WINDOW \<and>
    \<not> isAllowedOrigin (h_origin req)
    \<longrightarrow> fst (serve_create_session H secret clock uuid req limits) =
          \<lparr>status = 403, allow_origin = getCorsHeaders (h_origin req),
            body = ErrorBody ''Invalid origin''\<rparr>) \<and>
   (body (fst (serve_create_session H secret clock uuid req limits)) = SessionBody sid tok ex
    \<longrightarrow> status (fst (serve_create_session H secret clock uuid req limits)) = 200 \<and>
        isAllowedOrigin (h_origin req) \<and>
        length (filter (\<lambda>t. int (t_limit clock) - int t < int SESSION_RATE_LIMIT_WINDOW_MS)
                  (held limits (clientIP req)))
          < MAX_SESSIONS_PER_WINDOW)"
proof -
  note rl = rate_check_count [of "t_limit clock" "clientIP req" limits]
  have a: "serve_create_session H secret clock uuid req limits =
          (\<lparr>status = 429, allow_origin = getCorsHeaders (h_origin req),
             body = ErrorBody ''Too many session requests. Please wait and try again.''\<rparr>,
           limits)"
    if "req_method req \<noteq> ''OPTIONS''"
      and "MAX_SESSIONS_PER_WINDOW
      \<le> length (filter (\<lambda>t. int (t_limit clock) - int t < int SESSION_RATE_LIMIT_WINDOW_MS)
                  (held limits (clientIP req)))"
    using that serve_rate_limited [of req clock limits] rl by simp
  have b: "fst (serve_create_session H secret clock uuid req limits) =
          \<lparr>status = 403, allow_origin = getCorsHeaders (h_origin req),
            body = ErrorBody ''Invalid origin''\<rparr>"
    if "req_method req \<noteq> ''OPTIONS''"
      and "length (filter (\<lambda>t. int (t_limit clock) - int t < int SESSION_RATE_LIMIT_WINDOW_MS)
              (held limits (clientIP req))) < MAX_SESSIONS_PER_WINDOW"
      and "\<not> isAllowedOrigin (h_origin req)"
    using that serve_bad_origin [of req clock limits] rl by simp
  have c: "status (fst (serve_create_session H secret clock uuid req limits)) = 200 \<and>
        isAllowedOrigin (h_origin req) \<and>
        length (filter (\<lambda>t. int (t_limit clock) - int t < int SESSION_RATE_LIMIT_WINDOW_MS)
                  (held limits (clientIP req))) < MAX_SESSIONS_PER_WINDOW"
    if bd: "body (fst (serve_create_session H secret clock uuid req limits)) = SessionBody sid tok ex"
    using serve_issued(2,3,7) [OF bd] rl by simp
  from a b c show ?thesis by blast
qed

text \<open>
  Claim C7 as stated fails where both failures meet: the rate limit is checked first, so a
  request whose origin fails the allow-list, from an IP that has used its budget, is
  answered 429 and not 403.
\<close>

theorem issuer_failure_counterexample:
  "\<not> isAllowedOrigin (Some ''https://evil.example'') \<and>
   fst (serve_create_session (\<lambda>k m. ''mac'') (Some ''s'')
          \<lparr>t_limit = 11, t_sid = 11, t_iat = 11, t_exp = 11\<rparr>
          ''123e4567-e89b-42d3-a456-426614174000''
          \<lparr>req_method = ''POST'', h_origin = Some ''https://evil.example'',
            h_x_forwarded_for = None, h_x_real_ip = Some ''203.0.113.7''\<rparr>
          [''203.0.113.7'' \<mapsto> [1, 2, 3, 4, 5, 6, 7, 8, 9, 10]])
     = \<lparr>status = 429, allow_origin = ''https://handwrite-to-taste.lovable.app'',
        body = ErrorBody ''Too many session requests. Please wait and try again.''\<rparr>"
proof -
  let ?c = "\<lparr>t_limit = 11, t_sid = 11, t_iat = 11, t_exp = 11\<rparr>"
  let ?bad = "\<lparr>req_method = ''POST'', h_origin = Some ''https://evil.example'',
            h_x_forwarded_for = None, h_x_real_ip = Some ''203.0.113.7''\<rparr>"
  let ?full = "[''203.0.113.7'' \<mapsto> [1, 2, 3, 4, 5, 6, 7, 8, 9, 10 :: nat]]"
  have a: "\<not> isAllowedOrigin (Some ''https://evil.example'')" by code_simp
  have ip: "clientIP ?bad = ''203.0.113.7''" by (simp add: clientIP_def)
  have m: "req_method ?bad \<noteq> ''OPTIONS''" by simp
  have rl: "\<not> fst (checkRateLimit_session (t_limit ?c) (clientIP ?bad) ?full)"
    by (simp add: ip checkRateLimit_session_def SESSION_RATE_LIMIT_WINDOW_MS_def
          MAX_SESSIONS_PER_WINDOW_def)
  from serve_rate_limited [OF m rl, of "\<lambda>k m. ''mac''" "Some ''s''"
         "''123e4567-e89b-42d3-a456-426614174000''"] a
  show ?thesis by (simp add: getCorsHeaders_def defaultOrigin_def)
qed

theorem issuer_failure_behaviour_witness:
  "serve_create_session (\<lambda>k m. ''mac'') (Some ''s'')
          \<lparr>t_limit = 11, t_sid = 11, t_iat = 11, t_exp = 11\<rparr>
          ''123e4567-e89b-42d3-a456-426614174000''
          \<lparr>req_method = ''POST'', h_origin = Some ''https://abc-1.lovable.app'',
            h_x_forwarded_for = None, h_x_real_ip = Some ''203.0.113.7''\<rparr>
          [''203.0.113.7'' \<mapsto> [1, 2, 3, 4, 5, 6, 7, 8, 9, 10]]
     = (\<lparr>status = 429, allow_origin = ''https://abc-1.lovable.app'',
         body = ErrorBody ''Too many session requests. Please wait and try again.''\<rparr>,
        [''203.0.113.7'' \<mapsto> [1, 2, 3, 4, 5, 6, 7, 8, 9, 10]]) \<and>
   fst (serve_create_session (\<lambda>k m. ''mac'') (Some ''s'')
          \<lparr>t_limit = 11, t_sid = 11, t_iat = 11, t_exp = 11\<rparr>
          ''123e4567-e89b-42d3-a456-426614174000''
          \<lparr>req_method = ''POST'', h_origin = Some ''https://evil.example'',
            h_x_forwarded_for = None, h_x_real_ip = Some ''203.0.113.7''\<rparr>
          Map.empty)
     = \<lparr>status = 403, allow_origin = ''https://handwrite-to-taste.lovable.app'',
        body = ErrorBody ''Invalid origin''\<rparr> \<and>
   status (fst (serve_create_session (\<lambda>k m. ''mac'') (Some ''s'')
          \<lparr>t_limit = 1700000000000, t_sid = 1700000000000, t_iat = 1700000000000,
            t_exp = 1700000000000\<rparr>
          ''123e4567-e89b-42d3-a456-426614174000''
          \<lparr>req_method = ''POST'', h_origin = Some ''https://abc-1.lovable.app'',
            h_x_forwarded_for = Some ''203.0.113.7, 10.0.0.1'', h_x_real_ip = None\<rparr>
          Map.empty)) = 200"
proof -
  let ?H = "\<lambda>(k::string) (m::string). ''mac''"
  let ?c = "\<lparr>t_limit = 11, t_sid = 11, t_iat = 11, t_exp = 11\<rparr>"
  let ?u = "''123e4567-e89b-42d3-a456-426614174000''"
  let ?good = "\<lparr>req_method = ''POST'', h_origin = Some ''https://abc-1.lovable.app'',
            h_x_forwarded_for = None, h_x_real_ip = Some ''203.0.113.7''\<rparr>"
  let ?bad = "\<lparr>req_method = ''POST'', h_origin = Some ''https://evil.example'',
            h_x_forwarded_for = None, h_x_real_ip = Some ''203.0.113.7''\<rparr>"
  let ?full = "[''203.0.113.7'' \<mapsto> [1, 2, 3, 4, 5, 6, 7, 8, 9, 10 :: nat]]"
  have ipg: "clientIP ?good = ''203.0.113.7''" by (simp add: clientIP_def)
  have ipb: "clientIP ?bad = ''203.0.113.7''" by (simp add: clientIP_def)
  have al: "isAllowedOrigin (Some ''https://abc-1.lovable.app'')" by code_simp
  have nal: "\<not> isAllowedOrigin (Some ''https://evil.example'')" by code_simp
  have full: "MAX_SESSIONS_PER_WINDOW
      \<le> length (filter (\<lambda>t. int (t_limit ?c) - int t < int SESSION_RATE_LIMIT_WINDOW_MS)
                  (held ?full (clientIP ?good)))"
    by (simp add: ipg held_def MAX_SESSIONS_PER_WINDOW_def SESSION_RATE_LIMIT_WINDOW_MS_def)
  have free: "length (filter (\<lambda>t. int (t_limit ?c) - int t < int SESSION_RATE_LIMIT_WINDOW_MS)
                  (held Map.empty (clientIP ?bad))) < MAX_SESSIONS_PER_WINDOW"
    by (simp add: ipb held_def MAX_SESSIONS_PER_WINDOW_def)
  from issuer_failure_behaviour [of ?good ?c ?full ?H "Some ''s''" ?u] full
  have a: "serve_create_session ?H (Some ''s'') ?c ?u ?good ?full
     = (\<lparr>status = 429, allow_origin = ''https://abc-1.lovable.app'',
         body = ErrorBody ''Too many session requests. Please wait and try again.''\<rparr>, ?full)"
    using al by (simp add: getCorsHeaders_def)
  from issuer_failure_behaviour [of ?bad ?c Map.empty ?H "Some ''s''" ?u] free nal
  have b: "fst (serve_create_session ?H (Some ''s'') ?c ?u ?bad Map.empty)
     = \<lparr>status = 403, allow_origin = ''https://handwrite-to-taste.lovable.app'',
        body = ErrorBody ''Invalid origin''\<rparr>"
    by (simp add: getCorsHeaders_def defaultOrigin_def)
  from issuer_failure_behaviour
         [of "\<lparr>req_method = ''POST'', h_origin = Some ''https://abc-1.lovable.app'',
            h_x_forwarded_for = Some ''203.0.113.7, 10.0.0.1'', h_x_real_ip = None\<rparr>"
             "\<lparr>t_limit = 1700000000000, t_sid = 1700000000000, t_iat = 1700000000000,
            t_exp = 1700000000000\<rparr>" Map.empty ?H "Some ''s''" ?u
            "''1700000000000-123e4567''"
            "''eyJzaWQiOiIxNzAwMDAwMDAwMDAwLTEyM2U0NTY3Iiwib3JpZ2luIjoiaHR0cHM6Ly9hYmMtMS5sb3ZhYmxlLmFwcCIsImlhdCI6MTcwMDAwMDAwMDAwMCwiZXhwIjoxNzAwMDg2NDAwMDAwfQ.bWFj''"
            86400]
       sample_issuance
  have c: "status (fst (serve_create_session ?H (Some ''s'')
          \<lparr>t_limit = 1700000000000, t_sid = 1700000000000, t_iat = 1700000000000,
            t_exp = 1700000000000\<rparr> ?u
          \<lparr>req_method = ''POST'', h_origin = Some ''https://abc-1.lovable.app'',
            h_x_forwarded_for = Some ''203.0.113.7, 10.0.0.1'', h_x_real_ip = None\<rparr>
          Map.empty)) = 200"
    by simp
  from a b c show ?thesis by blast
qed


section \<open>Properties of the toggle-favorite endpoint\<close>

lemma sample_verify:
  "verifySessionToken (\<lambda>k m. ''mac'') (Some ''s'') 1700000060000
       ''eyJzaWQiOiIxNzAwMDAwMDAwMDAwLTEyM2U0NTY3Iiwib3JpZ2luIjoiaHR0cHM6Ly9hYmMtMS5sb3ZhYmxlLmFwcCIsImlhdCI6MTcwMDAwMDAwMDAwMCwiZXhwIjoxNzAwMDg2NDAwMDAwfQ.bWFj''
       (Some ''https://abc-1.lovable.app'')
     = \<lparr>valid = True, error = None,
        payload = Some (payload_json \<lparr>p_sid = ''1700000000000-123e4567'',
                                      p_origin = ''https://abc-1.lovable.app'',
                                      p_iat = 1700000000000, p_exp = 1700086400000\<rparr>)\<rparr>"
proof -
  have k: "''s'' \<noteq> []" by simp
  have n: "(1700000060000::nat) \<le> 1700000000000 + 86400000" by simp
  have b: "(1700000000000::nat) \<le> 8640000000000000" by simp
  from create_verify_roundtrip [OF k n b b, of "\<lambda>k m. ''mac''"
         "''1700000000000-123e4567''" "''https://abc-1.lovable.app''"]
       sample_token
  show ?thesis by simp
qed

lemma toggle_after_token:
  assumes "tf_method req \<noteq> ''OPTIONS''" and "tf_session_token req = Some t" and "t \<noteq> []"
    and "valid (verifySessionToken H (SESSION_SIGNING_SECRET env) now t (tf_origin req))"
  shows "serve_toggle_favorite H env now fetchError updateError req db =
     (case tf_json req of
           None \<Rightarrow> (\<lparr>tf_status = 500, tf_result = TfError ToggleFailed\<rparr>, db)
         | Some b \<Rightarrow>
             if b_id b = [] \<or> b_type b = [] \<or> b_isFavorite b = None \<or> b_sessionId b = []
               then (\<lparr>tf_status = 400, tf_result = TfError MissingParameters\<rparr>, db)
             else if b_type b \<noteq> js_str ''menu'' \<and> b_type b \<noteq> js_str ''product''
               then (\<lparr>tf_status = 400, tf_result = TfError InvalidType\<rparr>, db)
             else if falsy (SUPABASE_URL env) \<or> falsy (SUPABASE_SERVICE_ROLE_KEY env)
               then (\<lparr>tf_status = 500, tf_result = TfError ServerConfigError\<rparr>, db)
             else
               (let tableName = (if b_type b = js_str ''menu'' then js_str ''menu_analyses''
                                 else js_str ''product_analyses'')
                in if fetchError
                     then (\<lparr>tf_status = 500, tf_result = TfError FetchFailed\<rparr>, db)
                   else
                     (case table_get db tableName (b_id b) of
                        None \<Rightarrow> (\<lparr>tf_status = 404, tf_result = TfError RecordNotFound\<rparr>, db)
                      | Some existingRecord \<Rightarrow>
                          if row_session_id existingRecord \<noteq> b_sessionId b
                            then (\<lparr>tf_status = 403, tf_result = TfError NotAuthorized\<rparr>, db)
                          else if updateError
                            then (\<lparr>tf_status = 500, tf_result = TfError UpdateFailed\<rparr>, db)
                          else
                            (\<lparr>tf_status = 200, tf_result = TfSuccess (the (b_isFavorite b))\<rparr>,
                             table_update db tableName (b_id b) (the (b_isFavorite b))))))"
  using assms
  by (auto simp: serve_toggle_favorite_def falsy_def Let_def split: option.splits)

text \<open>
  Claim C2, amended. For every toggle-favorite request whose token verifies as valid, the
  update proceeds (status 200, or any change of the tables) only when the addressed row
  exists and its stored \<open>session_id\<close> equals the \<open>sessionId\<close> supplied in the request
  body. A request that reaches the ownership check with a different \<open>sessionId\<close> is
  answered 403 "not authorized" and the tables are unchanged; one with the stored
  \<open>sessionId\<close> succeeds and sets the flag. The \<open>sid\<close> inside the token takes no part: the
  handler uses only the verdict \<open>valid\<close> of the verifier.
\<close>

theorem toggle_favorite_ownership:
  assumes "tf_method req \<noteq> ''OPTIONS''"
    and "tf_session_token req = Some t"
    and "valid (verifySessionToken H (SESSION_SIGNING_SECRET env) now t (tf_origin req))"
  shows
    "(tf_status (fst (serve_toggle_favorite H env now fetchError updateError req db)) = 200 \<or>
      snd (serve_toggle_favorite H env now fetchError updateError req db) \<noteq> db
        \<longrightarrow> (\<exists>b row. tf_json req = Some b \<and> table_get db (tf_table b) (b_id b) = Some row \<and>
                      row_session_id row = b_sessionId b \<and>
                      tf_status (fst (serve_toggle_favorite H env now fetchError updateError req db))
                        = 200)) \<and>
     (tf_json req = Some b \<and>
      b_id b \<noteq> [] \<and> b_isFavorite b \<noteq> None \<and> b_sessionId b \<noteq> [] \<and>
      (b_type b = js_str ''menu'' \<or> b_type b = js_str ''product'') \<and>
      \<not> falsy (SUPABASE_URL env) \<and> \<not> falsy (SUPABASE_SERVICE_ROLE_KEY env) \<and>
      \<not> fetchError \<and>
      table_get db (tf_table b) (b_id b) = Some row \<and>
      row_session_id row \<noteq> b_sessionId b
        \<longrightarrow> serve_toggle_favorite H env now fetchError updateError req db
              = (\<lparr>tf_status = 403, tf_result = TfError NotAuthorized\<rparr>, db)) \<and>
     (tf_json req = Some b \<and>
      b_id b \<noteq> [] \<and> b_isFavorite b = Some flag \<and> b_sessionId b \<noteq> [] \<and>
      (b_type b = js_str ''menu'' \<or> b_type b = js_str ''product'') \<and>
      \<not> falsy (SUPABASE_URL env) \<and> \<not> falsy (SUPABASE_SERVICE_ROLE_KEY env) \<and>
      \<not> fetchError \<and> \<not> updateError \<and>
      table_get db (tf_table b) (b_id b) = Some row \<and>
      row_session_id row = b_sessionId b
        \<longrightarrow> serve_toggle_favorite H env now fetchError updateError req db
              = (\<lparr>tf_status = 200, tf_result = TfSuccess flag\<rparr>,
                 table_update db (tf_table b) (b_id b) flag))"
proof -
  have tne: "t \<noteq> []"
    using assms(3) by (auto simp: verifySessionToken_def rejected_def)
  note u = toggle_after_token [OF assms(1,2) tne assms(3), of fetchError updateError db]
  have a: "\<exists>b row. tf_json req = Some b \<and> table_get db (tf_table b) (b_id b) = Some row \<and>
                      row_session_id row = b_sessionId b \<and>
                      tf_status (fst (serve_toggle_favorite H env now fetchError updateError req db))
                        = 200"
    if "tf_status (fst (serve_toggle_favorite H env now fetchError updateError req db)) = 200 \<or>
        snd (serve_toggle_favorite H env now fetchError updateError req db) \<noteq> db"
    using that unfolding u
    by (auto simp: Let_def tf_table_def split: option.splits if_splits)
  have b: "serve_toggle_favorite H env now fetchError updateError req db
              = (\<lparr>tf_status = 403, tf_result = TfError NotAuthorized\<rparr>, db)"
    if "tf_json req = Some b" "b_id b \<noteq> []" "b_isFavorite b \<noteq> None" "b_sessionId b \<noteq> []"
      "b_type b = js_str ''menu'' \<or> b_type b = js_str ''product''"
      "\<not> falsy (SUPABASE_URL env)" "\<not> falsy (SUPABASE_SERVICE_ROLE_KEY env)" "\<not> fetchError"
      "table_get db (tf_table b) (b_id b) = Some row" "row_session_id row \<noteq> b_sessionId b"
    using that unfolding u
    by (auto simp: Let_def tf_table_def js_str_def split: option.splits if_splits)
  have c: "serve_toggle_favorite H env now fetchError updateError req db
              = (\<lparr>tf_status = 200, tf_result = TfSuccess flag\<rparr>,
                 table_update db (tf_table b) (b_id b) flag)"
    if "tf_json req = Some b" "b_id b \<noteq> []" "b_isFavorite b = Some flag" "b_sessionId b \<noteq> []"
      "b_type b = js_str ''menu'' \<or> b_type b = js_str ''product''"
      "\<not> falsy (SUPABASE_URL env)" "\<not> falsy (SUPABASE_SERVICE_ROLE_KEY env)" "\<not> fetchError"
      "\<not> updateError"
      "table_get db (tf_table b) (b_id b) = Some row" "row_session_id row = b_sessionId b"
    using that unfolding u
    by (auto simp: Let_def tf_table_def js_str_def split: option.splits if_splits)
  from a b c show ?thesis by blast
qed

lemma sample_toggle_valid:
  "valid (verifySessionToken (\<lambda>k m. ''mac'')
            (SESSION_SIGNING_SECRET \<lparr>SESSION_SIGNING_SECRET = Some ''s'',
               SUPABASE_URL = Some ''https://db.example'', SUPABASE_SERVICE_ROLE_KEY = Some ''key''\<rparr>)
            1700000060000 ''eyJzaWQiOiIxNzAwMDAwMDAwMDAwLTEyM2U0NTY3Iiwib3JpZ2luIjoiaHR0cHM6Ly9hYmMtMS5sb3ZhYmxlLmFwcCIsImlhdCI6MTcwMDAwMDAwMDAwMCwiZXhwIjoxNzAwMDg2NDAwMDAwfQ.bWFj'' (Some ''https://abc-1.lovable.app''))"
  by (simp add: sample_verify)

text \<open>
  Claim C2 as stated fails: the handler never compares the token's \<open>sid\<close> with the stored
  \<open>session_id\<close> or with the supplied \<open>sessionId\<close>. A caller whose valid token carries the
  sid \<open>1700000000000-123e4567\<close> supplies another session's identifier and the update of
  that session's row proceeds.
\<close>

theorem toggle_favorite_ownership_counterexample:
  "verifySessionToken (\<lambda>k m. ''mac'') (Some ''s'') 1700000060000 ''eyJzaWQiOiIxNzAwMDAwMDAwMDAwLTEyM2U0NTY3Iiwib3JpZ2luIjoiaHR0cHM6Ly9hYmMtMS5sb3ZhYmxlLmFwcCIsImlhdCI6MTcwMDAwMDAwMDAwMCwiZXhwIjoxNzAwMDg2NDAwMDAwfQ.bWFj''
       (Some ''https://abc-1.lovable.app'')
     = \<lparr>valid = True, error = None,
        payload = Some (payload_json \<lparr>p_sid = ''1700000000000-123e4567'',
                                      p_origin = ''https://abc-1.lovable.app'',
                                      p_iat = 1700000000000, p_exp = 1700086400000\<rparr>)\<rparr> \<and>
   js_str ''1700000000000-123e4567'' \<noteq> js_str ''victim-session'' \<and>
   serve_toggle_favorite (\<lambda>k m. ''mac'')
       \<lparr>SESSION_SIGNING_SECRET = Some ''s'', SUPABASE_URL = Some ''https://db.example'',
         SUPABASE_SERVICE_ROLE_KEY = Some ''key''\<rparr>
       1700000060000 False False
       \<lparr>tf_method = ''POST'', tf_origin = Some ''https://abc-1.lovable.app'',
         tf_session_token = Some ''eyJzaWQiOiIxNzAwMDAwMDAwMDAwLTEyM2U0NTY3Iiwib3JpZ2luIjoiaHR0cHM6Ly9hYmMtMS5sb3ZhYmxlLmFwcCIsImlhdCI6MTcwMDAwMDAwMDAwMCwiZXhwIjoxNzAwMDg2NDAwMDAwfQ.bWFj'',
         tf_json = Some \<lparr>b_id = js_str ''row-1'', b_type = js_str ''menu'',
                          b_isFavorite = Some True, b_sessionId = js_str ''victim-session''\<rparr>\<rparr>
       \<lparr>menu_analyses = [js_str ''row-1'' \<mapsto>
                           \<lparr>row_session_id = js_str ''victim-session'', row_is_favorite = False\<rparr>],
         product_analyses = Map.empty\<rparr>
     = (\<lparr>tf_status = 200, tf_result = TfSuccess True\<rparr>,
        \<lparr>menu_analyses = [js_str ''row-1'' \<mapsto>
                            \<lparr>row_session_id = js_str ''victim-session'', row_is_favorite = True\<rparr>],
          product_analyses = Map.empty\<rparr>)"
proof -
  let ?req = "\<lparr>tf_method = ''POST'', tf_origin = Some ''https://abc-1.lovable.app'',
         tf_session_token = Some ''eyJzaWQiOiIxNzAwMDAwMDAwMDAwLTEyM2U0NTY3Iiwib3JpZ2luIjoiaHR0cHM6Ly9hYmMtMS5sb3ZhYmxlLmFwcCIsImlhdCI6MTcwMDAwMDAwMDAwMCwiZXhwIjoxNzAwMDg2NDAwMDAwfQ.bWFj'',
         tf_json = Some \<lparr>b_id = js_str ''row-1'', b_type = js_str ''menu'',
                          b_isFavorite = Some True, b_sessionId = js_str ''victim-session''\<rparr>\<rparr>"
  have m: "tf_method ?req \<noteq> ''OPTIONS''" by simp
  have t: "tf_session_token ?req = Some ''eyJzaWQiOiIxNzAwMDAwMDAwMDAwLTEyM2U0NTY3Iiwib3JpZ2luIjoiaHR0cHM6Ly9hYmMtMS5sb3ZhYmxlLmFwcCIsImlhdCI6MTcwMDAwMDAwMDAwMCwiZXhwIjoxNzAwMDg2NDAwMDAwfQ.bWFj''" by simp
  have ne: "''eyJzaWQiOiIxNzAwMDAwMDAwMDAwLTEyM2U0NTY3Iiwib3JpZ2luIjoiaHR0cHM6Ly9hYmMtMS5sb3ZhYmxlLmFwcCIsImlhdCI6MTcwMDAwMDAwMDAwMCwiZXhwIjoxNzAwMDg2NDAwMDAwfQ.bWFj'' \<noteq> []" by simp
  have v: "valid (verifySessionToken (\<lambda>k m. ''mac'')
            (SESSION_SIGNING_SECRET \<lparr>SESSION_SIGNING_SECRET = Some ''s'',
               SUPABASE_URL = Some ''https://db.example'', SUPABASE_SERVICE_ROLE_KEY = Some ''key''\<rparr>)
            1700000060000 ''eyJzaWQiOiIxNzAwMDAwMDAwMDAwLTEyM2U0NTY3Iiwib3JpZ2luIjoiaHR0cHM6Ly9hYmMtMS5sb3ZhYmxlLmFwcCIsImlhdCI6MTcwMDAwMDAwMDAwMCwiZXhwIjoxNzAwMDg2NDAwMDAwfQ.bWFj'' (tf_origin ?req))"
    using sample_toggle_valid by simp
  have d: "js_str ''1700000000000-123e4567'' \<noteq> js_str ''victim-session''"
    by (simp add: js_str_def)
  have r: "serve_toggle_favorite (\<lambda>k m. ''mac'')
       \<lparr>SESSION_SIGNING_SECRET = Some ''s'', SUPABASE_URL = Some ''https://db.example'',
         SUPABASE_SERVICE_ROLE_KEY = Some ''key''\<rparr>
       1700000060000 False False ?req
       \<lparr>menu_analyses = [js_str ''row-1'' \<mapsto>
                           \<lparr>row_session_id = js_str ''victim-session'', row_is_favorite = False\<rparr>],
         product_analyses = Map.empty\<rparr>
     = (\<lparr>tf_status = 200, tf_result = TfSuccess True\<rparr>,
        \<lparr>menu_analyses = [js_str ''row-1'' \<mapsto>
                            \<lparr>row_session_id = js_str ''victim-session'', row_is_favorite = True\<rparr>],
          product_analyses = Map.empty\<rparr>)"
    unfolding toggle_after_token [OF m t ne v]
    by (simp add: falsy_def table_get_def table_update_def js_str_def Let_def)
  from sample_verify d r show ?thesis by blast
qed

theorem toggle_favorite_ownership_witness:
  "serve_toggle_favorite (\<lambda>k m. ''mac'')
       \<lparr>SESSION_SIGNING_SECRET = Some ''s'', SUPABASE_URL = Some ''https://db.example'',
         SUPABASE_SERVICE_ROLE_KEY = Some ''key''\<rparr>
       1700000060000 False False
       \<lparr>tf_method = ''POST'', tf_origin = Some ''https://abc-1.lovable.app'',
         tf_session_token = Some ''eyJzaWQiOiIxNzAwMDAwMDAwMDAwLTEyM2U0NTY3Iiwib3JpZ2luIjoiaHR0cHM6Ly9hYmMtMS5sb3ZhYmxlLmFwcCIsImlhdCI6MTcwMDAwMDAwMDAwMCwiZXhwIjoxNzAwMDg2NDAwMDAwfQ.bWFj'',
         tf_json = Some \<lparr>b_id = js_str ''row-1'', b_type = js_str ''menu'',
                          b_isFavorite = Some True,
                          b_sessionId = js_str ''1700000000000-123e4567''\<rparr>\<rparr>
       \<lparr>menu_analyses = [js_str ''row-1'' \<mapsto>
                           \<lparr>row_session_id = js_str ''victim-session'', row_is_favorite = False\<rparr>],
         product_analyses = Map.empty\<rparr>
     = (\<lparr>tf_status = 403, tf_result = TfError NotAuthorized\<rparr>,
        \<lparr>menu_analyses = [js_str ''row-1'' \<mapsto>
                            \<lparr>row_session_id = js_str ''victim-session'', row_is_favorite = False\<rparr>],
          product_analyses = Map.empty\<rparr>)"
proof -
  let ?env = "\<lparr>SESSION_SIGNING_SECRET = Some ''s'', SUPABASE_URL = Some ''https://db.example'',
         SUPABASE_SERVICE_ROLE_KEY = Some ''key''\<rparr>"
  let ?b = "\<lparr>b_id = js_str ''row-1'', b_type = js_str ''menu'',
                          b_isFavorite = Some True,
                          b_sessionId = js_str ''1700000000000-123e4567''\<rparr>"
  let ?req = "\<lparr>tf_method = ''POST'', tf_origin = Some ''https://abc-1.lovable.app'',
         tf_session_token = Some ''eyJzaWQiOiIxNzAwMDAwMDAwMDAwLTEyM2U0NTY3Iiwib3JpZ2luIjoiaHR0cHM6Ly9hYmMtMS5sb3ZhYmxlLmFwcCIsImlhdCI6MTcwMDAwMDAwMDAwMCwiZXhwIjoxNzAwMDg2NDAwMDAwfQ.bWFj'', tf_json = Some ?b\<rparr>"
  let ?row = "\<lparr>row_session_id = js_str ''victim-session'', row_is_favorite = False\<rparr>"
  let ?db = "\<lparr>menu_analyses = [js_str ''row-1'' \<mapsto> ?row], product_analyses = Map.empty\<rparr>"
  have m: "tf_method ?req \<noteq> ''OPTIONS''" by simp
  have t: "tf_session_token ?req = Some ''eyJzaWQiOiIxNzAwMDAwMDAwMDAwLTEyM2U0NTY3Iiwib3JpZ2luIjoiaHR0cHM6Ly9hYmMtMS5sb3ZhYmxlLmFwcCIsImlhdCI6MTcwMDAwMDAwMDAwMCwiZXhwIjoxNzAwMDg2NDAwMDAwfQ.bWFj''" by simp
  have v: "valid (verifySessionToken (\<lambda>k m. ''mac'') (SESSION_SIGNING_SECRET ?env)
            1700000060000 ''eyJzaWQiOiIxNzAwMDAwMDAwMDAwLTEyM2U0NTY3Iiwib3JpZ2luIjoiaHR0cHM6Ly9hYmMtMS5sb3ZhYmxlLmFwcCIsImlhdCI6MTcwMDAwMDAwMDAwMCwiZXhwIjoxNzAwMDg2NDAwMDAwfQ.bWFj'' (tf_origin ?req))"
    using sample_toggle_valid by simp
  have h: "tf_json ?req = Some ?b \<and>
      b_id ?b \<noteq> [] \<and> b_isFavorite ?b \<noteq> None \<and> b_sessionId ?b \<noteq> [] \<and>
      (b_type ?b = js_str ''menu'' \<or> b_type ?b = js_str ''product'') \<and>
      \<not> falsy (SUPABASE_URL ?env) \<and> \<not> falsy (SUPABASE_SERVICE_ROLE_KEY ?env) \<and>
      \<not> False \<and>
      table_get ?db (tf_table ?b) (b_id ?b) = Some ?row \<and>
      row_session_id ?row \<noteq> b_sessionId ?b"
    by (simp add: falsy_def table_get_def tf_table_def js_str_def)
  from toggle_favorite_ownership [OF m t v, of False False ?db ?b ?row] h
  show ?thesis by blast
qed


section \<open>Properties of the session manager\<close>

text \<open>
  Claim C8. The buffer is five minutes. If the held record expires more than the buffer
  after \<open>now\<close> (Fresh), \<open>ensureValidSession\<close> returns its token and leaves the whole state,
  the count of issuer calls included, as it was. Otherwise (no record, or a record inside
  the buffer or past expiry) it clears the record and the storage and calls the issuer
  once; on a successful answer it stores the new record in the ref and in the storage and
  returns the new token, and on any failure it returns \<open>null\<close> with no record held or
  stored.
\<close>

theorem session_manager_states:
  "EXPIRY_BUFFER_MS = 5 * 60 * 1000 \<and>
   (sessionDataRef st = Some cur \<and> sd_expiresAt cur > now + EXPIRY_BUFFER_MS
      \<longrightarrow> ensureValidSession response now now' st = (Some (sd_token cur), st)) \<and>
   ((sessionDataRef st = None \<or>
     (sessionDataRef st = Some cur \<and> sd_expiresAt cur \<le> now + EXPIRY_BUFFER_MS)) \<and>
    response = InvokeData (Some d) \<and> d_success d \<and> d_token d \<noteq> [] \<and> d_sessionId d \<noteq> []
      \<longrightarrow> ensureValidSession response now now' st =
            (Some (d_token d),
             st\<lparr>sessionDataRef := Some \<lparr>sd_sessionId = d_sessionId d, sd_token = d_token d,
                                        sd_expiresAt = now' + d_expiresIn d * 1000\<rparr>,
                sessionStorage := Some \<lparr>sd_sessionId = d_sessionId d, sd_token = d_token d,
                                        sd_expiresAt = now' + d_expiresIn d * 1000\<rparr>,
                sessionToken := Some (d_token d),
                sessionIdState := Some (d_sessionId d),
                initializingRef := False,
                issuer_calls := issuer_calls st + 1\<rparr>)) \<and>
   ((sessionDataRef st = None \<or>
     (sessionDataRef st = Some cur \<and> sd_expiresAt cur \<le> now + EXPIRY_BUFFER_MS)) \<and>
    \<not> (\<exists>d. response = InvokeData (Some d) \<and> d_success d \<and> d_token d \<noteq> [] \<and> d_sessionId d \<noteq> [])
      \<longrightarrow> ensureValidSession response now now' st =
            (None,
             st\<lparr>sessionDataRef := None, sessionStorage := None, sessionToken := None,
                sessionIdState := None, initializingRef := False,
                issuer_calls := issuer_calls st + 1\<rparr>))"
proof -
  have fresh: "ensureValidSession response now now' st = (Some (sd_token cur), st)"
    if "sessionDataRef st = Some cur" and "sd_expiresAt cur > now + EXPIRY_BUFFER_MS"
    using that by (simp add: ensureValidSession_def EXPIRY_BUFFER_MS_def)
  have ok: "ensureValidSession response now now' st =
            (Some (d_token d),
             st\<lparr>sessionDataRef := Some \<lparr>sd_sessionId = d_sessionId d, sd_token = d_token d,
                                        sd_expiresAt = now' + d_expiresIn d * 1000\<rparr>,
                sessionStorage := Some \<lparr>sd_sessionId = d_sessionId d, sd_token = d_token d,
                                        sd_expiresAt = now' + d_expiresIn d * 1000\<rparr>,
                sessionToken := Some (d_token d),
                sessionIdState := Some (d_sessionId d),
                initializingRef := False,
                issuer_calls := issuer_calls st + 1\<rparr>)"
    if "sessionDataRef st = None \<or>
         (sessionDataRef st = Some cur \<and> sd_expiresAt cur \<le> now + EXPIRY_BUFFER_MS)"
      and "response = InvokeData (Some d)" and "d_success d" and "d_token d \<noteq> []"
      and "d_sessionId d \<noteq> []"
    using that
    by (auto simp: ensureValidSession_def createSession_def EXPIRY_BUFFER_MS_def Let_def)
  have bad: "ensureValidSession response now now' st =
            (None,
             st\<lparr>sessionDataRef := None, sessionStorage := None, sessionToken := None,
                sessionIdState := None, initializingRef := False,
                issuer_calls := issuer_calls st + 1\<rparr>)"
    if "sessionDataRef st = None \<or>
         (sessionDataRef st = Some cur \<and> sd_expiresAt cur \<le> now + EXPIRY_BUFFER_MS)"
      and "\<not> (\<exists>d. response = InvokeData (Some d) \<and> d_success d \<and> d_token d \<noteq> []
                 \<and> d_sessionId d \<noteq> [])"
    using that
    by (auto simp: ensureValidSession_def createSession_def EXPIRY_BUFFER_MS_def Let_def
             split: invoke_result.splits option.splits)
  have buf: "EXPIRY_BUFFER_MS = 5 * 60 * 1000" by (simp add: EXPIRY_BUFFER_MS_def)
  from buf fresh ok bad show ?thesis by blast
qed

theorem session_manager_states_witness:
  "ensureValidSession (InvokeError ''offline'') 1700000000000 1700000000001
     \<lparr>sessionDataRef = Some \<lparr>sd_sessionId = ''1700000000000-123e4567'', sd_token = ''tok-a'',
                               sd_expiresAt = 1700000300001\<rparr>,
      sessionStorage = None, sessionToken = None, sessionIdState = None,
      initializingRef = False, issuer_calls = 0\<rparr>
   = (Some ''tok-a'',
      \<lparr>sessionDataRef = Some \<lparr>sd_sessionId = ''1700000000000-123e4567'', sd_token = ''tok-a'',
                               sd_expiresAt = 1700000300001\<rparr>,
       sessionStorage = None, sessionToken = None, sessionIdState = None,
       initializingRef = False, issuer_calls = 0\<rparr>) \<and>
   ensureValidSession
     (InvokeData (Some \<lparr>d_success = True, d_token = ''tok-b'',
                         d_sessionId = ''1700000000002-89abcdef'', d_expiresIn = 86400\<rparr>))
     1700000000000 1700000000002
     \<lparr>sessionDataRef = Some \<lparr>sd_sessionId = ''1700000000000-123e4567'', sd_token = ''tok-a'',
                               sd_expiresAt = 1700000300000\<rparr>,
      sessionStorage = None, sessionToken = Some ''tok-a'', sessionIdState = None,
      initializingRef = True, issuer_calls = 3\<rparr>
   = (Some ''tok-b'',
      \<lparr>sessionDataRef = Some \<lparr>sd_sessionId = ''1700000000002-89abcdef'', sd_token = ''tok-b'',
                               sd_expiresAt = 1700086400002\<rparr>,
       sessionStorage = Some \<lparr>sd_sessionId = ''1700000000002-89abcdef'', sd_token = ''tok-b'',
                               sd_expiresAt = 1700086400002\<rparr>,
       sessionToken = Some ''tok-b'', sessionIdState = Some ''1700000000002-89abcdef'',
       initializingRef = False, issuer_calls = 4\<rparr>) \<and>
   ensureValidSession (InvokeError ''offline'') 1700000000000 1700000000001
     \<lparr>sessionDataRef = None, sessionStorage = None, sessionToken = None, sessionIdState = None,
      initializingRef = False, issuer_calls = 0\<rparr>
   = (None,
      \<lparr>sessionDataRef = None, sessionStorage = None, sessionToken = None, sessionIdState = None,
       initializingRef = False, issuer_calls = 1\<rparr>)"
proof -
  let ?a = "\<lparr>sd_sessionId = ''1700000000000-123e4567'', sd_token = ''tok-a'',
             sd_expiresAt = 1700000300001\<rparr>"
  let ?a' = "\<lparr>sd_sessionId = ''1700000000000-123e4567'', sd_token = ''tok-a'',
              sd_expiresAt = 1700000300000\<rparr>"
  let ?d = "\<lparr>d_success = True, d_token = ''tok-b'',
             d_sessionId = ''1700000000002-89abcdef'', d_expiresIn = 86400\<rparr>"
  let ?s1 = "\<lparr>sessionDataRef = Some ?a, sessionStorage = None, sessionToken = None,
              sessionIdState = None, initializingRef = False, issuer_calls = 0\<rparr>"
  let ?s2 = "\<lparr>sessionDataRef = Some ?a', sessionStorage = None, sessionToken = Some ''tok-a'',
              sessionIdState = None, initializingRef = True, issuer_calls = 3\<rparr>"
  let ?s3 = "\<lparr>sessionDataRef = None, sessionStorage = None, sessionToken = None,
              sessionIdState = None, initializingRef = False, issuer_calls = 0\<rparr>"
  have b: "EXPIRY_BUFFER_MS = 300000" by (simp add: EXPIRY_BUFFER_MS_def)
  from session_manager_states [of ?s1 ?a 1700000000000 "InvokeError ''offline''" 1700000000001]
  have f: "ensureValidSession (InvokeError ''offline'') 1700000000000 1700000000001 ?s1
             = (Some ''tok-a'', ?s1)"
    by (simp add: b)
  from session_manager_states [of ?s2 ?a' 1700000000000 "InvokeData (Some ?d)" 1700000000002 ?d]
  have g: "ensureValidSession (InvokeData (Some ?d)) 1700000000000 1700000000002 ?s2
             = (Some ''tok-b'',
                \<lparr>sessionDataRef = Some \<lparr>sd_sessionId = ''1700000000002-89abcdef'',
                                         sd_token = ''tok-b'', sd_expiresAt = 1700086400002\<rparr>,
                 sessionStorage = Some \<lparr>sd_sessionId = ''1700000000002-89abcdef'',
                                         sd_token = ''tok-b'', sd_expiresAt = 1700086400002\<rparr>,
                 sessionToken = Some ''tok-b'', sessionIdState = Some ''1700000000002-89abcdef'',
                 initializingRef = False, issuer_calls = 4\<rparr>)"
    by (simp add: b)
  from session_manager_states [of ?s3 ?a 1700000000000 "InvokeError ''offline''" 1700000000001]
  have h: "ensureValidSession (InvokeError ''offline'') 1700000000000 1700000000001 ?s3
             = (None,
                \<lparr>sessionDataRef = None, sessionStorage = None, sessionToken = None,
                 sessionIdState = None, initializingRef = False, issuer_calls = 1\<rparr>)"
    by simp
  from f g h show ?thesis by blast
qed


end
